(* ===== verification/Prelude.thy ===== *)
theory Prelude imports Main begin

text \<open>
  The shared base of the development: Python strings as lists of code points, Python
  exceptions as values, and programs that read and write a state of any type and either
  return a value or raise. Every handler of the model is such a program, so the rules of
  this theory (how \<open>bnd\<close>, \<open>catch\<close> and friends preserve invariants and relations) carry
  the proofs about whole handlers.
\<close>

named_theorems prog_simps "unfolding of the program combinators"
named_theorems pres_rules "compositional rules for invariants"
named_theorems step_rules "compositional rules for state relations"
named_theorems run_simps "running a program operation by operation"

section \<open>Strings and exceptions\<close>

text \<open>A Python \<open>str\<close> is a sequence of Unicode code points.\<close>

type_synonym ustr = "int list"

text \<open>
  The exceptions the code raises, catches or lets through.
  \<open>LLMOutputParseError\<close> is a subclass of \<open>LLMTerminalFailure\<close> (llm/base.py).
  \<open>IngestRejected\<close> carries the message shown to the user.
\<close>

datatype exn =
    LLMTerminalFailure ustr
  | LLMOutputParseError ustr
  | IngestRejected ustr
  | IngestUnsupported
  | PathEscapeError
  | FileNotFoundError
  | AssertionError
  | AttributeError
  | TypeError
  | KeyError
  | ValueError
  | IndexError
  | UndefinedError
  | IntegrityError
  | HTTPStatusError nat
  | HTTPTransportError
  | RuntimeError
  | OtherError ustr

fun is_terminal_failure :: "exn \<Rightarrow> bool" where
  "is_terminal_failure (LLMTerminalFailure m) = True"
| "is_terminal_failure (LLMOutputParseError m) = True"
| "is_terminal_failure _ = False"

text \<open>\<open>httpx.HTTPError\<close> covers refused statuses and failed connections.\<close>

fun is_http_error :: "exn \<Rightarrow> bool" where
  "is_http_error (HTTPStatusError c) = True"
| "is_http_error HTTPTransportError = True"
| "is_http_error _ = False"

fun is_ingest_rejected :: "exn \<Rightarrow> bool" where
  "is_ingest_rejected (IngestRejected m) = True"
| "is_ingest_rejected _ = False"

section \<open>Programs\<close>

text \<open>
  A program maps a state to a result and a new state. A raised exception keeps the state
  changes made before it, as in Python.
\<close>

type_synonym ('w, 'a) prog = "'w \<Rightarrow> (exn + 'a) \<times> 'w"

definition ret :: "'a \<Rightarrow> ('w, 'a) prog" where
  "ret a = (\<lambda>w. (Inr a, w))"

definition raise_exn :: "exn \<Rightarrow> ('w, 'a) prog" where
  "raise_exn e = (\<lambda>w. (Inl e, w))"

definition bnd :: "('w, 'a) prog \<Rightarrow> ('a \<Rightarrow> ('w, 'b) prog) \<Rightarrow> ('w, 'b) prog" where
  "bnd m f = (\<lambda>w. case m w of (Inl e, w') \<Rightarrow> (Inl e, w') | (Inr a, w') \<Rightarrow> f a w')"

abbreviation andthen :: "('w, 'a) prog \<Rightarrow> ('w, 'b) prog \<Rightarrow> ('w, 'b) prog" where
  "andthen m k \<equiv> bnd m (\<lambda>_. k)"

definition gets :: "('w \<Rightarrow> 'a) \<Rightarrow> ('w, 'a) prog" where
  "gets f = (\<lambda>w. (Inr (f w), w))"

definition modify :: "('w \<Rightarrow> 'w) \<Rightarrow> ('w, unit) prog" where
  "modify f = (\<lambda>w. (Inr (), f w))"

definition lift_sum :: "exn + 'a \<Rightarrow> ('w, 'a) prog" where
  "lift_sum r = (\<lambda>w. (r, w))"

text \<open>\<open>try: m except e: h e\<close>; a handler that does not match re-raises.\<close>

definition catch :: "('w, 'a) prog \<Rightarrow> (exn \<Rightarrow> ('w, 'a) prog) \<Rightarrow> ('w, 'a) prog" where
  "catch m h = (\<lambda>w. case m w of (Inl e, w') \<Rightarrow> h e w' | (Inr a, w') \<Rightarrow> (Inr a, w'))"

text \<open>A \<open>for\<close> loop whose body returns nothing, and one that collects the body's results.\<close>

fun for_each :: "'a list \<Rightarrow> ('a \<Rightarrow> ('w, unit) prog) \<Rightarrow> ('w, unit) prog" where
  "for_each [] f = ret ()"
| "for_each (x # xs) f = andthen (f x) (for_each xs f)"

fun map_prog :: "('a \<Rightarrow> ('w, 'b) prog) \<Rightarrow> 'a list \<Rightarrow> ('w, 'b list) prog" where
  "map_prog f [] = ret []"
| "map_prog f (x # xs) = bnd (f x) (\<lambda>y. bnd (map_prog f xs) (\<lambda>ys. ret (y # ys)))"

lemmas prog_defs = ret_def raise_exn_def bnd_def gets_def modify_def lift_sum_def catch_def
declare prog_defs [prog_simps]

lemma ret_bnd [simp]: "bnd (ret a) f = f a"
  by (simp add: prog_simps)

lemma raise_bnd [simp]: "bnd (raise_exn e) f = raise_exn e"
  by (simp add: prog_simps)

lemma gets_bnd: "bnd (gets g) f w = f (g w) w"
  by (simp add: prog_simps)

lemma modify_bnd: "bnd (modify g) f w = f () (g w)"
  by (simp add: prog_simps)

lemma bnd_ret [simp]: "bnd m ret = m"
  by (rule ext) (simp add: prog_simps split: prod.splits sum.splits)

lemma bnd_assoc: "bnd (bnd m f) g = bnd m (\<lambda>x. bnd (f x) g)"
  by (rule ext) (simp add: prog_simps split: prod.splits sum.splits)

lemma run_gets [run_simps]: "gets f w = (Inr (f w), w)"
  by (simp add: gets_def)

lemma run_ret [run_simps]: "ret a w = (Inr a, w)"
  by (simp add: ret_def)

lemma run_raise [run_simps]: "raise_exn e w = (Inl e, w)"
  by (simp add: raise_exn_def)

lemma run_modify [run_simps]: "modify g w = (Inr (), g w)"
  by (simp add: modify_def)

lemma run_lift_sum [run_simps]:
  "bnd (lift_sum r) f w = (case r of Inl e \<Rightarrow> (Inl e, w) | Inr a \<Rightarrow> f a w)"
  by (simp add: lift_sum_def bnd_def)

lemma run_if [run_simps]:
  "bnd (if b then m else k) f w = (if b then bnd m f w else bnd k f w)"
  "(if b then m else k) w = (if b then m w else k w)"
  by simp_all

lemmas [run_simps] = gets_bnd modify_bnd bnd_assoc

lemma bnd_Inr: "m w = (Inr a, w') \<Longrightarrow> bnd m f w = f a w'"
  by (simp add: prog_simps)

lemma bnd_Inl: "m w = (Inl e, w') \<Longrightarrow> bnd m f w = (Inl e, w')"
  by (simp add: prog_simps)

lemma bnd_InrE:
  assumes "bnd m f w = (Inr b, w'')"
  obtains a w' where "m w = (Inr a, w')" and "f a w' = (Inr b, w'')"
  using assms by (auto simp: bnd_def split: prod.splits sum.splits)

lemma bnd_snd_cases:
  assumes "\<And>x v. m w = (Inl x, v) \<Longrightarrow> Q v" and "\<And>a v. m w = (Inr a, v) \<Longrightarrow> Q (snd (f a v))"
  shows "Q (snd (bnd m f w))"
  using assms by (auto simp: bnd_def split: prod.splits sum.splits)

lemma catch_Inr: "m w = (Inr a, w') \<Longrightarrow> catch m h w = (Inr a, w')"
  by (simp add: prog_simps)

lemma catch_Inl: "m w = (Inl e, w') \<Longrightarrow> catch m h w = h e w'"
  by (simp add: prog_simps)

lemma map_prog_Cons_Inr:
  "f x w = (Inr y, w') \<Longrightarrow> map_prog f xs w' = (Inr ys, w'') \<Longrightarrow>
   map_prog f (x # xs) w = (Inr (y # ys), w'')"
  by (simp add: prog_simps)

section \<open>State relations: what a program may change\<close>

text \<open>
  \<open>steps R m\<close>: whatever \<open>m\<close> returns or raises, its final state is \<open>R\<close>-related to
  its initial one. For a reflexive and transitive \<open>R\<close> the relation composes along every
  program, so a fact about the primitive operations lifts to the whole dispatcher.
\<close>

definition steps :: "('w \<Rightarrow> 'w \<Rightarrow> bool) \<Rightarrow> ('w, 'a) prog \<Rightarrow> bool" where
  "steps R m \<longleftrightarrow> (\<forall>w. R w (snd (m w)))"

lemma stepsI: "(\<And>w. R w (snd (m w))) \<Longrightarrow> steps R m"
  by (simp add: steps_def)

lemma stepsD: "steps R m \<Longrightarrow> R w (snd (m w))"
  by (simp add: steps_def)

lemma stepsE: "steps R m \<Longrightarrow> m w = (r, w') \<Longrightarrow> R w w'"
  by (metis snd_conv stepsD)

locale state_relation =
  fixes R :: "'w \<Rightarrow> 'w \<Rightarrow> bool"
  assumes refl_R: "R w w"
    and trans_R: "R u v \<Longrightarrow> R v w \<Longrightarrow> R u w"
begin

lemma steps_ret: "steps R (ret a)"
  by (simp add: steps_def ret_def refl_R)

lemma steps_raise: "steps R (raise_exn e)"
  by (simp add: steps_def raise_exn_def refl_R)

lemma steps_gets: "steps R (gets f)"
  by (simp add: steps_def gets_def refl_R)

lemma steps_lift: "steps R (lift_sum r)"
  by (simp add: steps_def lift_sum_def refl_R)

lemma steps_bnd:
  assumes "steps R m" and "\<And>a. steps R (f a)"
  shows "steps R (bnd m f)"
proof (rule stepsI)
  fix w
  obtain r w' where m: "m w = (r, w')" by (cases "m w")
  have first: "R w w'" using assms(1) m by (rule stepsE)
  show "R w (snd (bnd m f w))"
  proof (cases r)
    case (Inl e)
    with m first show ?thesis by (simp add: bnd_def)
  next
    case (Inr a)
    have "R w' (snd (f a w'))" using assms(2) by (rule stepsD)
    with first have "R w (snd (f a w'))" by (rule trans_R)
    with m Inr show ?thesis by (simp add: bnd_def)
  qed
qed

lemma steps_catch:
  assumes "steps R m" and "\<And>e. steps R (h e)"
  shows "steps R (catch m h)"
proof (rule stepsI)
  fix w
  obtain r w' where m: "m w = (r, w')" by (cases "m w")
  have first: "R w w'" using assms(1) m by (rule stepsE)
  show "R w (snd (catch m h w))"
  proof (cases r)
    case (Inr a)
    with m first show ?thesis by (simp add: catch_def)
  next
    case (Inl e)
    have "R w' (snd (h e w'))" using assms(2) by (rule stepsD)
    with first have "R w (snd (h e w'))" by (rule trans_R)
    with m Inl show ?thesis by (simp add: catch_def)
  qed
qed

lemma steps_for_each: "(\<And>x. steps R (f x)) \<Longrightarrow> steps R (for_each xs f)"
  by (induction xs) (auto intro: steps_ret steps_bnd)

lemma steps_map_prog: "(\<And>x. steps R (f x)) \<Longrightarrow> steps R (map_prog f xs)"
  by (induction xs) (auto intro!: steps_ret steps_bnd)

lemma steps_if: "steps R m \<Longrightarrow> steps R k \<Longrightarrow> steps R (if b then m else k)"
  by simp

lemma steps_let: "steps R (f x) \<Longrightarrow> steps R (let y = x in f y)"
  by simp

lemma steps_option:
  "steps R m \<Longrightarrow> (\<And>x. steps R (f x)) \<Longrightarrow> steps R (case z of None \<Rightarrow> m | Some x \<Rightarrow> f x)"
  by (cases z) auto

lemma steps_sum:
  "(\<And>x. steps R (f x)) \<Longrightarrow> (\<And>x. steps R (g x)) \<Longrightarrow>
   steps R (case z of Inl x \<Rightarrow> f x | Inr x \<Rightarrow> g x)"
  by (cases z) auto

lemma steps_prod: "(\<And>x y. steps R (f x y)) \<Longrightarrow> steps R (case z of (x, y) \<Rightarrow> f x y)"
  by (cases z) auto

lemmas steps_intros = steps_ret steps_raise steps_gets steps_lift steps_bnd steps_catch
  steps_for_each steps_map_prog steps_if steps_let steps_option steps_sum steps_prod

end

section \<open>Invariants\<close>

definition preserves :: "('w \<Rightarrow> bool) \<Rightarrow> ('w, 'a) prog \<Rightarrow> bool" where
  "preserves I m \<longleftrightarrow> (\<forall>w. I w \<longrightarrow> I (snd (m w)))"

lemma preservesI: "(\<And>w. I w \<Longrightarrow> I (snd (m w))) \<Longrightarrow> preserves I m"
  by (simp add: preserves_def)

lemma preservesD: "preserves I m \<Longrightarrow> I w \<Longrightarrow> I (snd (m w))"
  by (simp add: preserves_def)

lemma preserves_as_steps: "preserves I m \<longleftrightarrow> steps (\<lambda>w w'. I w \<longrightarrow> I w') m"
  by (auto simp: preserves_def steps_def)

interpretation invariant_relation: state_relation "\<lambda>w w'. I w \<longrightarrow> I w'" for I :: "'w \<Rightarrow> bool"
  by unfold_locales auto

lemmas preserves_bnd [pres_rules] = invariant_relation.steps_bnd [folded preserves_as_steps]
lemmas preserves_catch [pres_rules] = invariant_relation.steps_catch [folded preserves_as_steps]
lemmas preserves_for_each [pres_rules] =
  invariant_relation.steps_for_each [folded preserves_as_steps]

section \<open>Lists\<close>

lemma filter_map_same: "filter P (map f xs) = map f (filter (P \<circ> f) xs)"
  by (induction xs) auto

lemma find_filter_hd: "find P xs = (case filter P xs of [] \<Rightarrow> None | x # _ \<Rightarrow> Some x)"
  by (induction xs) auto

lemma find_SomeD: "find P xs = Some x \<Longrightarrow> x \<in> set xs \<and> P x"
  by (induction xs) (auto split: if_splits)

lemma find_None_iff_all: "find P xs = None \<longleftrightarrow> (\<forall>x \<in> set xs. \<not> P x)"
  by (induction xs) auto

lemma find_map: "find P (map f xs) = map_option f (find (P \<circ> f) xs)"
  by (induction xs) auto

lemma length_filter_le_one_find:
  "length (filter P xs) \<le> 1 \<Longrightarrow> x \<in> set xs \<Longrightarrow> P x \<Longrightarrow> find P xs = Some x"
  by (induction xs) (auto simp: filter_empty_conv split: if_splits)

end
