(* ===== verification/PyStr.thy ===== *)
theory PyStr imports UnicodeLower "HOL-Library.Sublist" begin

text \<open>
  The operations of Python's \<open>str\<close> that the code uses, on lists of code points. An
  ASCII literal of the source is written \<open>asc ''...''\<close>; other literals are lists of
  code points.
\<close>

definition asc :: "string \<Rightarrow> ustr" where
  "asc s = map of_char s"

lemma asc_Nil [simp]: "asc [] = []"
  by (simp add: asc_def)

lemma asc_Cons [simp]: "asc (c # s) = of_char c # asc s"
  by (simp add: asc_def)

text \<open>\<open>str.isspace\<close>, which is also what \<open>str.strip()\<close> removes and \<open>\s\<close> matches.\<close>

definition is_space :: "int \<Rightarrow> bool" where
  "is_space c \<longleftrightarrow>
     (9 \<le> c \<and> c \<le> 13) \<or> (28 \<le> c \<and> c \<le> 32) \<or> c = 133 \<or> c = 160 \<or> c = 5760 \<or>
     (8192 \<le> c \<and> c \<le> 8202) \<or> c = 8232 \<or> c = 8233 \<or> c = 8239 \<or> c = 8287 \<or> c = 12288"

definition lstrip_by :: "(int \<Rightarrow> bool) \<Rightarrow> ustr \<Rightarrow> ustr" where
  "lstrip_by P s = dropWhile P s"

definition rstrip_by :: "(int \<Rightarrow> bool) \<Rightarrow> ustr \<Rightarrow> ustr" where
  "rstrip_by P s = rev (dropWhile P (rev s))"

definition strip_by :: "(int \<Rightarrow> bool) \<Rightarrow> ustr \<Rightarrow> ustr" where
  "strip_by P s = rstrip_by P (lstrip_by P s)"

abbreviation lstrip :: "ustr \<Rightarrow> ustr" where "lstrip \<equiv> lstrip_by is_space"
abbreviation rstrip :: "ustr \<Rightarrow> ustr" where "rstrip \<equiv> rstrip_by is_space"
abbreviation strip :: "ustr \<Rightarrow> ustr" where "strip \<equiv> strip_by is_space"

definition startswith :: "ustr \<Rightarrow> ustr \<Rightarrow> bool" where
  "startswith s p \<longleftrightarrow> take (length p) s = p"

definition endswith :: "ustr \<Rightarrow> ustr \<Rightarrow> bool" where
  "endswith s p \<longleftrightarrow> length p \<le> length s \<and> drop (length s - length p) s = p"

definition startswith_any :: "ustr \<Rightarrow> ustr list \<Rightarrow> bool" where
  "startswith_any s ps \<longleftrightarrow> list_ex (startswith s) ps"

text \<open>\<open>s.find(sub)\<close>, with \<open>None\<close> for Python's \<open>-1\<close>; \<open>sub in s\<close>.\<close>

fun find_sub :: "ustr \<Rightarrow> ustr \<Rightarrow> nat option" where
  "find_sub [] p = (if p = [] then Some 0 else None)"
| "find_sub (c # s) p =
     (if startswith (c # s) p then Some 0 else map_option Suc (find_sub s p))"

definition contains :: "ustr \<Rightarrow> ustr \<Rightarrow> bool" where
  "contains p s \<longleftrightarrow> find_sub s p \<noteq> None"

text \<open>\<open>sep.join(parts)\<close>.\<close>

fun join :: "ustr \<Rightarrow> ustr list \<Rightarrow> ustr" where
  "join sep [] = []"
| "join sep [x] = x"
| "join sep (x # y # xs) = x @ sep @ join sep (y # xs)"

text \<open>Decimal digits of a natural number and of an integer, as an f-string prints them.\<close>

fun nat_digits :: "nat \<Rightarrow> ustr" where
  "nat_digits n = (if n < 10 then [48 + int n] else nat_digits (n div 10) @ [48 + int (n mod 10)])"

declare nat_digits.simps [simp del]

definition int_digits :: "int \<Rightarrow> ustr" where
  "int_digits i = (if i < 0 then 45 # nat_digits (nat (- i)) else nat_digits (nat i))"

text \<open>
  \<open>str.upper\<close>, as far as an equality with an ASCII word can tell: besides the ASCII letters,
  only the dotless i and the long s have a single ASCII letter as upper case.
\<close>

definition upper_cp :: "int \<Rightarrow> int" where
  "upper_cp c = (if 97 \<le> c \<and> c \<le> 122 then c - 32 else if c = 305 then 73
     else if c = 383 then 83 else c)"

definition upper :: "ustr \<Rightarrow> ustr" where
  "upper s = map upper_cp s"

section \<open>Laws\<close>

lemma startswith_prefix: "startswith s p \<longleftrightarrow> prefix p s"
  by (auto simp: startswith_def prefix_def) (metis append_take_drop_id)

lemma startswith_Nil [simp]: "startswith s []"
  by (simp add: startswith_def)

lemma startswith_append [simp]: "startswith (p @ s) p"
  by (simp add: startswith_def)

lemma lstrip_by_Nil [simp]: "lstrip_by P [] = []"
  by (simp add: lstrip_by_def)

lemma rstrip_by_Nil [simp]: "rstrip_by P [] = []"
  by (simp add: rstrip_by_def)

lemma strip_by_Nil [simp]: "strip_by P [] = []"
  by (simp add: strip_by_def)

lemma rstrip_by_snoc: "rstrip_by P (s @ [c]) = (if P c then rstrip_by P s else s @ [c])"
  by (simp add: rstrip_by_def)

lemma rstrip_by_spaces: "list_all P t \<Longrightarrow> rstrip_by P (s @ t) = rstrip_by P s"
proof (induction t rule: rev_induct)
  case Nil
  then show ?case by simp
next
  case (snoc c t)
  have "rstrip_by P ((s @ t) @ [c]) = rstrip_by P (s @ t)"
    using snoc.prems by (simp only: rstrip_by_snoc) simp
  with snoc show ?case by simp
qed

lemma lstrip_by_spaces: "list_all P t \<Longrightarrow> lstrip_by P (t @ s) = lstrip_by P s"
  by (simp add: lstrip_by_def list_all_iff dropWhile_append2)

lemma dropWhile_idem: "dropWhile P (dropWhile P s) = dropWhile P s"
  by (induction s) auto

lemma lstrip_by_idem [simp]: "lstrip_by P (lstrip_by P s) = lstrip_by P s"
  by (simp add: lstrip_by_def dropWhile_idem)

lemma rstrip_by_idem [simp]: "rstrip_by P (rstrip_by P s) = rstrip_by P s"
  by (simp add: rstrip_by_def dropWhile_idem)

lemma lstrip_by_head: "s \<noteq> [] \<Longrightarrow> \<not> P (hd s) \<Longrightarrow> lstrip_by P s = s"
  by (cases s) (auto simp: lstrip_by_def)

lemma rstrip_by_prefix: "\<exists>t. s = rstrip_by P s @ t \<and> list_all P t"
proof (induction s rule: rev_induct)
  case Nil
  then show ?case by simp
next
  case (snoc c s)
  then obtain t where t: "s = rstrip_by P s @ t" "list_all P t" by blast
  show ?case
  proof (cases "P c")
    case True
    with t have "s @ [c] = rstrip_by P (s @ [c]) @ (t @ [c])" by (simp add: rstrip_by_snoc)
    moreover have "list_all P (t @ [c])" using t True by simp
    ultimately show ?thesis by blast
  next
    case False
    then show ?thesis by (simp add: rstrip_by_snoc)
  qed
qed

lemma lstrip_rstrip_stable: "lstrip_by P (rstrip_by P (lstrip_by P s)) = rstrip_by P (lstrip_by P s)"
proof (cases "rstrip_by P (lstrip_by P s)")
  case Nil
  then show ?thesis by simp
next
  case (Cons c r)
  obtain t where "lstrip_by P s = rstrip_by P (lstrip_by P s) @ t"
    using rstrip_by_prefix by blast
  with Cons have l: "lstrip_by P s = c # r @ t" by simp
  have "dropWhile P s \<noteq> []" using l by (simp add: lstrip_by_def)
  then have "\<not> P (hd (dropWhile P s))" by (rule hd_dropWhile)
  then have "\<not> P c" using l by (simp add: lstrip_by_def)
  with Cons show ?thesis by (simp add: lstrip_by_def)
qed

lemma strip_by_idem [simp]: "strip_by P (strip_by P s) = strip_by P s"
  by (simp add: strip_by_def lstrip_rstrip_stable)

lemma dropWhile_all: "list_all P t \<Longrightarrow> dropWhile P t = []"
  by (induction t) auto

lemma strip_by_pad:
  assumes "list_all P t" and "list_all P u"
  shows "strip_by P (t @ s @ u) = strip_by P s"
proof (cases "list_all P s")
  case True
  then have "lstrip_by P (s @ u) = []" and "lstrip_by P s = []"
    using assms by (auto simp: lstrip_by_def dropWhile_all)
  with assms(1) show ?thesis by (simp add: strip_by_def lstrip_by_spaces)
next
  case False
  then obtain x where "x \<in> set s" "\<not> P x" by (auto simp: list_all_iff)
  then have "lstrip_by P (s @ u) = lstrip_by P s @ u"
    by (simp add: lstrip_by_def dropWhile_append1)
  with assms show ?thesis by (simp add: strip_by_def lstrip_by_spaces rstrip_by_spaces)
qed

lemma set_strip_by: "set (strip_by P s) \<subseteq> set s"
proof -
  have "set (rstrip_by P t) \<subseteq> set t" for t
    by (auto simp: rstrip_by_def dest: set_dropWhileD)
  moreover have "set (lstrip_by P s) \<subseteq> set s"
    by (auto simp: lstrip_by_def dest: set_dropWhileD)
  ultimately show ?thesis unfolding strip_by_def by blast
qed

lemma length_strip_by: "length (strip_by P s) \<le> length s"
  unfolding strip_by_def rstrip_by_def lstrip_by_def
  by (metis length_dropWhile_le length_rev order_trans)

lemma find_sub_Some: "find_sub s p = Some i \<Longrightarrow> \<exists>r. s = take i s @ p @ r"
proof (induction s arbitrary: i)
  case Nil
  then show ?case by (auto split: if_splits)
next
  case (Cons c s)
  show ?case
  proof (cases "startswith (c # s) p")
    case True
    with Cons.prems show ?thesis by (auto simp: startswith_prefix prefix_def)
  next
    case False
    with Cons.prems obtain j where "find_sub s p = Some j" "i = Suc j" by auto
    with Cons.IH show ?thesis by fastforce
  qed
qed

lemma contains_append: "contains p (a @ p @ b)"
proof -
  have "find_sub (a @ p @ b) p \<noteq> None"
  proof (induction a)
    case Nil
    have "startswith (p @ b) p" by simp
    then show ?case by (cases "p @ b") auto
  next
    case (Cons c a)
    then show ?case by auto
  qed
  then show ?thesis by (simp add: contains_def)
qed

lemma contains_iff: "contains p s \<longleftrightarrow> (\<exists>a b. s = a @ p @ b)"
proof
  assume "contains p s"
  then obtain i where "find_sub s p = Some i" by (auto simp: contains_def)
  then show "\<exists>a b. s = a @ p @ b" using find_sub_Some by blast
next
  assume "\<exists>a b. s = a @ p @ b"
  then show "contains p s" using contains_append by blast
qed

lemma contains_trans: "contains p q \<Longrightarrow> contains q s \<Longrightarrow> contains p s"
  unfolding contains_iff by (metis append.assoc)

lemma contains_refl [simp]: "contains s s"
  unfolding contains_iff by (metis append_Nil append_Nil2)

lemma contains_right: "contains p s \<Longrightarrow> contains p (a @ s)"
  unfolding contains_iff by (metis append.assoc)

lemma contains_left: "contains p s \<Longrightarrow> contains p (s @ b)"
  unfolding contains_iff by (metis append.assoc)

lemma contains_join: "x \<in> set xs \<Longrightarrow> contains x (join sep xs)"
  by (induction sep xs rule: join.induct) (auto intro: contains_left contains_right)

lemma strip_by_fixed:
  assumes "s \<noteq> []" and "\<not> P (hd s)" and "\<not> P (last s)"
  shows "strip_by P s = s"
proof -
  have "lstrip_by P s = s" using assms by (simp add: lstrip_by_head)
  moreover have "rstrip_by P s = s"
    using assms by (cases s rule: rev_cases) (simp_all add: rstrip_by_snoc)
  ultimately show ?thesis by (simp add: strip_by_def)
qed

lemma strip_by_ends:
  assumes "strip_by P s = s" and "s \<noteq> []"
  shows "\<not> P (hd s)" and "\<not> P (last s)"
proof -
  have l: "lstrip_by P s = s" and r: "rstrip_by P s = s"
    using assms(1) by (metis lstrip_rstrip_stable strip_by_def, metis rstrip_by_idem strip_by_def)
  show "\<not> P (hd s)"
    using l assms(2) hd_dropWhile [of P s] by (simp add: lstrip_by_def)
  show "\<not> P (last s)"
    using r assms(2) rstrip_by_snoc [of P "butlast s" "last s"] append_butlast_last_id [of s]
    by (metis append_self_conv length_butlast length_rev less_irrefl list.size(3) diff_less
        length_greater_0_conv length_dropWhile_le not_less rstrip_by_def zero_less_one)
qed

end
