(* ===== verification/Json.thy ===== *)
theory Json imports PyStr begin

text \<open>
  JSON values as \<open>json.loads\<close> returns them. An object is the association list of a
  Python dict in insertion order; numbers are integers. \<open>json.loads\<close> and
  \<open>json.dumps\<close> themselves are the standard library's: where the code parses text it
  received, the model takes the parser as an argument.
\<close>

datatype json =
    JNull
  | JBool bool
  | JInt int
  | JStr ustr
  | JArr "json list"
  | JObj "(ustr \<times> json) list"

type_synonym obj = "(ustr \<times> json) list"

text \<open>Python truthiness of a value, as in \<open>x or default\<close> and \<open>if x\<close>.\<close>

fun truthy :: "json \<Rightarrow> bool" where
  "truthy JNull = False"
| "truthy (JBool b) = b"
| "truthy (JInt i) = (i \<noteq> 0)"
| "truthy (JStr s) = (s \<noteq> [])"
| "truthy (JArr xs) = (xs \<noteq> [])"
| "truthy (JObj ps) = (ps \<noteq> [])"

text \<open>\<open>d.get(k)\<close> (absent is \<open>None\<close>), \<open>d.get(k, v)\<close>, \<open>d[k] = v\<close> and \<open>d.update(p)\<close>.\<close>

definition obj_get :: "obj \<Rightarrow> string \<Rightarrow> json" where
  "obj_get d k = (case map_of d (asc k) of None \<Rightarrow> JNull | Some v \<Rightarrow> v)"

definition obj_get_or :: "obj \<Rightarrow> string \<Rightarrow> json \<Rightarrow> json" where
  "obj_get_or d k v = (case map_of d (asc k) of None \<Rightarrow> v | Some x \<Rightarrow> x)"

fun obj_set :: "obj \<Rightarrow> ustr \<Rightarrow> json \<Rightarrow> obj" where
  "obj_set [] k v = [(k, v)]"
| "obj_set ((k', v') # d) k v = (if k' = k then (k, v) # d else (k', v') # obj_set d k v)"

definition obj_update :: "obj \<Rightarrow> obj \<Rightarrow> obj" where
  "obj_update d p = foldl (\<lambda>d (k, v). obj_set d k v) d p"

text \<open>\<open>x.get\<close> on a value that may not be a dict raises \<open>AttributeError\<close>.\<close>

definition as_obj :: "json \<Rightarrow> exn + obj" where
  "as_obj j = (case j of JObj d \<Rightarrow> Inr d | _ \<Rightarrow> Inl AttributeError)"

lemma map_of_obj_set: "map_of (obj_set d k v) = (map_of d)(k \<mapsto> v)"
  by (induction d k v rule: obj_set.induct) auto

lemma obj_update_Nil [simp]: "obj_update d [] = d"
  by (simp add: obj_update_def)

lemma obj_update_Cons [simp]: "obj_update d ((k, v) # p) = obj_update (obj_set d k v) p"
  by (simp add: obj_update_def)

lemma map_of_obj_update: "map_of (obj_update d p) = map_of d ++ map_of (rev p)"
  by (induction p arbitrary: d)
     (auto simp: map_of_obj_set map_add_def fun_eq_iff split: option.splits)

lemma keys_obj_set: "set (map fst (obj_set d k v)) = insert k (set (map fst d))"
  by (induction d k v rule: obj_set.induct) auto

lemma distinct_obj_set: "distinct (map fst d) \<Longrightarrow> distinct (map fst (obj_set d k v))"
  by (induction d k v rule: obj_set.induct) (auto simp: keys_obj_set simp flip: set_map)

lemma keys_obj_update: "set (map fst d) \<subseteq> set (map fst (obj_update d p))"
proof (induction p arbitrary: d)
  case Nil
  then show ?case by simp
next
  case (Cons kv p)
  obtain k v where kv: "kv = (k, v)" by (cases kv)
  have "set (map fst d) \<subseteq> set (map fst (obj_set d k v))" by (simp only: keys_obj_set) blast
  also have "\<dots> \<subseteq> set (map fst (obj_update (obj_set d k v) p))" by (rule Cons)
  finally show ?case by (simp add: kv)
qed

end
