(* ===== verification/Models.thy ===== *)
theory Models imports Json begin

text \<open>
  core/enums.py and core/models.py: the enumerations with their stored values, the user,
  session, finding and cursor records, and the cursor operations of the Q\&A queue.
\<close>

section \<open>Enumerations (core/enums.py)\<close>

datatype pillar = Background | Materials | Framework | Intent_pillar

datatype severity = BLOCKER | IMPROVEMENT | NICE_TO_HAVE

datatype finding_source = FOUR_PILLAR | RESPONDER_SIM | MANUAL

datatype finding_status = OPEN | ACCEPTED | REJECTED | MODIFIED | UNRESOLVABLE

datatype stage =
    INTAKE | AWAITING_MATERIAL_CONFIRM | SUBJECT_CONFIRMATION | SCANNING | QA_ACTIVE
  | QA_ACTIVE_REOPENED | AWAITING_CLOSE_CONFIRMATION | AWAITING_FINAL_DRAFT | MERGING
  | FINAL_GATING | CLOSING | CLOSED_stage | INGEST_FAILED | CANCELLED_stage | FAILED_stage

datatype session_status = ACTIVE | CLOSED | FAILED | CANCELLED

datatype verdict = READY | READY_WITH_OPEN_ITEMS | FORCED_PARTIAL | FAIL

datatype role = ADMIN | RESPONDER | REQUESTER

datatype intent =
    ACCEPT | REJECT | MODIFY | PASS | MORE | DONE | CUSTOM | QUESTION | FORCE_CLOSE
  | PICK_A | PICK_B | PICK_C

fun pillar_value :: "pillar \<Rightarrow> string" where
  "pillar_value Background = ''Background''"
| "pillar_value Materials = ''Materials''"
| "pillar_value Framework = ''Framework''"
| "pillar_value Intent_pillar = ''Intent''"

fun severity_value :: "severity \<Rightarrow> string" where
  "severity_value BLOCKER = ''BLOCKER''"
| "severity_value IMPROVEMENT = ''IMPROVEMENT''"
| "severity_value NICE_TO_HAVE = ''NICE-TO-HAVE''"

fun source_value :: "finding_source \<Rightarrow> string" where
  "source_value FOUR_PILLAR = ''four_pillar_scan''"
| "source_value RESPONDER_SIM = ''responder_simulation''"
| "source_value MANUAL = ''manual''"

fun fstatus_value :: "finding_status \<Rightarrow> string" where
  "fstatus_value OPEN = ''open''"
| "fstatus_value ACCEPTED = ''accepted''"
| "fstatus_value REJECTED = ''rejected''"
| "fstatus_value MODIFIED = ''modified''"
| "fstatus_value UNRESOLVABLE = ''unresolvable''"

fun stage_value :: "stage \<Rightarrow> string" where
  "stage_value INTAKE = ''intake''"
| "stage_value AWAITING_MATERIAL_CONFIRM = ''awaiting_material_confirm''"
| "stage_value SUBJECT_CONFIRMATION = ''subject_confirmation''"
| "stage_value SCANNING = ''scanning''"
| "stage_value QA_ACTIVE = ''qa_active''"
| "stage_value QA_ACTIVE_REOPENED = ''qa_active_reopened''"
| "stage_value AWAITING_CLOSE_CONFIRMATION = ''awaiting_close_confirmation''"
| "stage_value AWAITING_FINAL_DRAFT = ''awaiting_final_draft''"
| "stage_value MERGING = ''merging''"
| "stage_value FINAL_GATING = ''final_gating''"
| "stage_value CLOSING = ''closing''"
| "stage_value CLOSED_stage = ''closed''"
| "stage_value INGEST_FAILED = ''ingest_failed''"
| "stage_value CANCELLED_stage = ''cancelled''"
| "stage_value FAILED_stage = ''failed''"

fun status_value :: "session_status \<Rightarrow> string" where
  "status_value ACTIVE = ''active''"
| "status_value CLOSED = ''closed''"
| "status_value FAILED = ''failed''"
| "status_value CANCELLED = ''cancelled''"

fun verdict_value :: "verdict \<Rightarrow> string" where
  "verdict_value READY = ''READY''"
| "verdict_value READY_WITH_OPEN_ITEMS = ''READY_WITH_OPEN_ITEMS''"
| "verdict_value FORCED_PARTIAL = ''FORCED_PARTIAL''"
| "verdict_value FAIL = ''FAIL''"

fun role_value :: "role \<Rightarrow> string" where
  "role_value ADMIN = ''Admin''"
| "role_value RESPONDER = ''Responder''"
| "role_value REQUESTER = ''Requester''"

fun intent_value :: "intent \<Rightarrow> string" where
  "intent_value ACCEPT = ''accept''"
| "intent_value REJECT = ''reject''"
| "intent_value MODIFY = ''modify''"
| "intent_value PASS = ''pass''"
| "intent_value MORE = ''more''"
| "intent_value DONE = ''done''"
| "intent_value CUSTOM = ''custom''"
| "intent_value QUESTION = ''question''"
| "intent_value FORCE_CLOSE = ''force_close''"
| "intent_value PICK_A = ''pick_a''"
| "intent_value PICK_B = ''pick_b''"
| "intent_value PICK_C = ''pick_c''"

text \<open>\<open>Pillar(v)\<close> and \<open>Severity(v)\<close>: the member with that value, or \<open>ValueError\<close>.\<close>

definition pillar_of :: "ustr \<Rightarrow> pillar option" where
  "pillar_of v =
     find (\<lambda>p. asc (pillar_value p) = v) [Background, Materials, Framework, Intent_pillar]"

definition severity_of :: "ustr \<Rightarrow> severity option" where
  "severity_of v = find (\<lambda>s. asc (severity_value s) = v) [BLOCKER, IMPROVEMENT, NICE_TO_HAVE]"

lemma pillar_of_value: "pillar_of (asc (pillar_value p)) = Some p"
  by (cases p) (simp_all add: pillar_of_def)

lemma severity_of_value: "severity_of (asc (severity_value s)) = Some s"
  by (cases s) (simp_all add: severity_of_def)

section \<open>Users and sessions (core/models.py)\<close>

record user =
  open_id :: ustr
  display_name :: ustr
  roles :: "role list"
  pairing_responder_oid :: "ustr option"
  u_created_at :: ustr
  u_updated_at :: ustr

definition has_role :: "user \<Rightarrow> role \<Rightarrow> bool" where
  "has_role u r \<longleftrightarrow> r \<in> set (roles u)"

text \<open>The last three fields are filled from the session folder when a row is read.\<close>

record session =
  s_id :: ustr
  requester_oid :: ustr
  responder_oid :: ustr
  fs_path :: ustr
  started_at :: ustr
  s_stage :: stage
  s_status :: session_status
  round_no :: int
  subject :: "ustr option"
  closed_at :: "ustr option"
  s_verdict :: "verdict option"
  trigger_source :: ustr
  failed_stage :: "stage option"
  last_error :: "ustr option"
  fail_count :: int
  meta :: obj
  admin_style :: ustr
  review_rules :: ustr
  responder_profile :: ustr

section \<open>Findings (core/models.py)\<close>

record anchor =
  a_section :: json
  a_line_range :: "json list option"
  a_text_hash :: "ustr option"
  a_snippet :: json

record finding =
  f_id :: ustr
  f_round :: int
  f_created_at :: ustr
  f_source :: finding_source
  f_pillar :: pillar
  f_severity :: severity
  f_issue :: json
  f_suggest :: json
  f_anchor :: anchor
  f_status :: finding_status
  f_simulated_question :: json
  f_priority :: "int option"

text \<open>\<open>Anchor.to_dict\<close>; the source is always \<open>normalized.md\<close> where the code builds one.\<close>

definition anchor_to_dict :: "anchor \<Rightarrow> obj" where
  "anchor_to_dict a =
     [(asc ''source'', JStr (asc ''normalized.md'')), (asc ''snippet'', a_snippet a)]
     @ (if a_section a \<noteq> JNull then [(asc ''section'', a_section a)] else [])
     @ (case a_line_range a of None \<Rightarrow> [] | Some r \<Rightarrow> [(asc ''line_range'', JArr r)])
     @ (case a_text_hash a of None \<Rightarrow> [] | Some h \<Rightarrow> [(asc ''text_hash'', JStr h)])"

definition dropped_value :: "json \<Rightarrow> bool" where
  "dropped_value v \<longleftrightarrow> v = JNull \<or> v = JStr [] \<or> v = JObj []"

text \<open>
  \<open>Finding.to_jsonl\<close>: the fields in order, empty values left out. A finding that is built
  by the scan has no reply, no reason and no extra fields; those are dropped as \<open>None\<close> or
  \<open>{}\<close>.
\<close>

definition to_jsonl :: "finding \<Rightarrow> obj" where
  "to_jsonl f = filter (\<lambda>(k, v). \<not> dropped_value v)
     [(asc ''id'', JStr (f_id f)),
      (asc ''round'', JInt (f_round f)),
      (asc ''created_at'', JStr (f_created_at f)),
      (asc ''source'', JStr (asc (source_value (f_source f)))),
      (asc ''pillar'', JStr (asc (pillar_value (f_pillar f)))),
      (asc ''severity'', JStr (asc (severity_value (f_severity f)))),
      (asc ''issue'', f_issue f),
      (asc ''suggest'', f_suggest f),
      (asc ''anchor'', JObj (anchor_to_dict (f_anchor f))),
      (asc ''status'', JStr (asc (fstatus_value (f_status f)))),
      (asc ''simulated_question'', f_simulated_question f),
      (asc ''priority'', case f_priority f of None \<Rightarrow> JNull | Some p \<Rightarrow> JInt p),
      (asc ''escalated_to_open_items'', JBool False)]"

section \<open>The cursor (core/models.py)\<close>

record cursor =
  current_id :: "ustr option"
  pending :: "ustr list"
  deferred :: "ustr list"
  done_ids :: "ustr list"
  regression_rescan :: bool

definition empty_cursor :: cursor where
  "empty_cursor = \<lparr>current_id = None, pending = [], deferred = [], done_ids = [],
     regression_rescan = False\<rparr>"

definition cursor_to_dict :: "cursor \<Rightarrow> obj" where
  "cursor_to_dict c =
     [(asc ''current_id'', case current_id c of None \<Rightarrow> JNull | Some i \<Rightarrow> JStr i),
      (asc ''pending'', JArr (map JStr (pending c))),
      (asc ''deferred'', JArr (map JStr (deferred c))),
      (asc ''done'', JArr (map JStr (done_ids c))),
      (asc ''regression_rescan'', JBool (regression_rescan c))]"

text \<open>
  \<open>Cursor.from_dict\<close>. Identifiers are strings; a value of another type in the file, which
  \<open>save_cursor\<close> never writes, is a \<open>TypeError\<close> here.
\<close>

fun as_str :: "json \<Rightarrow> exn + ustr" where
  "as_str (JStr s) = Inr s"
| "as_str _ = Inl TypeError"

fun as_strs :: "json list \<Rightarrow> exn + ustr list" where
  "as_strs [] = Inr []"
| "as_strs (j # js) =
     (case as_str j of Inl e \<Rightarrow> Inl e
      | Inr s \<Rightarrow> (case as_strs js of Inl e \<Rightarrow> Inl e | Inr ss \<Rightarrow> Inr (s # ss)))"

fun id_list :: "json \<Rightarrow> exn + ustr list" where
  "id_list (JArr js) = as_strs js"
| "id_list _ = Inl TypeError"

definition cursor_from_dict :: "obj \<Rightarrow> exn + cursor" where
  "cursor_from_dict d =
     (case (case obj_get d ''current_id'' of JNull \<Rightarrow> Inr None
            | j \<Rightarrow> (case as_str j of Inl e \<Rightarrow> Inl e | Inr s \<Rightarrow> Inr (Some s))) of
        Inl e \<Rightarrow> Inl e
      | Inr cur \<Rightarrow>
     (case id_list (obj_get_or d ''pending'' (JArr [])) of Inl e \<Rightarrow> Inl e | Inr p \<Rightarrow>
     (case id_list (obj_get_or d ''deferred'' (JArr [])) of Inl e \<Rightarrow> Inl e | Inr df \<Rightarrow>
     (case id_list (obj_get_or d ''done'' (JArr [])) of Inl e \<Rightarrow> Inl e | Inr dn \<Rightarrow>
        Inr \<lparr>current_id = cur, pending = p, deferred = df, done_ids = dn,
          regression_rescan = truthy (obj_get_or d ''regression_rescan'' (JBool False))\<rparr>))))"

text \<open>Python slices \<open>xs[:n]\<close> and \<open>xs[n:]\<close>, negative \<open>n\<close> counting from the end.\<close>

definition slice_to :: "'a list \<Rightarrow> int \<Rightarrow> 'a list" where
  "slice_to xs n = (if 0 \<le> n then take (nat n) xs else take (nat (int (length xs) + n)) xs)"

definition slice_from :: "'a list \<Rightarrow> int \<Rightarrow> 'a list" where
  "slice_from xs n = (if 0 \<le> n then drop (nat n) xs else drop (nat (int (length xs) + n)) xs)"

text \<open>\<open>Cursor.advance\<close>: mark the current finding done and pop the next pending one.\<close>

definition advance :: "cursor \<Rightarrow> cursor" where
  "advance c =
     c\<lparr>done_ids :=
         (case current_id c of
            None \<Rightarrow> done_ids c
          | Some i \<Rightarrow> if i \<noteq> [] \<and> i \<notin> set (done_ids c) then done_ids c @ [i] else done_ids c),
       current_id := (case pending c of [] \<Rightarrow> None | p # _ \<Rightarrow> Some p),
       pending := (case pending c of [] \<Rightarrow> [] | _ # ps \<Rightarrow> ps)\<rparr>"

text \<open>\<open>Cursor.pull_deferred\<close> returns how many findings it moved.\<close>

definition pull_deferred :: "int \<Rightarrow> cursor \<Rightarrow> nat \<times> cursor" where
  "pull_deferred n c =
     (let moved = slice_to (deferred c) n in
      (length moved, c\<lparr>deferred := slice_from (deferred c) n, pending := pending c @ moved\<rparr>))"

definition is_empty_cursor :: "cursor \<Rightarrow> bool" where
  "is_empty_cursor c \<longleftrightarrow> current_id c = None \<and> pending c = []"

section \<open>Laws of the cursor\<close>

lemma slice_append [simp]: "slice_to xs n @ slice_from xs n = xs"
  by (simp add: slice_to_def slice_from_def)

lemma slice_to_Nil [simp]: "slice_to [] n = []"
  by (simp add: slice_to_def)

lemma slice_to_empty_iff: "0 < n \<Longrightarrow> slice_to xs n = [] \<longleftrightarrow> xs = []"
  by (auto simp: slice_to_def)

lemma slice_from_all: "slice_to xs n = [] \<Longrightarrow> slice_from xs n = xs"
  using slice_append [of xs n] by simp

text \<open>The findings a cursor still has to show, in the order it shows them.\<close>

definition queue_of :: "cursor \<Rightarrow> ustr list" where
  "queue_of c = (case current_id c of None \<Rightarrow> [] | Some i \<Rightarrow> [i]) @ pending c"

definition all_ids :: "cursor \<Rightarrow> ustr list" where
  "all_ids c = done_ids c @ queue_of c @ deferred c"

definition cursor_wf :: "cursor \<Rightarrow> bool" where
  "cursor_wf c \<longleftrightarrow>
     distinct (all_ids c) \<and> [] \<notin> set (all_ids c) \<and> (current_id c = None \<longrightarrow> pending c = [])"

lemma as_strs_map_JStr [simp]: "as_strs (map JStr xs) = Inr xs"
  by (induction xs) auto

lemma queue_of_empty: "queue_of c = [] \<longleftrightarrow> is_empty_cursor c"
  by (auto simp: queue_of_def is_empty_cursor_def split: option.splits)

lemma queue_of_advance: "cursor_wf c \<Longrightarrow> queue_of (advance c) = tl (queue_of c)"
  by (auto simp: queue_of_def advance_def cursor_wf_def split: option.splits list.splits)

lemma deferred_advance [simp]: "deferred (advance c) = deferred c"
  by (simp add: advance_def)

lemma regression_rescan_advance [simp]: "regression_rescan (advance c) = regression_rescan c"
  by (simp add: advance_def)

lemma all_ids_advance: "cursor_wf c \<Longrightarrow> all_ids (advance c) = all_ids c"
  by (auto simp: all_ids_def queue_of_def advance_def cursor_wf_def
      split: option.splits list.splits)

lemma cursor_wf_advance: "cursor_wf c \<Longrightarrow> cursor_wf (advance c)"
  using all_ids_advance [of c]
  by (auto simp: cursor_wf_def advance_def split: option.splits list.splits)

lemma cursor_wf_empty: "cursor_wf empty_cursor"
  by (simp add: cursor_wf_def empty_cursor_def all_ids_def queue_of_def)

end
