(* ===== verification/World.thy ===== *)
theory World imports Models "HOL-Library.List_Lexorder" "HOL-Library.Multiset" begin

text \<open>
  The state every component reads and writes, and what the program gets from outside.
  \<open>world\<close> holds the SQLite tables (storage.py, schema.sql), one \<open>folder\<close> per session
  directory, and the messages handed to Lark. \<open>env\<close> holds the configuration, the global
  config files and the answers of code that is not in the repository: the LLM, the Lark
  Open API, downloads, OCR and transcription tools, \<open>json.loads\<close>, \<open>sha256\<close>, the clock.
  An answer may depend on how much of the world's history has passed (\<open>tick\<close>, increased
  by every outside call), so an \<open>env\<close> covers every sequence of answers.
\<close>

section \<open>Messages\<close>

text \<open>lark/types.py\<close>

record incoming_message =
  m_event_id :: ustr
  m_sender_open_id :: ustr
  m_chat_type :: ustr
  m_msg_type :: ustr
  m_content_raw :: ustr
  m_content_text :: ustr
  m_chat_id :: ustr
  m_create_time :: ustr
  m_message_id :: ustr
  m_file_key :: ustr

text \<open>
  The direct messages the dispatcher sends: one constructor per message template, its
  arguments the interpolated values.
\<close>

datatype dm =
    DmAutoRegisterDisabled
  | DmSetupUnfinished
  | DmWelcome ustr ustr
  | DmAdminNotify ustr ustr
  | DmControlsInCli ustr
  | DmNotPaired
  | DmRejected ustr
  | DmMaterialPreview ustr nat
  | DmCancelled
  | DmStartingReview
  | DmMaterialNotUnderstood
  | DmFileUnsupported ustr
  | DmCatchAll ustr
  | DmReadLarkDocs nat
  | DmReadWebPages nat
  | DmReadText
  | DmPickAgain
  | DmNoMoreDeferred
  | DmConfirmClose
  | DmExhausted nat
  | DmBlockersClosed nat
  | DmBlockersClosedDefault
  | DmForceClosing
  | DmInterrupted stage
  | DmBusy stage
  | DmNotNow stage
  | DmRescanning
  | DmClosing
  | DmDeferredEmpty
  | DmPulled nat
  | DmCloseMenu
  | DmTopics json
  | DmTopicsDefault
  | DmBody ustr
  | DmFindingPost obj ustr int nat nat
  | DmFindingText obj ustr int nat nat
  | DmForcedPartial
  | DmReopened nat
  | DmSessionFailed
  | DmLlmFailed string
  | DmSummary ustr

record sent_dm =
  sd_to :: ustr
  sd_body :: dm
  sd_ok :: bool

section \<open>LLM calls (llm/base.py)\<close>

text \<open>The values each prompt template is rendered with, besides the persona's.\<close>

datatype llm_purpose =
    ReqConfirmTopic ustr
  | ReqScanFourPillar ustr int ustr
  | ReqScanResponderSim ustr ustr
  | ReqEmitFinding obj int int nat nat
  | ReqMergeDraft ustr "obj list"
  | ReqFinalGate ustr
  | ReqBuildSummary ustr int ustr ustr ustr "obj list" "(obj \<times> ustr) list" "obj list"

record llm_request =
  rq_model :: ustr
  rq_max_tokens :: int
  rq_responder_name :: ustr
  rq_admin_style :: ustr
  rq_review_rules :: ustr
  rq_responder_profile :: ustr
  rq_purpose :: llm_purpose

record llm_response =
  rs_content :: ustr
  rs_reasoning :: ustr
  rs_model :: ustr
  rs_finish_reason :: ustr
  rs_prompt_tokens :: int
  rs_completion_tokens :: int
  rs_reasoning_tokens :: int
  rs_cache_hit_tokens :: int
  rs_latency_ms :: int

section \<open>Tables (core/schema.sql)\<close>

datatype task_status = Pending | Running | Done | Failed

datatype payload = MessagePayload incoming_message | SessionPayload ustr bool

record task =
  t_id :: nat
  t_kind :: ustr
  t_payload :: payload
  t_requester_oid :: "ustr option"
  t_status :: task_status
  t_attempts :: nat
  t_last_error :: "ustr option"
  t_scheduled_at :: ustr
  t_picked_at :: "ustr option"
  t_finished_at :: "ustr option"

record event =
  ev_event_id :: ustr
  ev_sender_oid :: ustr
  ev_event_type :: ustr
  ev_msg_type :: ustr
  ev_size_bytes :: nat
  ev_content_hash :: ustr
  ev_summary :: ustr
  ev_handled :: bool
  ev_created_at :: ustr

record llm_call =
  lc_session_id :: ustr
  lc_stage :: string
  lc_response :: llm_response

record outbound =
  ob_session_id :: ustr
  ob_to_open_id :: ustr
  ob_msg_type :: ustr
  ob_content_hash :: ustr
  ob_lark_msg_id :: "ustr option"
  ob_ok :: bool
  ob_error :: "ustr option"

section \<open>The session directory\<close>

record gate_outcome =
  go_verdict :: verdict
  go_csw_gate_status :: json
  go_pillar_verdict :: json
  go_pillar_counts :: "(json \<times> (nat \<times> nat \<times> nat \<times> nat)) list"
  go_by_source :: "(json \<times> nat) list"
  go_regressions :: json

record log_line =
  ll_ts :: ustr
  ll_role :: string
  ll_text :: ustr
  ll_intent :: intent

text \<open>
  \<open>annotations.jsonl\<close> is the list of its rows (a missing file reads as no rows),
  \<open>cursor.json\<close> the cursor written to it, \<open>dissent.md\<close> the blocks appended to it. The
  other files are absent or hold a text. \<open>input/\<close> maps file names to bytes.
\<close>

record folder =
  frozen_admin_style :: ustr
  frozen_review_rules :: ustr
  frozen_profile :: ustr
  annotations :: "obj list"
  conversation :: "log_line list"
  dissent :: "(obj \<times> ustr) list"
  cursor_file :: "cursor option"
  normalized_md :: "ustr option"
  revised_md :: "ustr option"
  verdict_json :: "gate_outcome option"
  summary_md :: "ustr option"
  summary_audit_md :: "ustr list option"
  inputs :: "(ustr \<times> int list) list"

record world =
  users :: "user list"
  sessions :: "session list"
  events :: "event list"
  tasks :: "task list"
  llm_calls :: "llm_call list"
  outbounds :: "outbound list"
  folders :: "ustr \<times> ustr \<Rightarrow> folder option"
  sent :: "sent_dm list"
  tick :: nat

definition empty_world :: world where
  "empty_world = \<lparr>users = [], sessions = [], events = [], tasks = [], llm_calls = [],
     outbounds = [], folders = (\<lambda>_. None), sent = [], tick = 0\<rparr>"

section \<open>The environment\<close>

record env =
  clock :: "nat \<Rightarrow> ustr"
  fresh_id :: "nat \<Rightarrow> ustr"
  user_scan :: "user list \<Rightarrow> user list"
  session_scan :: "session list \<Rightarrow> session list"
  task_scan :: "task list \<Rightarrow> task list"
  json_loads :: "ustr \<Rightarrow> json option"
  sha16 :: "ustr \<Rightarrow> ustr"
  py_repr :: "json \<Rightarrow> ustr"
  llm_chat :: "nat \<Rightarrow> llm_request \<Rightarrow> exn + llm_response"
  send_dm :: "nat \<Rightarrow> ustr \<Rightarrow> dm \<Rightarrow> exn + ustr"
  send_post :: "nat \<Rightarrow> ustr \<Rightarrow> dm \<Rightarrow> exn + ustr"
  lark_get_user :: "nat \<Rightarrow> ustr \<Rightarrow> exn + obj"
  lark_create_doc :: "nat \<Rightarrow> ustr \<Rightarrow> ustr \<Rightarrow> exn + obj"
  slack_send_dm :: "nat \<Rightarrow> ustr \<Rightarrow> ustr \<Rightarrow> exn + ustr"
  archive_copy :: "nat \<Rightarrow> ustr \<Rightarrow> ustr \<Rightarrow> ustr list \<Rightarrow> exn + unit"
  download_attachment :: "nat \<Rightarrow> ustr \<Rightarrow> ustr \<Rightarrow> string \<Rightarrow> exn + int list"
  fetch_lark_doc :: "nat \<Rightarrow> ustr \<Rightarrow> ustr \<Rightarrow> exn + ustr"
  fetch_bitable :: "nat \<Rightarrow> ustr \<Rightarrow> ustr \<Rightarrow> exn + ustr"
  fetch_sheet :: "nat \<Rightarrow> ustr \<Rightarrow> exn + ustr"
  fetch_transcript :: "nat \<Rightarrow> ustr \<Rightarrow> exn + ustr"
  scrape_page :: "nat \<Rightarrow> ustr \<Rightarrow> exn + ustr"
  guess_mime :: "ustr \<Rightarrow> ustr"
  backend_ingest :: "nat \<Rightarrow> string \<Rightarrow> ustr \<Rightarrow> int list \<Rightarrow> exn + ustr"
  exn_text :: "exn \<Rightarrow> ustr"
  fs_file :: "nat \<Rightarrow> ustr \<Rightarrow> ustr option"
  fs_root :: ustr
  cfg_default_model :: ustr
  cfg_fast_model :: ustr
  cfg_max_rounds :: int
  cfg_top_n_findings :: int
  cfg_final_gate_max_fail_count :: int
  cfg_auto_register :: bool
  cfg_slack_enabled :: bool

text \<open>SQL promises no row order without \<open>ORDER BY\<close>: a scan returns the rows in some order.\<close>

definition scans_ok :: "env \<Rightarrow> bool" where
  "scans_ok e \<longleftrightarrow>
     (\<forall>xs. mset (user_scan e xs) = mset xs) \<and> (\<forall>xs. mset (session_scan e xs) = mset xs)
     \<and> (\<forall>xs. mset (task_scan e xs) = mset xs)"

text \<open>An outside call reads an answer at the current tick and moves the tick.\<close>

type_synonym 'a act = "(world, 'a) prog"

definition ask :: "(nat \<Rightarrow> 'a) \<Rightarrow> 'a act" where
  "ask f = (\<lambda>w. (Inr (f (tick w)), w\<lparr>tick := Suc (tick w)\<rparr>))"

definition call :: "(nat \<Rightarrow> exn + 'a) \<Rightarrow> 'a act" where
  "call f = (\<lambda>w. (f (tick w), w\<lparr>tick := Suc (tick w)\<rparr>))"

definition now_iso :: "env \<Rightarrow> ustr act" where
  "now_iso e = ask (clock e)"

declare ask_def [prog_simps] call_def [prog_simps] now_iso_def [prog_simps]

text \<open>util/md.py: \<open>text_hash\<close> is the prefix \<open>sha256:\<close> and 16 hex digits of the digest.\<close>

definition text_hash :: "env \<Rightarrow> ustr \<Rightarrow> ustr" where
  "text_hash e s = asc ''sha256:'' @ sha16 e s"

text \<open>An f-string formats a string as itself and another value by its \<open>str\<close>.\<close>

definition fmt :: "env \<Rightarrow> json \<Rightarrow> ustr" where
  "fmt e j = (case j of JStr s \<Rightarrow> s | _ \<Rightarrow> py_repr e j)"

text \<open>Joining a value that is not a string raises \<open>TypeError\<close>.\<close>

definition need_str :: "json \<Rightarrow> exn + ustr" where
  "need_str j = (case j of JStr s \<Rightarrow> Inr s | _ \<Rightarrow> Inl TypeError)"

text \<open>Iterating a value: the items of a list, the characters of a string, the keys of a dict.\<close>

definition iter_json :: "json \<Rightarrow> exn + json list" where
  "iter_json j =
     (case j of
        JArr js \<Rightarrow> Inr js
      | JStr s \<Rightarrow> Inr (map (\<lambda>c. JStr [c]) s)
      | JObj d \<Rightarrow> Inr (map (\<lambda>kv. JStr (fst kv)) d)
      | _ \<Rightarrow> Inl TypeError)"

text \<open>A comprehension whose body may raise: the first exception ends it.\<close>

fun trav :: "('a \<Rightarrow> exn + 'b) \<Rightarrow> 'a list \<Rightarrow> exn + 'b list" where
  "trav f [] = Inr []"
| "trav f (x # xs) =
     (case f x of Inl e \<Rightarrow> Inl e
      | Inr y \<Rightarrow> (case trav f xs of Inl e \<Rightarrow> Inl e | Inr ys \<Rightarrow> Inr (y # ys)))"

lemma trav_cong [fundef_cong]:
  assumes "xs = ys" and "\<And>x. x \<in> set ys \<Longrightarrow> f x = g x"
  shows "trav f xs = trav g ys"
proof -
  have "trav f ys = trav g ys" using assms(2) by (induction ys) (auto split: sum.splits)
  then show ?thesis using assms(1) by simp
qed

lemma trav_Inr_iff: "trav f xs = Inr ys \<longleftrightarrow> list_all2 (\<lambda>x y. f x = Inr y) xs ys"
proof (induction xs arbitrary: ys)
  case (Cons x xs)
  show ?case by (cases ys) (auto simp flip: Cons.IH split: sum.splits)
qed auto

lemma trav_pure [simp]: "trav (\<lambda>x. Inr (f x)) xs = Inr (map f xs)"
  by (induction xs) auto

lemma trav_map: "trav f (map g xs) = trav (\<lambda>x. f (g x)) xs"
  by (induction xs) (auto split: sum.splits)

end
