(* ===== verification/Storage.thy ===== *)
theory Storage imports World begin

text \<open>
  core/storage.py: the SQLite store and the session directories. Each method is an action
  on the world; a violated PRIMARY KEY or foreign key raises \<open>IntegrityError\<close>. The writes
  go through a few state updates (\<open>w_...\<close>), which are what relations between worlds are
  proved about.
\<close>

section \<open>State updates\<close>

datatype field =
    Set_subject "ustr option" | Set_stage stage | Set_status session_status | Set_round_no int
  | Set_closed_at "ustr option" | Set_verdict "verdict option" | Set_fail_count int
  | Set_meta obj

fun set_field :: "field \<Rightarrow> session \<Rightarrow> session" where
  "set_field (Set_subject x) s = s\<lparr>subject := x\<rparr>"
| "set_field (Set_stage x) s = s\<lparr>s_stage := x\<rparr>"
| "set_field (Set_status x) s = s\<lparr>s_status := x\<rparr>"
| "set_field (Set_round_no x) s = s\<lparr>round_no := x\<rparr>"
| "set_field (Set_closed_at x) s = s\<lparr>closed_at := x\<rparr>"
| "set_field (Set_verdict x) s = s\<lparr>s_verdict := x\<rparr>"
| "set_field (Set_fail_count x) s = s\<lparr>fail_count := x\<rparr>"
| "set_field (Set_meta x) s = s\<lparr>meta := x\<rparr>"

definition set_fields :: "field list \<Rightarrow> session \<Rightarrow> session" where
  "set_fields fs s = fold set_field fs s"

definition empty_folder :: folder where
  "empty_folder = \<lparr>frozen_admin_style = [], frozen_review_rules = [], frozen_profile = [],
     annotations = [], conversation = [], dissent = [], cursor_file = None,
     normalized_md = None, revised_md = None, verdict_json = None, summary_md = None,
     summary_audit_md = None, inputs = []\<rparr>"

definition key_of :: "session \<Rightarrow> ustr \<times> ustr" where
  "key_of s = (requester_oid s, s_id s)"

definition folder_at :: "world \<Rightarrow> ustr \<times> ustr \<Rightarrow> folder" where
  "folder_at w k = (case folders w k of None \<Rightarrow> empty_folder | Some f \<Rightarrow> f)"

definition w_update_session :: "ustr \<Rightarrow> field list \<Rightarrow> world \<Rightarrow> world" where
  "w_update_session sid fs w =
     w\<lparr>sessions := map (\<lambda>s. if s_id s = sid then set_fields fs s else s) (sessions w)\<rparr>"

definition w_insert_session :: "session \<Rightarrow> world \<Rightarrow> world" where
  "w_insert_session s w = w\<lparr>sessions := sessions w @ [s]\<rparr>"

definition w_folder :: "ustr \<times> ustr \<Rightarrow> (folder \<Rightarrow> folder) \<Rightarrow> world \<Rightarrow> world" where
  "w_folder k g w = w\<lparr>folders := (folders w)(k \<mapsto> g (folder_at w k))\<rparr>"

definition w_users :: "user list \<Rightarrow> world \<Rightarrow> world" where
  "w_users us w = w\<lparr>users := us\<rparr>"

definition w_llm_call :: "llm_call \<Rightarrow> world \<Rightarrow> world" where
  "w_llm_call c w = w\<lparr>llm_calls := llm_calls w @ [c]\<rparr>"

definition w_outbound :: "outbound \<Rightarrow> world \<Rightarrow> world" where
  "w_outbound ob w = w\<lparr>outbounds := outbounds w @ [ob]\<rparr>"

definition w_events :: "event list \<Rightarrow> world \<Rightarrow> world" where
  "w_events es w = w\<lparr>events := es\<rparr>"

definition w_tasks :: "task list \<Rightarrow> world \<Rightarrow> world" where
  "w_tasks ts w = w\<lparr>tasks := ts\<rparr>"

section \<open>Users\<close>

definition user_ids :: "world \<Rightarrow> ustr list" where
  "user_ids w = map open_id (users w)"

definition session_ids :: "world \<Rightarrow> ustr list" where
  "session_ids w = map s_id (sessions w)"

definition upsert_rows :: "user \<Rightarrow> user list \<Rightarrow> user list" where
  "upsert_rows u us =
     (if open_id u \<in> set (map open_id us)
      then map (\<lambda>v. if open_id v = open_id u then u\<lparr>u_created_at := u_created_at v\<rparr> else v) us
      else us @ [u])"

definition upsert_user :: "env \<Rightarrow> user \<Rightarrow> unit act" where
  "upsert_user e u =
     bnd (now_iso e) (\<lambda>ts.
     let u' = u\<lparr>u_created_at := (if u_created_at u = [] then ts else u_created_at u),
                u_updated_at := ts\<rparr> in
     bnd (gets (\<lambda>w. upsert_rows u' (users w))) (\<lambda>us.
     case pairing_responder_oid u' of
       None \<Rightarrow> modify (w_users us)
     | Some p \<Rightarrow> if p \<in> set (map open_id us) then modify (w_users us)
                 else raise_exn IntegrityError))"

definition find_user :: "world \<Rightarrow> ustr \<Rightarrow> user option" where
  "find_user w oid = find (\<lambda>u. open_id u = oid) (users w)"

definition get_user :: "ustr \<Rightarrow> user option act" where
  "get_user oid = gets (\<lambda>w. find_user w oid)"

definition list_users :: "env \<Rightarrow> role option \<Rightarrow> user list act" where
  "list_users e r = gets (\<lambda>w.
     (case r of None \<Rightarrow> user_scan e (users w)
      | Some x \<Rightarrow> filter (\<lambda>u. has_role u x) (user_scan e (users w))))"

definition delete_user :: "ustr \<Rightarrow> bool act" where
  "delete_user oid =
     bnd (gets (\<lambda>w. oid \<in> set (user_ids w))) (\<lambda>found.
     andthen (modify (\<lambda>w. w_users (filter (\<lambda>u. open_id u \<noteq> oid) (users w)) w))
     (ret found))"

section \<open>Sessions\<close>

definition session_path :: "env \<Rightarrow> ustr \<Rightarrow> ustr \<Rightarrow> ustr" where
  "session_path e oid sid = fs_root e @ asc ''/users/'' @ oid @ asc ''/sessions/'' @ sid"

definition new_session :: "env \<Rightarrow> ustr \<Rightarrow> ustr \<Rightarrow> ustr \<Rightarrow> ustr \<Rightarrow> session" where
  "new_session e sid req resp ts = \<lparr>s_id = sid, requester_oid = req, responder_oid = resp,
     fs_path = session_path e req sid, started_at = ts, s_stage = INTAKE, s_status = ACTIVE,
     round_no = 1, subject = None, closed_at = None, s_verdict = None,
     trigger_source = asc ''dm'', failed_stage = None, last_error = None, fail_count = 0,
     meta = [], admin_style = [], review_rules = [], responder_profile = []\<rparr>"

definition create_session ::
  "env \<Rightarrow> ustr \<Rightarrow> ustr \<Rightarrow> ustr \<Rightarrow> ustr \<Rightarrow> ustr \<Rightarrow> session act" where
  "create_session e req resp style rules profile =
     bnd (ask (fresh_id e)) (\<lambda>sid.
     andthen (modify (w_folder (req, sid) (\<lambda>f.
       f\<lparr>frozen_admin_style := style, frozen_review_rules := rules, frozen_profile := profile,
         annotations := [], conversation := [], dissent := [],
         cursor_file := Some empty_cursor\<rparr>)))
     (bnd (now_iso e) (\<lambda>ts.
     let s = new_session e sid req resp ts in
     bnd (gets (\<lambda>w. sid \<notin> set (session_ids w) \<and> req \<in> set (user_ids w)
                    \<and> resp \<in> set (user_ids w))) (\<lambda>ok.
     if ok then andthen (modify (w_insert_session s)) (ret s)
     else raise_exn IntegrityError))))"

definition row_to_session :: "world \<Rightarrow> session \<Rightarrow> session" where
  "row_to_session w s =
     (let f = folder_at w (key_of s) in
      s\<lparr>admin_style := frozen_admin_style f, review_rules := frozen_review_rules f,
        responder_profile := frozen_profile f\<rparr>)"

definition find_session :: "world \<Rightarrow> ustr \<Rightarrow> session option" where
  "find_session w sid =
     map_option (row_to_session w) (find (\<lambda>s. s_id s = sid) (sessions w))"

definition get_session :: "ustr \<Rightarrow> session option act" where
  "get_session sid = gets (\<lambda>w. find_session w sid)"

text \<open>\<open>ORDER BY key DESC\<close> of the rows in scan order: ties keep that order.\<close>

definition order_by_desc :: "('a \<Rightarrow> 'k::linorder) \<Rightarrow> 'a list \<Rightarrow> 'a list" where
  "order_by_desc key xs = rev (sort_key key (rev xs))"

definition active_of :: "ustr \<Rightarrow> session \<Rightarrow> bool" where
  "active_of oid s \<longleftrightarrow> requester_oid s = oid \<and> s_status s = ACTIVE"

definition find_active :: "env \<Rightarrow> world \<Rightarrow> ustr \<Rightarrow> session option" where
  "find_active e w oid =
     (case order_by_desc started_at (session_scan e (filter (active_of oid) (sessions w))) of
        [] \<Rightarrow> None | s # _ \<Rightarrow> Some (row_to_session w s))"

definition get_active_session_for :: "env \<Rightarrow> ustr \<Rightarrow> session option act" where
  "get_active_session_for e oid = gets (\<lambda>w. find_active e w oid)"

definition update_session :: "ustr \<Rightarrow> field list \<Rightarrow> unit act" where
  "update_session sid fs = (if fs = [] then ret () else modify (w_update_session sid fs))"

definition list_sessions ::
  "env \<Rightarrow> ustr option \<Rightarrow> ustr option \<Rightarrow> session_status option \<Rightarrow> session list act" where
  "list_sessions e req resp st = gets (\<lambda>w.
     map (row_to_session w) (order_by_desc started_at (session_scan e (filter (\<lambda>s.
       (case req of None \<Rightarrow> True | Some r \<Rightarrow> r = [] \<or> requester_oid s = r)
       \<and> (case resp of None \<Rightarrow> True | Some r \<Rightarrow> r = [] \<or> responder_oid s = r)
       \<and> (case st of None \<Rightarrow> True | Some x \<Rightarrow> s_status s = x)) (sessions w)))))"

section \<open>Findings, cursor, conversation, dissent\<close>

text \<open>\<open>f.get("id") == fid\<close> on a row.\<close>

definition row_id_is :: "ustr \<Rightarrow> obj \<Rightarrow> bool" where
  "row_id_is fid r \<longleftrightarrow> obj_get r ''id'' = JStr fid"

definition folder_act :: "session \<Rightarrow> (folder \<Rightarrow> folder) \<Rightarrow> unit act" where
  "folder_act s g = modify (w_folder (key_of s) g)"

definition append_finding :: "session \<Rightarrow> finding \<Rightarrow> unit act" where
  "append_finding s f = folder_act s (\<lambda>d. d\<lparr>annotations := annotations d @ [to_jsonl f]\<rparr>)"

text \<open>
  \<open>annotations.jsonl\<close> holds one JSON document per line, written with
  \<open>ensure_ascii=False\<close>, and is split with \<open>str.splitlines\<close>. The control characters are
  escaped by \<open>json.dumps\<close>, but NEL, LINE SEPARATOR and PARAGRAPH SEPARATOR are written as
  they are and \<open>splitlines\<close> cuts there, in the middle of a string literal; \<open>json.loads\<close>
  then raises on the first part (\<open>JSONDecodeError\<close>, a \<open>ValueError\<close>).
\<close>

definition cuts_line :: "ustr \<Rightarrow> bool" where
  "cuts_line s \<longleftrightarrow> list_ex (\<lambda>c. c = 133 \<or> c = 8232 \<or> c = 8233) s"

fun json_on_one_line :: "json \<Rightarrow> bool" where
  "json_on_one_line (JStr s) = (\<not> cuts_line s)"
| "json_on_one_line (JArr js) = list_all json_on_one_line js"
| "json_on_one_line (JObj ps) = list_all (\<lambda>(k, v). \<not> cuts_line k \<and> json_on_one_line v) ps"
| "json_on_one_line _ = True"

definition row_on_one_line :: "obj \<Rightarrow> bool" where
  "row_on_one_line r \<longleftrightarrow> json_on_one_line (JObj r)"

definition parse_rows :: "obj list \<Rightarrow> exn + obj list" where
  "parse_rows rows = (if list_all row_on_one_line rows then Inr rows else Inl ValueError)"

definition load_findings :: "session \<Rightarrow> obj list act" where
  "load_findings s =
     bnd (gets (\<lambda>w. annotations (folder_at w (key_of s)))) (\<lambda>rows. lift_sum (parse_rows rows))"

definition patch_rows :: "ustr \<Rightarrow> obj \<Rightarrow> obj list \<Rightarrow> obj list" where
  "patch_rows fid patch rows =
     map (\<lambda>r. if row_id_is fid r then obj_update r patch else r) rows"

definition update_finding_status :: "session \<Rightarrow> ustr \<Rightarrow> obj \<Rightarrow> unit act" where
  "update_finding_status s fid patch =
     bnd (load_findings s) (\<lambda>rows.
     folder_act s (\<lambda>d. d\<lparr>annotations := patch_rows fid patch rows\<rparr>))"

definition load_cursor :: "session \<Rightarrow> cursor act" where
  "load_cursor s = gets (\<lambda>w.
     case cursor_file (folder_at w (key_of s)) of None \<Rightarrow> empty_cursor | Some c \<Rightarrow> c)"

definition save_cursor :: "session \<Rightarrow> cursor \<Rightarrow> unit act" where
  "save_cursor s c = folder_act s (\<lambda>d. d\<lparr>cursor_file := Some c\<rparr>)"

definition log_conversation :: "env \<Rightarrow> session \<Rightarrow> string \<Rightarrow> ustr \<Rightarrow> intent \<Rightarrow> unit act" where
  "log_conversation e s role text intent =
     bnd (now_iso e) (\<lambda>ts. folder_act s (\<lambda>d. d\<lparr>conversation := conversation d @
       [\<lparr>ll_ts = ts, ll_role = role, ll_text = text, ll_intent = intent\<rparr>]\<rparr>))"

definition append_dissent :: "session \<Rightarrow> obj \<Rightarrow> ustr \<Rightarrow> unit act" where
  "append_dissent s row reply = folder_act s (\<lambda>d. d\<lparr>dissent := dissent d @ [(row, reply)]\<rparr>)"

section \<open>Events\<close>

definition event_ids :: "world \<Rightarrow> ustr list" where
  "event_ids w = map ev_event_id (events w)"

definition event_seen :: "ustr \<Rightarrow> bool act" where
  "event_seen eid = gets (\<lambda>w. eid \<in> set (event_ids w))"

definition record_event ::
  "env \<Rightarrow> ustr \<Rightarrow> ustr \<Rightarrow> ustr \<Rightarrow> ustr \<Rightarrow> nat \<Rightarrow> ustr \<Rightarrow> ustr \<Rightarrow> unit act" where
  "record_event e eid sender ty mty n hash summary =
     bnd (now_iso e) (\<lambda>ts.
     modify (\<lambda>w. if eid \<in> set (event_ids w) then w
       else w_events (events w @ [\<lparr>ev_event_id = eid, ev_sender_oid = sender,
              ev_event_type = ty, ev_msg_type = mty, ev_size_bytes = n,
              ev_content_hash = hash, ev_summary = summary, ev_handled = False,
              ev_created_at = ts\<rparr>]) w))"

definition mark_event_handled :: "ustr \<Rightarrow> unit act" where
  "mark_event_handled eid = modify (\<lambda>w.
     w_events (map (\<lambda>v. if ev_event_id v = eid then v\<lparr>ev_handled := True\<rparr> else v) (events w)) w)"

section \<open>Tasks\<close>

text \<open>\<open>INTEGER PRIMARY KEY AUTOINCREMENT\<close>; rows are never deleted.\<close>

definition next_task_id :: "world \<Rightarrow> nat" where
  "next_task_id w = Suc (foldr max (map t_id (tasks w)) 0)"

definition insert_task :: "env \<Rightarrow> ustr \<Rightarrow> payload \<Rightarrow> ustr option \<Rightarrow> nat act" where
  "insert_task e kind p req =
     bnd (now_iso e) (\<lambda>ts.
     bnd (gets next_task_id) (\<lambda>tid.
     andthen (modify (\<lambda>w. w_tasks (tasks w @ [\<lparr>t_id = tid, t_kind = kind, t_payload = p,
       t_requester_oid = req, t_status = Pending, t_attempts = 0, t_last_error = None,
       t_scheduled_at = ts, t_picked_at = None, t_finished_at = None\<rparr>]) w))
     (ret tid)))"

definition fetch_task :: "nat \<Rightarrow> task option act" where
  "fetch_task tid = gets (\<lambda>w. find (\<lambda>t. t_id t = tid) (tasks w))"

definition update_task :: "nat \<Rightarrow> (task \<Rightarrow> task) \<Rightarrow> unit act" where
  "update_task tid g = modify (\<lambda>w.
     w_tasks (map (\<lambda>t. if t_id t = tid then g t else t) (tasks w)) w)"

definition mark_task_running :: "env \<Rightarrow> nat \<Rightarrow> unit act" where
  "mark_task_running e tid = bnd (now_iso e) (\<lambda>ts. update_task tid (\<lambda>t.
     t\<lparr>t_status := Running, t_picked_at := Some ts, t_attempts := Suc (t_attempts t)\<rparr>))"

definition mark_task_done :: "env \<Rightarrow> nat \<Rightarrow> unit act" where
  "mark_task_done e tid = bnd (now_iso e) (\<lambda>ts. update_task tid (\<lambda>t.
     t\<lparr>t_status := Done, t_finished_at := Some ts\<rparr>))"

definition mark_task_failed :: "env \<Rightarrow> nat \<Rightarrow> ustr \<Rightarrow> bool \<Rightarrow> unit act" where
  "mark_task_failed e tid err terminal =
     (if terminal
      then bnd (now_iso e) (\<lambda>ts. update_task tid (\<lambda>t.
        t\<lparr>t_status := Failed, t_last_error := Some (take 1000 err), t_finished_at := Some ts\<rparr>))
      else update_task tid (\<lambda>t.
        t\<lparr>t_status := Pending, t_last_error := Some (take 1000 err), t_finished_at := None\<rparr>))"

definition pending_tasks :: "env \<Rightarrow> world \<Rightarrow> task list" where
  "pending_tasks e w =
     sort_key t_scheduled_at (task_scan e (filter (\<lambda>t. t_status t = Pending) (tasks w)))"

definition list_pending_tasks :: "env \<Rightarrow> task list act" where
  "list_pending_tasks e = gets (pending_tasks e)"

definition recover_task :: "task \<Rightarrow> task" where
  "recover_task t =
     (if t_status t = Running
      then t\<lparr>t_status := Pending, t_last_error := Some (asc ''worker crashed mid-run'')\<rparr> else t)"

definition recover_running_tasks :: "nat act" where
  "recover_running_tasks =
     bnd (gets (\<lambda>w. length (filter (\<lambda>t. t_status t = Running) (tasks w)))) (\<lambda>n.
     andthen (modify (\<lambda>w. w_tasks (map recover_task (tasks w)) w)) (ret n))"

section \<open>LLM and outbound audit rows\<close>

definition has_llm_call_for_stage :: "ustr \<Rightarrow> string \<Rightarrow> bool act" where
  "has_llm_call_for_stage sid st = gets (\<lambda>w.
     list_ex (\<lambda>c. lc_session_id c = sid \<and> lc_stage c = st) (llm_calls w))"

definition log_llm_call :: "ustr \<Rightarrow> string \<Rightarrow> llm_response \<Rightarrow> unit act" where
  "log_llm_call sid st r =
     bnd (gets (\<lambda>w. sid \<in> set (session_ids w))) (\<lambda>ok.
     if ok then modify (w_llm_call \<lparr>lc_session_id = sid, lc_stage = st, lc_response = r\<rparr>)
     else raise_exn IntegrityError)"

definition log_outbound :: "outbound \<Rightarrow> unit act" where
  "log_outbound ob =
     bnd (gets (\<lambda>w. ob_session_id ob \<in> set (session_ids w))) (\<lambda>ok.
     if ok then modify (w_outbound ob) else raise_exn IntegrityError)"

definition already_sent :: "world \<Rightarrow> ustr \<Rightarrow> ustr \<Rightarrow> ustr \<Rightarrow> bool" where
  "already_sent w sid oid h \<longleftrightarrow> list_ex (\<lambda>ob. ob_session_id ob = sid \<and> ob_to_open_id ob = oid
     \<and> ob_content_hash ob = h \<and> ob_ok ob) (outbounds w)"

definition outbound_already_sent :: "ustr \<Rightarrow> ustr \<Rightarrow> ustr \<Rightarrow> bool act" where
  "outbound_already_sent sid oid h = gets (\<lambda>w. already_sent w sid oid h)"

section \<open>What a field update leaves alone\<close>

text \<open>The columns no \<open>update_session\<close> call of the code names.\<close>

definition same_identity :: "session \<Rightarrow> session \<Rightarrow> bool" where
  "same_identity s s' \<longleftrightarrow>
     s_id s' = s_id s \<and> requester_oid s' = requester_oid s \<and> responder_oid s' = responder_oid s
     \<and> fs_path s' = fs_path s \<and> started_at s' = started_at s
     \<and> trigger_source s' = trigger_source s \<and> failed_stage s' = failed_stage s
     \<and> last_error s' = last_error s"

lemma same_identity_refl [simp]: "same_identity s s"
  by (simp add: same_identity_def)

lemma same_identity_trans: "same_identity s t \<Longrightarrow> same_identity t u \<Longrightarrow> same_identity s u"
  by (simp add: same_identity_def)

lemma same_identity_set_field: "same_identity s (set_field f s)"
  by (cases f) (simp_all add: same_identity_def)

lemma same_identity_set_fields [simp]: "same_identity s (set_fields fs s)"
  unfolding set_fields_def
proof (induction fs arbitrary: s)
  case Nil
  then show ?case by simp
next
  case (Cons f fs)
  then show ?case using same_identity_set_field same_identity_trans by fastforce
qed

lemma set_fields_ids [simp]:
  "s_id (set_fields fs s) = s_id s" "requester_oid (set_fields fs s) = requester_oid s"
  using same_identity_set_fields [of s fs] by (simp_all add: same_identity_def)

lemma set_fields_Nil [simp]: "set_fields [] s = s"
  by (simp add: set_fields_def)

lemma set_fields_Cons [simp]: "set_fields (f # fs) s = set_fields fs (set_field f s)"
  by (simp add: set_fields_def)

definition never_active :: "field list \<Rightarrow> bool" where
  "never_active fs \<longleftrightarrow> Set_status ACTIVE \<notin> set fs"

lemma never_active_Nil [simp]: "never_active []"
  by (simp add: never_active_def)

lemma never_active_Cons [simp]:
  "never_active (f # fs) \<longleftrightarrow> f \<noteq> Set_status ACTIVE \<and> never_active fs"
  by (auto simp: never_active_def)

lemma set_fields_status:
  "never_active fs \<Longrightarrow> s_status s \<noteq> ACTIVE \<Longrightarrow> s_status (set_fields fs s) \<noteq> ACTIVE"
proof (induction fs arbitrary: s)
  case Nil
  then show ?case by simp
next
  case (Cons f fs)
  from Cons.prems have "s_status (set_field f s) \<noteq> ACTIVE" by (cases f) auto
  with Cons show ?case by simp
qed

lemma session_ids_update [simp]: "session_ids (w_update_session sid fs w) = session_ids w"
  by (auto simp: session_ids_def w_update_session_def)

lemma find_row_update:
  "find (\<lambda>s. s_id s = i) (sessions (w_update_session sid fs w)) =
   map_option (\<lambda>s. if i = sid then set_fields fs s else s)
     (find (\<lambda>s. s_id s = i) (sessions w))"
proof -
  let ?g = "\<lambda>s. if s_id s = sid then set_fields fs s else s"
  have "find (\<lambda>s. s_id s = i) (map ?g (sessions w)) =
      map_option ?g (find ((\<lambda>s. s_id s = i) \<circ> ?g) (sessions w))"
    by (rule find_map)
  moreover have "((\<lambda>s. s_id s = i) \<circ> ?g) = (\<lambda>s. s_id s = i)"
    by (auto simp: fun_eq_iff)
  moreover have "map_option ?g (find (\<lambda>s. s_id s = i) (sessions w)) =
      map_option (\<lambda>s. if i = sid then set_fields fs s else s)
        (find (\<lambda>s. s_id s = i) (sessions w))"
    by (cases "find (\<lambda>s. s_id s = i) (sessions w)") (auto dest: find_SomeD)
  ultimately show ?thesis by (simp add: w_update_session_def)
qed

section \<open>Integrity of the tables\<close>

text \<open>
  The PRIMARY KEY constraints, and the foreign keys that no operation can break: audit rows
  refer to sessions that exist. (\<open>delete_user\<close> switches the foreign keys off, so a session
  may refer to a user that is gone.)
\<close>

definition db_wf :: "world \<Rightarrow> bool" where
  "db_wf w \<longleftrightarrow>
     distinct (user_ids w) \<and> distinct (session_ids w) \<and> distinct (event_ids w)
     \<and> distinct (map t_id (tasks w))
     \<and> list_all (\<lambda>c. lc_session_id c \<in> set (session_ids w)) (llm_calls w)
     \<and> list_all (\<lambda>ob. ob_session_id ob \<in> set (session_ids w)) (outbounds w)"

lemmas w_defs = w_update_session_def w_insert_session_def w_folder_def w_users_def
  w_llm_call_def w_outbound_def w_events_def w_tasks_def

lemma upsert_rows_ids:
  "map open_id (upsert_rows u us) =
     (if open_id u \<in> set (map open_id us) then map open_id us else map open_id us @ [open_id u])"
  by (simp add: upsert_rows_def)

lemma distinct_upsert_rows:
  "distinct (map open_id us) \<Longrightarrow> distinct (map open_id (upsert_rows u us))"
  by (simp add: upsert_rows_ids)

lemma find_upsert_same:
  "find (\<lambda>v. open_id v = open_id u) (upsert_rows u us) =
     Some (case find (\<lambda>v. open_id v = open_id u) us of
             None \<Rightarrow> u | Some v \<Rightarrow> u\<lparr>u_created_at := u_created_at v\<rparr>)"
proof (induction us)
  case Nil
  then show ?case by (simp add: upsert_rows_def)
next
  case (Cons v us)
  then show ?case by (auto simp: upsert_rows_def split: if_splits)
qed

lemma find_map_same_key:
  "(\<And>x. key (g x) = key x) \<Longrightarrow>
   find (\<lambda>x. key x = k) (map g xs) = map_option g (find (\<lambda>x. key x = k) xs)"
  by (induction xs) auto

lemma find_append:
  "find P (xs @ ys) = (case find P xs of None \<Rightarrow> find P ys | Some x \<Rightarrow> Some x)"
  by (induction xs) auto

lemma find_upsert_other:
  assumes "i \<noteq> open_id u"
  shows "find (\<lambda>v. open_id v = i) (upsert_rows u us) = find (\<lambda>v. open_id v = i) us"
proof -
  let ?g = "\<lambda>v. if open_id v = open_id u then u\<lparr>u_created_at := u_created_at v\<rparr> else v"
  have "find (\<lambda>v. open_id v = i) (map ?g us) = map_option ?g (find (\<lambda>v. open_id v = i) us)"
    by (rule find_map_same_key) simp
  also have "\<dots> = find (\<lambda>v. open_id v = i) us"
    using assms by (cases "find (\<lambda>v. open_id v = i) us") (auto dest: find_SomeD)
  finally show ?thesis using assms
    by (auto simp: upsert_rows_def find_append split: option.splits)
qed

lemma next_task_id_fresh: "next_task_id w \<notin> set (map t_id (tasks w))"
proof -
  have "x \<in> set xs \<Longrightarrow> x \<le> foldr max xs 0" for x :: nat and xs
    by (induction xs) auto
  then have "x \<in> set (map t_id (tasks w)) \<Longrightarrow> x < next_task_id w" for x
    unfolding next_task_id_def by (metis le_imp_less_Suc)
  then show ?thesis by blast
qed

lemma db_wf_tick [simp]: "db_wf (w\<lparr>tick := n\<rparr>) \<longleftrightarrow> db_wf w"
  by (simp add: db_wf_def user_ids_def session_ids_def event_ids_def)

lemma db_wf_w_folder [simp]: "db_wf (w_folder k g w) \<longleftrightarrow> db_wf w"
  by (simp add: db_wf_def user_ids_def session_ids_def event_ids_def w_folder_def)

lemma db_wf_w_update_session [simp]: "db_wf (w_update_session sid fs w) \<longleftrightarrow> db_wf w"
proof -
  have "session_ids (w_update_session sid fs w) = session_ids w" by simp
  then show ?thesis
    by (simp add: db_wf_def user_ids_def event_ids_def)
       (simp add: w_update_session_def)
qed

lemma db_wf_w_insert_session:
  "db_wf w \<Longrightarrow> s_id s \<notin> set (session_ids w) \<Longrightarrow> db_wf (w_insert_session s w)"
  by (auto simp: db_wf_def user_ids_def session_ids_def event_ids_def w_insert_session_def
      list_all_iff)

lemma db_wf_w_users:
  "db_wf w \<Longrightarrow> distinct (map open_id us) \<Longrightarrow> db_wf (w_users us w)"
  by (simp add: db_wf_def user_ids_def session_ids_def event_ids_def w_users_def)

lemma db_wf_w_llm_call:
  "db_wf w \<Longrightarrow> lc_session_id c \<in> set (session_ids w) \<Longrightarrow> db_wf (w_llm_call c w)"
  by (simp add: db_wf_def user_ids_def session_ids_def event_ids_def w_llm_call_def)

lemma db_wf_w_outbound:
  "db_wf w \<Longrightarrow> ob_session_id ob \<in> set (session_ids w) \<Longrightarrow> db_wf (w_outbound ob w)"
  by (simp add: db_wf_def user_ids_def session_ids_def event_ids_def w_outbound_def)

lemma db_wf_w_events:
  "db_wf w \<Longrightarrow> distinct (map ev_event_id es) \<Longrightarrow> db_wf (w_events es w)"
  by (simp add: db_wf_def user_ids_def session_ids_def event_ids_def w_events_def)

lemma db_wf_w_tasks:
  "db_wf w \<Longrightarrow> distinct (map t_id ts) \<Longrightarrow> db_wf (w_tasks ts w)"
  by (simp add: db_wf_def user_ids_def session_ids_def event_ids_def w_tasks_def)

lemma db_wf_parts:
  "db_wf w \<Longrightarrow> distinct (map open_id (users w))"
  "db_wf w \<Longrightarrow> distinct (map s_id (sessions w))"
  "db_wf w \<Longrightarrow> distinct (map ev_event_id (events w))"
  "db_wf w \<Longrightarrow> distinct (map t_id (tasks w))"
  by (simp_all add: db_wf_def user_ids_def session_ids_def event_ids_def)

end
