(* ===== verification/Effects.thy ===== *)
theory Effects imports Storage begin

text \<open>
  What a handler may do to the world. \<open>quiet_effects\<close> is the interface between the store and
  the handlers: a reflexive, transitive relation that every write a handler makes inside one
  session respects. Each component proves once, inside the locale, that its operations are
  steps of the relation; an interpretation on a concrete relation (audit rows are only
  appended, closed sessions stay closed, other requesters' data is untouched, ...) then gives
  the fact for every handler of the dispatcher. \<open>store_effects\<close> adds the two writes outside
  a session: a new user row and a new session row.
\<close>

section \<open>Messages to Lark\<close>

definition w_sent :: "sent_dm \<Rightarrow> world \<Rightarrow> world" where
  "w_sent m w = w\<lparr>sent := sent w @ [m]\<rparr>"

text \<open>
  \<open>LarkClient.send_dm_text\<close> and \<open>send_dm_post\<close>: the client is outside the model, the
  attempt is recorded with its outcome. \<open>_safe_dm\<close> swallows the exception.
\<close>

definition record_send :: "ustr \<Rightarrow> dm \<Rightarrow> exn + ustr \<Rightarrow> ustr act" where
  "record_send oid body r =
     andthen (modify (w_sent \<lparr>sd_to = oid, sd_body = body, sd_ok = (case r of Inl x \<Rightarrow> False | Inr m \<Rightarrow> True)\<rparr>))
     (lift_sum r)"

definition send_dm_text :: "env \<Rightarrow> ustr \<Rightarrow> dm \<Rightarrow> ustr act" where
  "send_dm_text e oid body = bnd (ask (\<lambda>n. send_dm e n oid body)) (record_send oid body)"

definition send_dm_post :: "env \<Rightarrow> ustr \<Rightarrow> dm \<Rightarrow> ustr act" where
  "send_dm_post e oid body = bnd (ask (\<lambda>n. send_post e n oid body)) (record_send oid body)"

definition safe_dm :: "env \<Rightarrow> ustr \<Rightarrow> dm \<Rightarrow> unit act" where
  "safe_dm e oid body =
     catch (andthen (send_dm_text e oid body) (ret ())) (\<lambda>x. ret ())"

text \<open>A session that must exist: \<open>assert\<close>, or an attribute of \<open>None\<close>.\<close>

definition with_session :: "exn \<Rightarrow> ustr \<Rightarrow> (session \<Rightarrow> 'a act) \<Rightarrow> 'a act" where
  "with_session x sid f =
     bnd (get_session sid) (\<lambda>so. case so of None \<Rightarrow> raise_exn x | Some s \<Rightarrow> f s)"

lemma safe_dm_returns: "fst (safe_dm e oid body w) = Inr ()"
  by (simp add: safe_dm_def send_dm_text_def record_send_def prog_simps split: sum.splits)

lemma safe_dm_state:
  "snd (safe_dm e oid body w) =
     w_sent \<lparr>sd_to = oid, sd_body = body,
             sd_ok = (case send_dm e (tick w) oid body of Inl x \<Rightarrow> False | Inr m \<Rightarrow> True)\<rparr>
       (w\<lparr>tick := Suc (tick w)\<rparr>)"
  by (simp add: safe_dm_def send_dm_text_def record_send_def prog_simps split: sum.splits)

lemma safe_dm_eq:
  "safe_dm e oid body w = (Inr (), snd (safe_dm e oid body w))"
  using safe_dm_returns [of e oid body w] by (cases "safe_dm e oid body w") simp

section \<open>Running the operations\<close>

text \<open>
  What each operation returns and leaves behind, so that a program is run by rewriting. The
  writes to a session directory appear as \<open>w_folder\<close> updates.
\<close>

definition cursor_at :: "world \<Rightarrow> session \<Rightarrow> cursor" where
  "cursor_at w s =
     (case cursor_file (folder_at w (key_of s)) of None \<Rightarrow> empty_cursor | Some c \<Rightarrow> c)"

definition rows_at :: "world \<Rightarrow> session \<Rightarrow> obj list" where
  "rows_at w s = annotations (folder_at w (key_of s))"

definition ticked :: "world \<Rightarrow> world" where
  "ticked w = w\<lparr>tick := Suc (tick w)\<rparr>"

lemma run_ask [run_simps]: "bnd (ask f) k w = k (f (tick w)) (ticked w)"
  by (simp add: ask_def bnd_def ticked_def)

lemma run_call [run_simps]:
  "bnd (call f) k w =
     (case f (tick w) of Inl x \<Rightarrow> (Inl x, ticked w) | Inr a \<Rightarrow> k a (ticked w))"
  by (simp add: call_def bnd_def ticked_def split: sum.splits)

lemma run_now_iso [run_simps]: "bnd (now_iso e) k w = k (clock e (tick w)) (ticked w)"
  by (simp add: now_iso_def run_ask)

lemma run_get_user [run_simps]: "bnd (get_user oid) k w = k (find_user w oid) w"
  by (simp add: get_user_def gets_bnd)

lemma run_with_session [run_simps]:
  "with_session x sid f w =
     (case find_session w sid of None \<Rightarrow> (Inl x, w) | Some s \<Rightarrow> f s w)"
  by (simp add: with_session_def get_session_def gets_bnd raise_exn_def split: option.splits)

lemma run_load_cursor [run_simps]: "bnd (load_cursor s) k w = k (cursor_at w s) w"
  by (simp add: load_cursor_def gets_bnd cursor_at_def)

lemma run_load_findings [run_simps]:
  "bnd (load_findings s) k w =
     (case parse_rows (rows_at w s) of Inl x \<Rightarrow> (Inl x, w) | Inr rows \<Rightarrow> k rows w)"
  by (simp add: load_findings_def run_simps rows_at_def)

lemma run_folder_act [run_simps]:
  "bnd (folder_act s g) k w = k () (w_folder (key_of s) g w)"
  by (simp add: folder_act_def modify_bnd)

lemma run_save_cursor [run_simps]:
  "bnd (save_cursor s c) k w = k () (w_folder (key_of s) (\<lambda>d. d\<lparr>cursor_file := Some c\<rparr>) w)"
  by (simp add: save_cursor_def run_simps)

lemma run_update_session [run_simps]:
  "fs \<noteq> [] \<Longrightarrow> bnd (update_session sid fs) k w = k () (w_update_session sid fs w)"
  by (simp add: update_session_def modify_bnd)

lemma run_log_llm_call [run_simps]:
  "bnd (log_llm_call sid st r) k w =
     (if sid \<in> set (session_ids w)
      then k () (w_llm_call \<lparr>lc_session_id = sid, lc_stage = st, lc_response = r\<rparr> w)
      else (Inl IntegrityError, w))"
  by (simp add: log_llm_call_def run_simps bnd_def modify_def gets_def raise_exn_def)

lemma run_safe_dm [run_simps]: "bnd (safe_dm e oid body) k w = k () (snd (safe_dm e oid body w))"
  by (subst bnd_Inr [OF safe_dm_eq]) simp

lemma ticked_simps [simp]:
  "users (ticked w) = users w" "sessions (ticked w) = sessions w" "folders (ticked w) = folders w"
  "llm_calls (ticked w) = llm_calls w" "outbounds (ticked w) = outbounds w"
  "events (ticked w) = events w" "tasks (ticked w) = tasks w" "sent (ticked w) = sent w"
  "tick (ticked w) = Suc (tick w)"
  by (simp_all add: ticked_def)

lemma w_folder_simps [simp]:
  "users (w_folder k g w) = users w" "sessions (w_folder k g w) = sessions w"
  "llm_calls (w_folder k g w) = llm_calls w" "outbounds (w_folder k g w) = outbounds w"
  "events (w_folder k g w) = events w" "tasks (w_folder k g w) = tasks w"
  "sent (w_folder k g w) = sent w" "tick (w_folder k g w) = tick w"
  by (simp_all add: w_folder_def)

lemma w_llm_call_simps [simp]:
  "users (w_llm_call c w) = users w" "sessions (w_llm_call c w) = sessions w"
  "folders (w_llm_call c w) = folders w" "outbounds (w_llm_call c w) = outbounds w"
  "events (w_llm_call c w) = events w" "tasks (w_llm_call c w) = tasks w"
  "sent (w_llm_call c w) = sent w" "tick (w_llm_call c w) = tick w"
  "llm_calls (w_llm_call c w) = llm_calls w @ [c]"
  by (simp_all add: w_llm_call_def)

lemma w_update_session_simps [simp]:
  "users (w_update_session i fs w) = users w" "folders (w_update_session i fs w) = folders w"
  "llm_calls (w_update_session i fs w) = llm_calls w"
  "outbounds (w_update_session i fs w) = outbounds w"
  "events (w_update_session i fs w) = events w" "tasks (w_update_session i fs w) = tasks w"
  "sent (w_update_session i fs w) = sent w" "tick (w_update_session i fs w) = tick w"
  by (simp_all add: w_update_session_def)

lemma sessions_w_update: "sessions (w_update_session i fs w) =
    map (\<lambda>s. if s_id s = i then set_fields fs s else s) (sessions w)"
  by (simp add: w_update_session_def)

lemma w_sent_simps [simp]:
  "users (w_sent m w) = users w" "sessions (w_sent m w) = sessions w"
  "folders (w_sent m w) = folders w" "llm_calls (w_sent m w) = llm_calls w"
  "outbounds (w_sent m w) = outbounds w" "events (w_sent m w) = events w"
  "tasks (w_sent m w) = tasks w" "sent (w_sent m w) = sent w @ [m]" "tick (w_sent m w) = tick w"
  by (simp_all add: w_sent_def)

lemma w_outbound_simps [simp]:
  "users (w_outbound c w) = users w" "sessions (w_outbound c w) = sessions w"
  "folders (w_outbound c w) = folders w" "llm_calls (w_outbound c w) = llm_calls w"
  "events (w_outbound c w) = events w" "tasks (w_outbound c w) = tasks w"
  "sent (w_outbound c w) = sent w" "tick (w_outbound c w) = tick w"
  "outbounds (w_outbound c w) = outbounds w @ [c]"
  by (simp_all add: w_outbound_def)

lemma folder_at_w_folder [simp]:
  "folder_at (w_folder k g w) k' = (if k' = k then g (folder_at w k) else folder_at w k')"
  by (simp add: folder_at_def w_folder_def)

lemma folder_at_cong: "folders w = folders w' \<Longrightarrow> folder_at w k = folder_at w' k"
  by (simp add: folder_at_def)

lemma folder_at_other [simp]:
  "folder_at (ticked w) k = folder_at w k" "folder_at (w_llm_call c w) k = folder_at w k"
  "folder_at (w_update_session i fs w) k = folder_at w k" "folder_at (w_sent m w) k = folder_at w k"
  "folder_at (w_outbound ob w) k = folder_at w k"
  by (simp_all add: folder_at_def)

lemma cursor_at_simps [simp]:
  "cursor_at (w_folder (key_of s) (\<lambda>d. d\<lparr>cursor_file := Some c\<rparr>) w) s = c"
  "cursor_at (w_folder k (\<lambda>d. d\<lparr>conversation := f d\<rparr>) w) s = cursor_at w s"
  "cursor_at (w_folder k (\<lambda>d. d\<lparr>annotations := g d\<rparr>) w) s = cursor_at w s"
  "cursor_at (w_folder k (\<lambda>d. d\<lparr>dissent := h d\<rparr>) w) s = cursor_at w s"
  "cursor_at (ticked w) s = cursor_at w s" "cursor_at (w_llm_call l w) s = cursor_at w s"
  "cursor_at (w_update_session i fs w) s = cursor_at w s" "cursor_at (w_sent m w) s = cursor_at w s"
  by (auto simp: cursor_at_def)

lemma rows_at_simps [simp]:
  "rows_at (w_folder k (\<lambda>d. d\<lparr>cursor_file := a d\<rparr>) w) s = rows_at w s"
  "rows_at (w_folder k (\<lambda>d. d\<lparr>conversation := f d\<rparr>) w) s = rows_at w s"
  "rows_at (w_folder (key_of s) (\<lambda>d. d\<lparr>annotations := rs\<rparr>) w) s = rs"
  "rows_at (w_folder k (\<lambda>d. d\<lparr>dissent := h d\<rparr>) w) s = rows_at w s"
  "rows_at (ticked w) s = rows_at w s" "rows_at (w_llm_call l w) s = rows_at w s"
  "rows_at (w_update_session i fs w) s = rows_at w s" "rows_at (w_sent m w) s = rows_at w s"
  by (auto simp: rows_at_def)

lemma session_ids_other [simp]:
  "session_ids (ticked w) = session_ids w" "session_ids (w_folder k g w) = session_ids w"
  "session_ids (w_llm_call c w) = session_ids w" "session_ids (w_sent m w) = session_ids w"
  "session_ids (w_outbound ob w) = session_ids w"
  by (simp_all add: session_ids_def)

text \<open>Programs that only talk to the outside change nothing but the tick.\<close>

definition same_but_tick :: "world \<Rightarrow> world \<Rightarrow> bool" where
  "same_but_tick w w' \<longleftrightarrow> w' = w\<lparr>tick := tick w'\<rparr>"

interpretation tick_only: state_relation same_but_tick
proof
  fix u v w
  show "same_but_tick w w" by (simp add: same_but_tick_def)
  assume "same_but_tick u v" and "same_but_tick v w"
  then obtain m n where v: "v = u\<lparr>tick := m\<rparr>" and w: "w = v\<lparr>tick := n\<rparr>"
    unfolding same_but_tick_def by metis
  then show "same_but_tick u w" by (simp add: same_but_tick_def)
qed

lemma same_but_tick_fields:
  assumes "same_but_tick w w'"
  shows "users w' = users w" "sessions w' = sessions w" "folders w' = folders w"
    "llm_calls w' = llm_calls w" "outbounds w' = outbounds w" "sent w' = sent w"
    "events w' = events w" "tasks w' = tasks w" "session_ids w' = session_ids w"
    "folder_at w' k = folder_at w k" "rows_at w' s = rows_at w s" "cursor_at w' s = cursor_at w s"
proof -
  obtain n where w': "w' = w\<lparr>tick := n\<rparr>" using assms by (auto simp: same_but_tick_def)
  show "users w' = users w" "sessions w' = sessions w" "folders w' = folders w"
    "llm_calls w' = llm_calls w" "outbounds w' = outbounds w" "sent w' = sent w"
    "events w' = events w" "tasks w' = tasks w" "session_ids w' = session_ids w"
    "folder_at w' k = folder_at w k" "rows_at w' s = rows_at w s" "cursor_at w' s = cursor_at w s"
    by (simp_all add: w' session_ids_def folder_at_def rows_at_def cursor_at_def)
qed

lemma ticks_ask: "steps same_but_tick (ask f)" "steps same_but_tick (call g)"
  by (simp_all add: steps_def same_but_tick_def ask_def call_def)

section \<open>The interface\<close>

text \<open>Outside calls and messages, which every handler makes.\<close>

locale call_effects = state_relation R for R :: "world \<Rightarrow> world \<Rightarrow> bool" +
  assumes tick_R: "R w (w\<lparr>tick := n\<rparr>)"
    and sent_R: "R w (w_sent m w)"
begin

lemma steps_ask [step_rules]: "steps R (ask f)"
  by (simp add: steps_def ask_def tick_R)

lemma steps_call [step_rules]: "steps R (call f)"
  by (simp add: steps_def call_def tick_R)

lemma steps_now_iso [step_rules]: "steps R (now_iso e)"
  by (simp add: now_iso_def steps_ask)

lemma steps_record_send [step_rules]: "steps R (record_send oid body r)"
  by (simp add: record_send_def steps_def prog_simps sent_R)

lemma steps_send_dm_text [step_rules]: "steps R (send_dm_text e oid body)"
  unfolding send_dm_text_def by (intro steps_intros step_rules)

lemma steps_send_dm_post [step_rules]: "steps R (send_dm_post e oid body)"
  unfolding send_dm_post_def by (intro steps_intros step_rules)

lemma steps_safe_dm [step_rules]: "steps R (safe_dm e oid body)"
  unfolding safe_dm_def by (intro steps_intros step_rules)

lemma steps_get_session [step_rules]: "steps R (get_session sid)"
  unfolding get_session_def by (intro steps_intros)

lemma steps_get_user [step_rules]: "steps R (get_user oid)"
  unfolding get_user_def by (intro steps_intros)

lemma steps_list_users [step_rules]: "steps R (list_users e r)"
  unfolding list_users_def by (intro steps_intros)

lemma steps_get_active [step_rules]: "steps R (get_active_session_for e oid)"
  unfolding get_active_session_for_def by (intro steps_intros)

lemma steps_has_llm_call [step_rules]: "steps R (has_llm_call_for_stage sid st)"
  unfolding has_llm_call_for_stage_def by (intro steps_intros)

lemma steps_already_sent [step_rules]: "steps R (outbound_already_sent sid oid h)"
  unfolding outbound_already_sent_def by (intro steps_intros)

lemma steps_load_findings [step_rules]: "steps R (load_findings s)"
  unfolding load_findings_def by (intro steps_intros)

lemma steps_load_cursor [step_rules]: "steps R (load_cursor s)"
  unfolding load_cursor_def by (intro steps_intros)

end

text \<open>The writes inside a session the handler \<open>own\<close>s, its row being changed by \<open>allowed\<close> updates only.\<close>

locale session_effects = call_effects R for R +
  fixes own :: "session \<Rightarrow> bool" and allowed :: "field list \<Rightarrow> bool"
  assumes update_R: "own s \<Longrightarrow> allowed fs \<Longrightarrow> R w (w_update_session (s_id s) fs w)"
    and folder_R: "own s \<Longrightarrow> R w (w_folder (key_of s) g w)"
    and llm_R: "own s \<Longrightarrow> lc_session_id c = s_id s \<Longrightarrow> s_id s \<in> set (session_ids w) \<Longrightarrow>
      R w (w_llm_call c w)"
    and outbound_R: "own s \<Longrightarrow> ob_session_id ob = s_id s \<Longrightarrow> s_id s \<in> set (session_ids w) \<Longrightarrow>
      R w (w_outbound ob w)"
    and found_R: "own s \<Longrightarrow> find_session w (s_id s) = Some s' \<Longrightarrow> \<not> own s' \<Longrightarrow> R w w'"
begin

lemma steps_with_session [step_rules]:
  assumes own: "own s0" and f: "\<And>s. own s \<Longrightarrow> s_id s = s_id s0 \<Longrightarrow> steps R (f s)"
  shows "steps R (with_session x (s_id s0) f)"
proof (rule stepsI)
  fix w
  show "R w (snd (with_session x (s_id s0) f w))"
  proof (cases "find_session w (s_id s0)")
    case None
    then show ?thesis
      by (simp add: with_session_def get_session_def gets_bnd raise_exn_def refl_R)
  next
    case (Some s)
    have "s_id s = s_id s0"
      using Some by (auto simp: find_session_def row_to_session_def Let_def dest: find_SomeD)
    moreover have "with_session x (s_id s0) f w = f s w"
      using Some by (simp add: with_session_def get_session_def gets_bnd)
    ultimately show ?thesis
      using f [of s] stepsD found_R [OF own Some] by (cases "own s") auto
  qed
qed

lemma steps_update_session [step_rules]:
  "own s \<Longrightarrow> allowed fs \<Longrightarrow> steps R (update_session (s_id s) fs)"
  by (simp add: update_session_def steps_def modify_def ret_def update_R refl_R)

lemma steps_folder_act [step_rules]: "own s \<Longrightarrow> steps R (folder_act s g)"
  by (simp add: folder_act_def steps_def modify_def folder_R)

lemma steps_any_folder:
  assumes "\<And>s. own s"
  shows "steps R (modify (w_folder k g))"
proof (rule stepsI)
  fix w
  have "key_of ((undefined :: session)\<lparr>s_id := snd k, requester_oid := fst k\<rparr>) = k"
    by (simp add: key_of_def)
  then show "R w (snd (modify (w_folder k g) w))"
    using folder_R [OF assms] by (metis modify_def snd_conv)
qed

lemma steps_append_finding [step_rules]: "own s \<Longrightarrow> steps R (append_finding s f)"
  unfolding append_finding_def by (intro step_rules)

lemma steps_update_finding_status [step_rules]:
  "own s \<Longrightarrow> steps R (update_finding_status s fid patch)"
  unfolding update_finding_status_def by (intro steps_intros step_rules)

lemma steps_save_cursor [step_rules]: "own s \<Longrightarrow> steps R (save_cursor s c)"
  unfolding save_cursor_def by (intro step_rules)

lemma steps_log_conversation [step_rules]: "own s \<Longrightarrow> steps R (log_conversation e s r t i)"
  unfolding log_conversation_def by (intro steps_intros step_rules)

lemma steps_append_dissent [step_rules]: "own s \<Longrightarrow> steps R (append_dissent s row reply)"
  unfolding append_dissent_def by (intro step_rules)

lemma steps_log_llm_call [step_rules]: "own s \<Longrightarrow> steps R (log_llm_call (s_id s) st r)"
  by (rule stepsI) (auto simp: log_llm_call_def prog_simps refl_R intro: llm_R)

lemma steps_log_outbound [step_rules]:
  "own s \<Longrightarrow> ob_session_id ob = s_id s \<Longrightarrow> steps R (log_outbound ob)"
  by (rule stepsI) (auto simp: log_outbound_def prog_simps refl_R intro: outbound_R)

end

text \<open>
  No handler makes a session active again, and each one writes stages of a fixed set only.
  \<open>quiet_effects\<close> is for the relations that do not look at the stage.
\<close>

definition stages_in :: "stage set \<Rightarrow> field list \<Rightarrow> bool" where
  "stages_in S fs \<longleftrightarrow> (\<forall>st. Set_stage st \<in> set fs \<longrightarrow> st \<in> S)"

definition quiet :: "stage set \<Rightarrow> field list \<Rightarrow> bool" where
  "quiet S fs \<longleftrightarrow> never_active fs \<and> stages_in S fs"

lemma stages_in_simps [simp]:
  "stages_in S []" "stages_in UNIV fs"
  "stages_in S (f # fs) \<longleftrightarrow> (\<forall>st. f = Set_stage st \<longrightarrow> st \<in> S) \<and> stages_in S fs"
  by (auto simp: stages_in_def)

lemma quiet_simps [simp]:
  "quiet S []" "quiet UNIV fs \<longleftrightarrow> never_active fs"
  "quiet S (f # fs) \<longleftrightarrow> f \<noteq> Set_status ACTIVE \<and> (\<forall>st. f = Set_stage st \<longrightarrow> st \<in> S) \<and> quiet S fs"
  by (auto simp: quiet_def)

declare subset_UNIV [step_rules]

locale staged_effects = session_effects R own "quiet S" for R own and S :: "stage set"

locale quiet_effects = staged_effects R own UNIV for R own

text \<open>A new or changed user row.\<close>

locale user_effects = call_effects R for R +
  assumes upsert_R: "R w (w_users (upsert_rows u (users w)) w)"
begin

lemma steps_upsert_user [step_rules]: "steps R (upsert_user e u)"
proof -
  have "steps R (bnd (gets (\<lambda>w. upsert_rows v (users w))) (\<lambda>us.
     case p of None \<Rightarrow> modify (w_users us)
     | Some q \<Rightarrow> if q \<in> set (map open_id us) then modify (w_users us)
                 else raise_exn IntegrityError))" for v and p :: "ustr option"
    by (intro stepsI) (auto simp: prog_simps refl_R upsert_R split: option.splits)
  then show ?thesis
    unfolding upsert_user_def Let_def by (rule steps_bnd [OF steps_now_iso])
qed

end

text \<open>All writes of a message, the new session row included.\<close>

locale store_effects = quiet_effects R "\<lambda>_. True" + user_effects R for R +
  assumes insert_R: "s_id s \<notin> set (session_ids w) \<Longrightarrow> requester_oid s \<in> set (user_ids w) \<Longrightarrow>
      responder_oid s \<in> set (user_ids w) \<Longrightarrow> s_status s = ACTIVE \<Longrightarrow>
      R w (w_insert_session s w)"
begin

lemma steps_create_session [step_rules]: "steps R (create_session e req resp style rules prof)"
proof -
  have ins: "steps R (bnd (gets (\<lambda>w. sid \<notin> set (session_ids w) \<and> req \<in> set (user_ids w)
      \<and> resp \<in> set (user_ids w))) (\<lambda>ok.
      if ok then andthen (modify (w_insert_session s)) (ret s) else raise_exn IntegrityError))"
    if "s_id s = sid" "requester_oid s = req" "responder_oid s = resp" "s_status s = ACTIVE"
    for s sid
    using that by (intro stepsI) (auto simp: prog_simps refl_R intro: insert_R)
  show ?thesis
    unfolding create_session_def Let_def
    by (rule steps_bnd, rule steps_ask, rule steps_bnd, rule steps_any_folder, rule TrueI,
        rule steps_bnd, rule steps_now_iso, rule ins) (simp_all add: new_session_def)
qed

end

end
