(* ===== verification/Llm.thy ===== *)
theory Llm imports Effects begin

text \<open>
  What every LLM stage shares: the persona part of the prompt (the \<open>persona_kwargs\<close> block of
  each stage and pipeline/\_prompts.py), the call, its audit row, and the files a stage reads.
  The prompt templates are data: a request carries the values a template is rendered with.
  \<open>StrictUndefined\<close> makes the rendering raise when a printed key is missing.
\<close>

section \<open>Requests\<close>

text \<open>
  \<open>persona_kwargs\<close>: the display name of a missing responder is an attribute of \<open>None\<close>.
\<close>

definition persona_request ::
  "ustr \<Rightarrow> int \<Rightarrow> user option \<Rightarrow> session \<Rightarrow> llm_purpose \<Rightarrow> exn + llm_request" where
  "persona_request model max_tokens responder s purpose =
     (case responder of None \<Rightarrow> Inl AttributeError
      | Some r \<Rightarrow> Inr \<lparr>rq_model = model, rq_max_tokens = max_tokens,
          rq_responder_name = display_name r, rq_admin_style = admin_style s,
          rq_review_rules = review_rules s, rq_responder_profile = responder_profile s,
          rq_purpose = purpose\<rparr>)"

definition has_keys :: "string list \<Rightarrow> obj \<Rightarrow> bool" where
  "has_keys ks r \<longleftrightarrow> list_all (\<lambda>k. asc k \<in> set (map fst r)) ks"

definition require_keys :: "string list \<Rightarrow> obj list \<Rightarrow> unit act" where
  "require_keys ks rows =
     (if list_all (has_keys ks) rows then ret () else raise_exn UndefinedError)"

definition llm_ask :: "env \<Rightarrow> llm_request \<Rightarrow> llm_response act" where
  "llm_ask e rq = call (\<lambda>n. llm_chat e n rq)"

section \<open>Session files\<close>

text \<open>
  \<open>Path.read_text\<close> translates the line endings: CR LF and CR become LF.
\<close>

fun universal_newlines :: "ustr \<Rightarrow> ustr" where
  "universal_newlines [] = []"
| "universal_newlines [c] = [if c = 13 then 10 else c]"
| "universal_newlines (c # d # s) =
     (if c = 13 \<and> d = 10 then universal_newlines (10 # s)
      else (if c = 13 then 10 else c) # universal_newlines (d # s))"

lemma universal_newlines_no_cr: "13 \<notin> set (universal_newlines s)"
  by (induction s rule: universal_newlines.induct) auto

lemma universal_newlines_id: "13 \<notin> set s \<Longrightarrow> universal_newlines s = s"
  by (induction s rule: universal_newlines.induct) auto

lemma universal_newlines_idem [simp]:
  "universal_newlines (universal_newlines s) = universal_newlines s"
  by (rule universal_newlines_id) (rule universal_newlines_no_cr)

definition read_file :: "session \<Rightarrow> (folder \<Rightarrow> ustr option) \<Rightarrow> ustr act" where
  "read_file s f = bnd (gets (\<lambda>w. f (folder_at w (key_of s)))) (\<lambda>t.
     case t of None \<Rightarrow> raise_exn FileNotFoundError | Some x \<Rightarrow> ret (universal_newlines x))"

text \<open>\<open>final/revised.md\<close> when the merge has written it, otherwise \<open>normalized.md\<close>.\<close>

definition read_revised :: "session \<Rightarrow> ustr act" where
  "read_revised s = read_file s (\<lambda>d. case revised_md d of None \<Rightarrow> normalized_md d | Some r \<Rightarrow> Some r)"

lemma run_read_file [run_simps]:
  "bnd (read_file s f) k w =
     (case f (folder_at w (key_of s)) of None \<Rightarrow> (Inl FileNotFoundError, w)
      | Some x \<Rightarrow> k (universal_newlines x) w)"
  by (simp add: read_file_def run_simps split: option.splits)

lemma run_llm_ask [run_simps]:
  "bnd (llm_ask e rq) k w =
     (case llm_chat e (tick w) rq of Inl x \<Rightarrow> (Inl x, ticked w) | Inr a \<Rightarrow> k a (ticked w))"
  by (simp add: llm_ask_def run_simps)

lemma run_require_keys [run_simps]:
  "bnd (require_keys ks rows) k w =
     (if list_all (has_keys ks) rows then k () w else (Inl UndefinedError, w))"
  by (simp add: require_keys_def run_simps)

section \<open>Rows of annotations.jsonl\<close>

definition row_has :: "string \<Rightarrow> string \<Rightarrow> obj \<Rightarrow> bool" where
  "row_has k v r \<longleftrightarrow> obj_get r k = JStr (asc v)"

definition accepted_rows :: "obj list \<Rightarrow> obj list" where
  "accepted_rows rows = filter (row_has ''status'' ''accepted'') rows"

definition unresolvable_rows :: "obj list \<Rightarrow> obj list" where
  "unresolvable_rows rows = filter (row_has ''status'' ''unresolvable'') rows"

text \<open>\<open>session.subject or "(untitled)"\<close>\<close>

definition subject_or_untitled :: "session \<Rightarrow> ustr" where
  "subject_or_untitled s =
     (case subject s of None \<Rightarrow> asc ''(untitled)''
      | Some t \<Rightarrow> if t = [] then asc ''(untitled)'' else t)"

section \<open>Steps\<close>

context call_effects
begin

lemma steps_require_keys [step_rules]: "steps R (require_keys ks rows)"
  unfolding require_keys_def by (intro steps_intros)

lemma steps_llm_ask [step_rules]: "steps R (llm_ask e rq)"
  unfolding llm_ask_def by (rule steps_call)

lemma steps_read_file [step_rules]: "steps R (read_file s f)"
  unfolding read_file_def by (intro steps_intros)

lemma steps_read_revised [step_rules]: "steps R (read_revised s)"
  unfolding read_revised_def by (rule steps_read_file)

end

end
