(* ===== verification/Demo.thy ===== *)
theory Demo imports Effects begin

text \<open>
  A concrete environment, two users, a session and a world. They instantiate the parameters
  of the model where a theorem is applied to a concrete input.
\<close>

definition demo_response :: "ustr \<Rightarrow> llm_response" where
  "demo_response t = \<lparr>rs_content = t, rs_reasoning = [], rs_model = asc ''m'', rs_finish_reason = asc ''stop'',
     rs_prompt_tokens = 1, rs_completion_tokens = 1, rs_reasoning_tokens = 0,
     rs_cache_hit_tokens = 0, rs_latency_ms = 5\<rparr>"

definition demo_env :: env where
  "demo_env = \<lparr>clock = (\<lambda>n. asc ''2026-04-28T10:00:00Z''), fresh_id = (\<lambda>n. asc ''S'' @ nat_digits n),
     user_scan = (\<lambda>xs. xs), session_scan = (\<lambda>xs. xs), task_scan = (\<lambda>xs. xs),
     json_loads = (\<lambda>s. None), sha16 = (\<lambda>s. s), py_repr = (\<lambda>j. asc ''repr''),
     llm_chat = (\<lambda>n rq. Inr (demo_response (asc ''text''))),
     send_dm = (\<lambda>n oid d. Inr (asc ''om_1'')), send_post = (\<lambda>n oid d. Inr (asc ''om_2'')),
     lark_get_user = (\<lambda>n oid. Inr [(asc ''name'', JStr (asc ''Ann''))]),
     lark_create_doc = (\<lambda>n t b. Inr [(asc ''document_id'', JStr (asc ''d1''))]),
     slack_send_dm = (\<lambda>n o' t. Inr (asc ''ts'')), archive_copy = (\<lambda>n p i fs. Inr ()),
     download_attachment = (\<lambda>n m k kind. Inr []),
     fetch_lark_doc = (\<lambda>n k t. Inr (asc ''doc'')), fetch_bitable = (\<lambda>n a t. Inr (asc ''table'')),
     fetch_sheet = (\<lambda>n t. Inr (asc ''sheet'')), fetch_transcript = (\<lambda>n v. Inr (asc ''words'')),
     scrape_page = (\<lambda>n u. Inr (asc ''page'')), guess_mime = (\<lambda>p. asc ''text/markdown''),
     backend_ingest = (\<lambda>n b p raw. Inr raw), exn_text = (\<lambda>x. asc ''error''),
     fs_file = (\<lambda>n p. None), fs_root = asc ''/fs'',
     cfg_default_model = asc ''pro'', cfg_fast_model = asc ''flash'', cfg_max_rounds = 3,
     cfg_top_n_findings = 5, cfg_final_gate_max_fail_count = 2, cfg_auto_register = True,
     cfg_slack_enabled = False\<rparr>"

lemma demo_env_simps [simp]:
  "clock demo_env n = asc ''2026-04-28T10:00:00Z''" "session_scan demo_env ss = ss"
  "user_scan demo_env us = us" "task_scan demo_env ts = ts" "cfg_top_n_findings demo_env = 5"
  "cfg_final_gate_max_fail_count demo_env = 2" "send_dm demo_env n oid d = Inr (asc ''om_1'')"
  "llm_chat demo_env n rq = Inr (demo_response (asc ''text''))"
  by (simp_all add: demo_env_def)

lemma demo_scans_ok [simp]: "scans_ok demo_env"
  by (simp add: scans_ok_def)

definition demo_responder :: user where
  "demo_responder = \<lparr>open_id = asc ''ou_boss'', display_name = asc ''Boss'',
     roles = [ADMIN, RESPONDER], pairing_responder_oid = None, u_created_at = asc ''t'',
     u_updated_at = asc ''t''\<rparr>"

definition demo_requester :: user where
  "demo_requester = \<lparr>open_id = asc ''ou_ann'', display_name = asc ''Ann'', roles = [REQUESTER],
     pairing_responder_oid = Some (asc ''ou_boss''), u_created_at = asc ''t'',
     u_updated_at = asc ''t''\<rparr>"

definition demo_session :: session where
  "demo_session = new_session demo_env (asc ''S1'') (asc ''ou_ann'') (asc ''ou_boss'') (asc ''t0'')"

definition demo_row :: "string \<Rightarrow> string \<Rightarrow> string \<Rightarrow> obj" where
  "demo_row i sev st =
     [(asc ''id'', JStr (asc i)), (asc ''source'', JStr (asc ''four_pillar_scan'')),
      (asc ''pillar'', JStr (asc ''Intent'')), (asc ''severity'', JStr (asc sev)),
      (asc ''issue'', JStr (asc ''x'')), (asc ''suggest'', JStr (asc ''y'')),
      (asc ''status'', JStr (asc st))]"

definition demo_folder :: folder where
  "demo_folder = empty_folder\<lparr>annotations :=
       [demo_row ''p1'' ''BLOCKER'' ''open'', demo_row ''p2'' ''IMPROVEMENT'' ''open''],
     cursor_file := Some \<lparr>current_id = Some (asc ''p1''), pending = [asc ''p2''],
       deferred = [asc ''p3''], done_ids = [], regression_rescan = False\<rparr>,
     normalized_md := Some (asc ''the draft'')\<rparr>"

definition demo_world :: world where
  "demo_world = empty_world\<lparr>users := [demo_responder, demo_requester],
     sessions := [demo_session\<lparr>s_stage := QA_ACTIVE\<rparr>],
     folders := [(asc ''ou_ann'', asc ''S1'') \<mapsto> demo_folder]\<rparr>"

lemma demo_key [simp]: "key_of demo_session = (asc ''ou_ann'', asc ''S1'')"
  by (simp add: key_of_def demo_session_def new_session_def)

lemma demo_folder_at [simp]: "folder_at demo_world (asc ''ou_ann'', asc ''S1'') = demo_folder"
  by (simp add: folder_at_def demo_world_def)

lemma demo_cursor: "cursor_at demo_world demo_session =
    \<lparr>current_id = Some (asc ''p1''), pending = [asc ''p2''], deferred = [asc ''p3''],
     done_ids = [], regression_rescan = False\<rparr>"
  by (simp add: cursor_at_def demo_folder_def del: asc_Cons)

lemma demo_rows: "rows_at demo_world demo_session =
    [demo_row ''p1'' ''BLOCKER'' ''open'', demo_row ''p2'' ''IMPROVEMENT'' ''open'']"
  by (simp add: rows_at_def demo_folder_def del: asc_Cons)

end
