(* ===== verification/JsonExtract.thy ===== *)
theory JsonExtract imports Llm Demo begin

text \<open>
  pipeline/\_json.py: salvaging a JSON value from LLM output. \<open>json.loads\<close> is the standard
  library's and comes from the environment (\<open>None\<close> is \<open>JSONDecodeError\<close>).
\<close>

section \<open>The extractor\<close>

text \<open>The two substitutions that strip a Markdown fence, on a text without outer white space.\<close>

definition unfence_head :: "ustr \<Rightarrow> ustr" where
  "unfence_head s =
     (if startswith s (asc ''```'')
      then lstrip (let r = drop 3 s in if startswith r (asc ''json'') then drop 4 r else r)
      else s)"

definition unfence_tail :: "ustr \<Rightarrow> ustr" where
  "unfence_tail s =
     (if endswith s (asc ''```'') then rstrip (take (length s - 3) s) else s)"

text \<open>\<open>re.sub\<close> of a comma followed by white space and a closing bracket.\<close>

definition closes_after_spaces :: "ustr \<Rightarrow> bool" where
  "closes_after_spaces s = (case lstrip s of [] \<Rightarrow> False | c # _ \<Rightarrow> c = 125 \<or> c = 93)"

fun drop_trailing_commas :: "ustr \<Rightarrow> ustr" where
  "drop_trailing_commas [] = []"
| "drop_trailing_commas (c # s) =
     (if c = 44 \<and> closes_after_spaces s then drop_trailing_commas s
      else c # drop_trailing_commas s)"

text \<open>
  The bracket scan. \<open>seen\<close> is the text from the first opener up to here; a chunk is tried
  whenever the depth comes back to zero at a closer, and the scan goes on when it does not
  parse.
\<close>

fun scan_chunks ::
  "(ustr \<Rightarrow> json option) \<Rightarrow> int \<Rightarrow> int \<Rightarrow> int \<Rightarrow> ustr \<Rightarrow> ustr \<Rightarrow> json option" where
  "scan_chunks loads opener closer depth seen [] = None"
| "scan_chunks loads opener closer depth seen (c # s) =
     (if c = opener then scan_chunks loads opener closer (depth + 1) (seen @ [c]) s
      else if c = closer then
        (if depth - 1 = 0 then
           (case loads (drop_trailing_commas (seen @ [c])) of
              Some v \<Rightarrow> Some v
            | None \<Rightarrow> scan_chunks loads opener closer 0 (seen @ [c]) s)
         else scan_chunks loads opener closer (depth - 1) (seen @ [c]) s)
      else scan_chunks loads opener closer depth (seen @ [c]) s)"

definition from_opener :: "(ustr \<Rightarrow> json option) \<Rightarrow> int \<Rightarrow> int \<Rightarrow> ustr \<Rightarrow> json option" where
  "from_opener loads opener closer s =
     scan_chunks loads opener closer 0 [] (dropWhile (\<lambda>c. c \<noteq> opener) s)"

definition extract_json :: "env \<Rightarrow> ustr \<Rightarrow> exn + json" where
  "extract_json e text =
     (let s0 = strip text in
      if s0 = [] then Inl (LLMOutputParseError (asc ''LLM returned empty content (no JSON to parse)''))
      else
        let s = unfence_tail (unfence_head s0) in
        case json_loads e s of Some v \<Rightarrow> Inr v
        | None \<Rightarrow>
          (case from_opener (json_loads e) 123 125 s of Some v \<Rightarrow> Inr v
           | None \<Rightarrow>
             (case from_opener (json_loads e) 91 93 s of Some v \<Rightarrow> Inr v
              | None \<Rightarrow> Inl (LLMOutputParseError (asc ''no JSON found in LLM content'')))))"

section \<open>What it returns\<close>

text \<open>A chunk is a contiguous part of the text that starts with the opener, ends with the
  closer and holds as many of the one as of the other.\<close>

definition balanced_chunk :: "int \<Rightarrow> int \<Rightarrow> ustr \<Rightarrow> bool" where
  "balanced_chunk opener closer u \<longleftrightarrow>
     u \<noteq> [] \<and> hd u = opener \<and> last u = closer \<and>
     length (filter ((=) opener) u) = length (filter ((=) closer) u)"

lemma scan_chunks_sound:
  assumes "scan_chunks loads opener closer depth seen s = Some v" and "opener \<noteq> closer"
    and "depth = int (length (filter ((=) opener) seen)) - int (length (filter ((=) closer) seen))"
    and "(seen @ s) \<noteq> [] \<longrightarrow> hd (seen @ s) = opener"
  shows "\<exists>u r. seen @ s = u @ r \<and> balanced_chunk opener closer u
    \<and> loads (drop_trailing_commas u) = Some v"
  using assms
proof (induction loads opener closer depth seen s rule: scan_chunks.induct)
  case (1 loads opener closer depth d)
  then show ?case by simp
next
  case (2 loads opener closer depth d c s)
  show ?case
  proof (cases "c = closer \<and> depth - 1 = 0 \<and> loads (drop_trailing_commas (d @ [c])) = Some v")
    case True
    have bal: "balanced_chunk opener closer (d @ [c])"
      using True 2(6-8) by (cases d) (auto simp: balanced_chunk_def)
    from True have "loads (drop_trailing_commas (d @ [c])) = Some v" by blast
    then show ?thesis using bal by (intro exI [of _ "d @ [c]"] exI [of _ s]) simp
  next
    case False
    then show ?thesis
      using 2 by (auto split: if_splits option.splits)
  qed
qed

lemma from_opener_sound:
  assumes "from_opener loads opener closer s = Some v" and "opener \<noteq> closer"
  shows "\<exists>a u b. s = a @ u @ b \<and> balanced_chunk opener closer u
    \<and> loads (drop_trailing_commas u) = Some v"
proof -
  let ?t = "dropWhile (\<lambda>c. c \<noteq> opener) s"
  have "?t \<noteq> [] \<longrightarrow> hd ?t = opener" using hd_dropWhile [of "\<lambda>c. c \<noteq> opener" s] by auto
  then obtain u r where "?t = u @ r" "balanced_chunk opener closer u"
      "loads (drop_trailing_commas u) = Some v"
    using scan_chunks_sound [of loads opener closer 0 "[]" ?t v] assms
    by (auto simp: from_opener_def)
  then show ?thesis by (metis takeWhile_dropWhile_id)
qed

lemma drop_trailing_commas_id:
  "44 \<notin> set s \<Longrightarrow> drop_trailing_commas s = s"
  by (induction s) auto

text \<open>C24: What \<open>extract_json\<close> returns was parsed from the reply: from the text without its Markdown
  fence, or from a balanced \<open>{...}\<close> or \<open>[...]\<close> part of it once trailing commas are dropped.\<close>

theorem extract_sound:
  assumes "extract_json e text = Inr v"
  shows "json_loads e (unfence_tail (unfence_head (strip text))) = Some v
    \<or> (\<exists>a u b. unfence_tail (unfence_head (strip text)) = a @ u @ b
        \<and> (balanced_chunk 123 125 u \<or> balanced_chunk 91 93 u)
        \<and> json_loads e (drop_trailing_commas u) = Some v)"
proof -
  let ?s = "unfence_tail (unfence_head (strip text))"
  have "json_loads e ?s = Some v \<or> from_opener (json_loads e) 123 125 ?s = Some v
      \<or> from_opener (json_loads e) 91 93 ?s = Some v"
    using assms by (auto simp: extract_json_def Let_def split: if_splits option.splits)
  then show ?thesis
    using from_opener_sound [of "json_loads e" 123 125 ?s v]
      from_opener_sound [of "json_loads e" 91 93 ?s v] by auto
qed

theorem extract_sound_witness:
  "\<exists>v. extract_json (demo_env\<lparr>json_loads := (\<lambda>s. if s = asc ''{}'' then Some (JObj []) else None)\<rparr>)
     (asc ''Here: {,} ok'') = Inr v \<and> v = JObj []"
proof -
  let ?e = "demo_env\<lparr>json_loads := (\<lambda>s. if s = asc ''{}'' then Some (JObj []) else None)\<rparr>"
  let ?t = "asc ''Here: {,} ok''"
  have st: "unfence_tail (unfence_head (strip ?t)) = ?t" by code_simp
  have run: "extract_json ?e ?t = Inr (JObj [])"
  proof -
    have "from_opener (json_loads ?e) 123 125 ?t = Some (JObj [])"
      by (simp add: from_opener_def closes_after_spaces_def lstrip_by_def is_space_def)
    moreover have "strip ?t \<noteq> []" by code_simp
    moreover have "json_loads ?e ?t = None" by simp
    ultimately show ?thesis using st by (simp add: extract_json_def Let_def del: asc_Cons)
  qed
  have "\<exists>u. json_loads ?e u = Some (JObj [])"
    using extract_sound [OF run] by blast
  then show ?thesis using run by blast
qed

lemma is_space_lf: "is_space 10"
  by (simp add: is_space_def)

lemma unfence_tail_append: "unfence_tail (s @ asc ''```'') = rstrip s"
  by (simp add: unfence_tail_def endswith_def)

text \<open>A value in a Markdown fence is found: the fence is stripped and the text inside parsed,
  whatever white space surrounds the reply.\<close>

theorem extract_fenced:
  assumes "strip body = body" and "body \<noteq> []" and "json_loads e body = Some v"
    and "list_all is_space p" and "list_all is_space q"
  shows "extract_json e (p @ (asc ''```json'' @ [10] @ body @ [10] @ asc ''```'') @ q) = Inr v"
proof -
  let ?t = "asc ''```json'' @ [10] @ body @ [10] @ asc ''```''"
  have "strip (p @ ?t @ q) = strip ?t" using assms(4,5) by (rule strip_by_pad)
  also have "\<dots> = ?t" by (rule strip_by_fixed) (simp_all add: is_space_def)
  finally have st: "strip (p @ ?t @ q) = ?t" .
  have ends: "\<not> is_space (hd body)" "\<not> is_space (last body)"
    using strip_by_ends [OF assms(1,2)] .
  have hd: "unfence_head ?t = body @ [10] @ asc ''```''"
    using ends(1) assms(2) is_space_lf
    by (cases body) (simp_all add: unfence_head_def startswith_def lstrip_by_def)
  have "rstrip (body @ [10]) = rstrip body" by (simp add: rstrip_by_snoc is_space_def)
  also have "\<dots> = body"
    using ends(2) assms(2) by (cases body rule: rev_cases) (simp_all add: rstrip_by_snoc)
  finally have rs: "rstrip (body @ [10]) = body" .
  have tl: "unfence_tail (unfence_head ?t) = body"
    using hd rs unfence_tail_append [of "body @ [10]"] by simp
  show ?thesis
    unfolding extract_json_def st Let_def tl using assms(3) by simp
qed

theorem extract_fenced_witness:
  "extract_json (demo_env\<lparr>json_loads := (\<lambda>s. Some (JStr s))\<rparr>)
     ([10] @ (asc ''```json'' @ [10] @ asc ''{}'' @ [10] @ asc ''```'') @ [32]) = Inr (JStr (asc ''{}''))"
  by (rule extract_fenced) (simp_all add: strip_by_def rstrip_by_def lstrip_by_def is_space_def)

text \<open>A reply that cannot be parsed is always an \<open>LLMOutputParseError\<close>, which the handlers
  treat as a terminal LLM failure; no other exception leaves \<open>extract_json\<close>.\<close>

theorem extract_error_is_terminal:
  "extract_json e text = Inl x \<Longrightarrow> \<exists>m. x = LLMOutputParseError m"
  by (auto simp: extract_json_def Let_def split: if_splits option.splits)

theorem extract_error_is_terminal_witness:
  "extract_json demo_env (asc ''none'') = Inl (LLMOutputParseError (asc ''no JSON found in LLM content''))
   \<and> (\<exists>m. LLMOutputParseError (asc ''no JSON found in LLM content'') = LLMOutputParseError m)"
proof -
  have "extract_json demo_env (asc ''none'') = Inl (LLMOutputParseError (asc ''no JSON found in LLM content''))"
    by (simp add: extract_json_def demo_env_def Let_def strip_by_def lstrip_by_def rstrip_by_def
        is_space_def unfence_head_def unfence_tail_def startswith_def endswith_def from_opener_def)
  then show ?thesis using extract_error_is_terminal by blast
qed

end
