(* ===== verification/FinalGate.thy ===== *)
theory FinalGate imports JsonExtract begin

text \<open>
  pipeline/merge\_draft.py and pipeline/final\_gate.py: rewriting the draft with the accepted
  findings, and the gate that decides whether the session may close.
\<close>

section \<open>merge\_draft.py\<close>

definition merge_run :: "env \<Rightarrow> session \<Rightarrow> user option \<Rightarrow> unit act" where
  "merge_run e s responder =
     bnd (read_file s normalized_md) (\<lambda>doc.
     bnd (load_findings s) (\<lambda>rows.
     bnd (lift_sum (persona_request (cfg_default_model e) 8192 responder s
            (ReqMergeDraft doc (accepted_rows rows)))) (\<lambda>rq.
     andthen (require_keys [''pillar'', ''severity'', ''issue'', ''suggest''] (accepted_rows rows))
     (bnd (llm_ask e rq) (\<lambda>resp.
     andthen (log_llm_call (s_id s) ''merge_draft'' resp)
     (andthen (folder_act s (\<lambda>d. d\<lparr>revised_md := Some (rs_content resp)\<rparr>))
     (update_session (s_id s) [Set_stage FINAL_GATING])))))))"

section \<open>Counts\<close>

text \<open>Dict keys must be hashable.\<close>

fun hashable :: "json \<Rightarrow> bool" where
  "hashable (JArr xs) = False"
| "hashable (JObj d) = False"
| "hashable _ = True"

text \<open>\<open>counts[k]\<close> of a \<open>defaultdict\<close>, updated in place; keys in order of first use.\<close>

fun bump :: "'v \<Rightarrow> ('v \<Rightarrow> 'v) \<Rightarrow> json \<Rightarrow> (json \<times> 'v) list \<Rightarrow> (json \<times> 'v) list" where
  "bump zero g k [] = [(k, g zero)]"
| "bump zero g k ((k', v) # kvs) =
     (if k' = k then (k', g v) # kvs else (k', v) # bump zero g k kvs)"

text \<open>The four counters are \<open>pass\<close>, \<open>open_blocker\<close>, \<open>unresolvable\<close> and \<open>total\<close>.\<close>

definition count_row :: "obj \<Rightarrow> nat \<times> nat \<times> nat \<times> nat \<Rightarrow> nat \<times> nat \<times> nat \<times> nat" where
  "count_row r c =
     (let (p, ob, u, t) = c;
          st = obj_get_or r ''status'' (JStr (asc ''open'')) in
      if st = JStr (asc ''accepted'') \<or> st = JStr (asc ''modified'') then (p + 1, ob, u, t + 1)
      else if st = JStr (asc ''unresolvable'') then (p, ob, u + 1, t + 1)
      else if obj_get r ''severity'' = JStr (asc ''BLOCKER'') then (p, ob + 1, u, t + 1)
      else (p, ob, u, t + 1))"

definition row_pillar :: "obj \<Rightarrow> json" where
  "row_pillar r = obj_get_or r ''pillar'' (JStr (asc ''Unknown''))"

definition row_source :: "obj \<Rightarrow> json" where
  "row_source r = obj_get_or r ''source'' (JStr (asc ''unknown''))"

definition aggregate_counts :: "obj list \<Rightarrow> exn + (json \<times> (nat \<times> nat \<times> nat \<times> nat)) list" where
  "aggregate_counts rows =
     (if list_all (\<lambda>r. hashable (row_pillar r)
                     \<and> hashable (obj_get_or r ''status'' (JStr (asc ''open'')))) rows
      then Inr (fold (\<lambda>r. bump (0, 0, 0, 0) (count_row r) (row_pillar r)) rows [])
      else Inl TypeError)"

definition aggregate_sources :: "obj list \<Rightarrow> exn + (json \<times> nat) list" where
  "aggregate_sources rows =
     (if list_all (\<lambda>r. hashable (row_source r)) rows
      then Inr (fold (\<lambda>r. bump 0 Suc (row_source r)) rows [])
      else Inl TypeError)"

section \<open>The verdict\<close>

definition gate_verdict :: "bool \<Rightarrow> json \<Rightarrow> json \<Rightarrow> ustr \<Rightarrow> exn + verdict" where
  "gate_verdict forced csw pillar_verdict raw =
     (if forced then Inr FORCED_PARTIAL
      else if csw = JStr (asc ''fail'') then Inr FAIL
      else case as_obj pillar_verdict of Inl x \<Rightarrow> Inl x
      | Inr pv \<Rightarrow>
          if obj_get pv ''Intent'' = JStr (asc ''fail'') then Inr FAIL
          else if raw = asc ''READY_WITH_OPEN_ITEMS'' then Inr READY_WITH_OPEN_ITEMS
          else if raw = asc ''FAIL'' then Inr FAIL
          else Inr READY)"

fun upper_of :: "json \<Rightarrow> exn + ustr" where
  "upper_of (JStr s) = Inr (upper s)"
| "upper_of _ = Inl AttributeError"

definition gate_outcome_of :: "bool \<Rightarrow> obj list \<Rightarrow> json \<Rightarrow> exn + gate_outcome" where
  "gate_outcome_of forced rows j =
     (case aggregate_counts rows of Inl x \<Rightarrow> Inl x | Inr counts \<Rightarrow>
     (case aggregate_sources rows of Inl x \<Rightarrow> Inl x | Inr by_source \<Rightarrow>
     (case as_obj j of Inl x \<Rightarrow> Inl x | Inr d \<Rightarrow>
     (case upper_of (obj_get_or d ''verdict'' (JStr (asc ''READY''))) of Inl x \<Rightarrow> Inl x
      | Inr raw \<Rightarrow>
        let pv = obj_get_or d ''pillar_verdict'' (JObj []);
            csw = obj_get_or d ''csw_gate_status'' (JStr (asc ''pass'')) in
        (case gate_verdict forced csw pv raw of Inl x \<Rightarrow> Inl x
         | Inr v \<Rightarrow> Inr \<lparr>go_verdict = v, go_csw_gate_status = csw, go_pillar_verdict = pv,
             go_pillar_counts = counts, go_by_source = by_source,
             go_regressions = obj_get_or d ''regressions'' (JArr [])\<rparr>)))))"

definition gate_fields :: "session \<Rightarrow> verdict \<Rightarrow> field list" where
  "gate_fields s v =
     (if v = FAIL then [Set_fail_count (fail_count s + 1), Set_verdict (Some v)]
      else [Set_verdict (Some v), Set_stage CLOSING])"

definition final_gate_run :: "env \<Rightarrow> session \<Rightarrow> user option \<Rightarrow> bool \<Rightarrow> gate_outcome act" where
  "final_gate_run e s responder forced =
     bnd (read_revised s) (\<lambda>revised.
     bnd (lift_sum (persona_request (cfg_default_model e) 4096 responder s (ReqFinalGate revised))) (\<lambda>rq.
     bnd (llm_ask e rq) (\<lambda>resp.
     andthen (log_llm_call (s_id s) ''final_gate'' resp)
     (bnd (lift_sum (extract_json e (rs_content resp))) (\<lambda>j.
     bnd (load_findings s) (\<lambda>rows.
     bnd (lift_sum (gate_outcome_of forced rows j)) (\<lambda>oc.
     andthen (folder_act s (\<lambda>d. d\<lparr>verdict_json := Some oc\<rparr>))
     (andthen (update_session (s_id s) (gate_fields s (go_verdict oc)))
     (ret oc)))))))))"

section \<open>Steps\<close>

lemma quiet_gate_fields: "CLOSING \<in> S \<Longrightarrow> quiet S (gate_fields s v)"
  by (simp add: gate_fields_def)

context staged_effects
begin

lemma steps_merge_run [step_rules]: "own s \<Longrightarrow> FINAL_GATING \<in> S \<Longrightarrow> steps R (merge_run e s r)"
  unfolding merge_run_def by (intro steps_intros step_rules) simp_all

lemma steps_final_gate_run [step_rules]: "own s \<Longrightarrow> CLOSING \<in> S \<Longrightarrow> steps R (final_gate_run e s r forced)"
  unfolding final_gate_run_def by (intro steps_intros step_rules quiet_gate_fields)

end

section \<open>Properties\<close>

text \<open>The verdict of the gate. A forced close is always a forced partial. Otherwise a failed
  CSW gate or a failed Intent pillar fails the session whatever verdict the LLM gives, and the
  verdict is never a forced partial.\<close>

theorem gate_verdict_rule:
  "gate_verdict True csw pv raw = Inr FORCED_PARTIAL
   \<and> (gate_verdict False csw pv raw = Inr v \<longrightarrow>
        v \<noteq> FORCED_PARTIAL
        \<and> (v = FAIL \<longleftrightarrow> csw = JStr (asc ''fail'') \<or> raw = asc ''FAIL''
              \<or> (\<exists>d. pv = JObj d \<and> obj_get d ''Intent'' = JStr (asc ''fail''))))"
  by (auto simp: gate_verdict_def as_obj_def split: json.splits if_splits)

theorem gate_verdict_rule_witness:
  "gate_verdict False (JStr (asc ''pass'')) (JObj [(asc ''Intent'', JStr (asc ''fail''))])
      (asc ''READY'') = Inr FAIL
   \<and> (FAIL \<noteq> FORCED_PARTIAL \<and> (\<exists>d. JObj [(asc ''Intent'', JStr (asc ''fail''))] = JObj d
        \<and> obj_get d ''Intent'' = JStr (asc ''fail'')))"
proof -
  have run: "gate_verdict False (JStr (asc ''pass'')) (JObj [(asc ''Intent'', JStr (asc ''fail''))])
      (asc ''READY'') = Inr FAIL"
    by (simp add: gate_verdict_def as_obj_def obj_get_def)
  show ?thesis
    using run gate_verdict_rule [of "JStr (asc ''pass'')" "JObj [(asc ''Intent'', JStr (asc ''fail''))]"
        "asc ''READY''" FAIL] by auto
qed

lemma sum_bump: "(\<And>v. m (g v) = Suc (m v)) \<Longrightarrow> m zero = (0::nat) \<Longrightarrow>
   sum_list (map (m \<circ> snd) (bump zero g k kvs)) = Suc (sum_list (map (m \<circ> snd) kvs))"
  by (induction zero g k kvs rule: bump.induct) auto

lemma sum_fold_bump:
  assumes "\<And>r v. m (g r v) = Suc (m v)" and "m zero = (0::nat)"
  shows "sum_list (map (m \<circ> snd) (fold (\<lambda>r. bump zero (g r) (key r)) rows kvs)) =
    length rows + sum_list (map (m \<circ> snd) kvs)"
  by (induction rows arbitrary: kvs) (simp_all add: sum_bump [of m, OF assms])

definition total_of :: "nat \<times> nat \<times> nat \<times> nat \<Rightarrow> nat" where
  "total_of c = (let (p, ob, u, t) = c in t)"

lemma total_count_row: "total_of (count_row r c) = Suc (total_of c)"
  by (cases c) (simp add: total_of_def count_row_def Let_def)

text \<open>The gate's counts miss no finding and count none twice: the totals over the pillars, and
  the counts over the sources, add up to the number of findings.\<close>

theorem gate_counts_complete:
  assumes "gate_outcome_of forced rows j = Inr oc"
  shows "sum_list (map (total_of \<circ> snd) (go_pillar_counts oc)) = length rows
    \<and> sum_list (map snd (go_by_source oc)) = length rows"
proof -
  have "aggregate_counts rows = Inr (go_pillar_counts oc)" "aggregate_sources rows = Inr (go_by_source oc)"
    using assms by (auto simp: gate_outcome_of_def Let_def split: sum.splits)
  then have "go_pillar_counts oc = fold (\<lambda>r. bump (0, 0, 0, 0) (count_row r) (row_pillar r)) rows []"
    "go_by_source oc = fold (\<lambda>r. bump 0 Suc (row_source r)) rows []"
    by (auto simp: aggregate_counts_def aggregate_sources_def split: if_splits)
  moreover have "sum_list (map (id \<circ> snd) (fold (\<lambda>r. bump 0 Suc (row_source r)) rows [])) = length rows"
    using sum_fold_bump [of id "\<lambda>r. Suc" 0 row_source rows "[]"] by simp
  moreover have "total_of (0, 0, 0, 0) = 0" by (simp add: total_of_def)
  ultimately show ?thesis
    using sum_fold_bump [of total_of count_row "(0, 0, 0, 0)" row_pillar rows "[]"] total_count_row
    by simp
qed

lemma demo_gate: "gate_outcome_of False [demo_row ''p1'' ''BLOCKER'' ''open''] (JObj []) =
    Inr \<lparr>go_verdict = READY, go_csw_gate_status = JStr (asc ''pass''), go_pillar_verdict = JObj [],
      go_pillar_counts = [(JStr (asc ''Intent''), (0, 1, 0, 1))],
      go_by_source = [(JStr (asc ''four_pillar_scan''), 1)], go_regressions = JArr []\<rparr>"
  by code_simp

theorem gate_counts_complete_witness:
  "sum_list (map (total_of \<circ> snd) [(JStr (asc ''Intent''), (0, 1, 0, 1))]) =
    length [demo_row ''p1'' ''BLOCKER'' ''open'']"
  using gate_counts_complete [OF demo_gate] by simp

text \<open>C22: A gate that returns stores its outcome, keeps the findings, and updates only the
  verdict fields of its session: a failure counts one more failed gate and leaves the stage, any
  other verdict moves the session to \<open>closing\<close>. A forced gate always yields a forced partial.\<close>

theorem final_gate_run_result:
  assumes "final_gate_run e s responder forced w = (Inr oc, w')"
  shows "(forced \<longrightarrow> go_verdict oc = FORCED_PARTIAL) \<and> (\<not> forced \<longrightarrow> go_verdict oc \<noteq> FORCED_PARTIAL)
    \<and> rows_at w' s = rows_at w s \<and> cursor_at w' s = cursor_at w s
    \<and> verdict_json (folder_at w' (key_of s)) = Some oc
    \<and> sessions w' = map (\<lambda>r. if s_id r = s_id s
         then (if go_verdict oc = FAIL
               then r\<lparr>fail_count := fail_count s + 1, s_verdict := Some FAIL\<rparr>
               else r\<lparr>s_verdict := Some (go_verdict oc), s_stage := CLOSING\<rparr>)
         else r) (sessions w)"
proof -
  have fs: "gate_fields s v \<noteq> []" for v by (simp add: gate_fields_def)
  have "\<exists>rows j resp. gate_outcome_of forced rows j = Inr oc
      \<and> w' = w_update_session (s_id s) (gate_fields s (go_verdict oc))
       (w_folder (key_of s) (\<lambda>d. d\<lparr>verdict_json := Some oc\<rparr>)
       (w_llm_call \<lparr>lc_session_id = s_id s, lc_stage = ''final_gate'', lc_response = resp\<rparr> (ticked w)))"
    using assms fs unfolding final_gate_run_def read_revised_def
    by (auto simp: run_simps split: sum.splits option.splits if_splits)
  then obtain rows j resp where oc: "gate_outcome_of forced rows j = Inr oc"
    and w': "w' = w_update_session (s_id s) (gate_fields s (go_verdict oc))
       (w_folder (key_of s) (\<lambda>d. d\<lparr>verdict_json := Some oc\<rparr>)
       (w_llm_call \<lparr>lc_session_id = s_id s, lc_stage = ''final_gate'', lc_response = resp\<rparr> (ticked w)))"
    by blast
  have "forced \<longleftrightarrow> go_verdict oc = FORCED_PARTIAL"
    using oc by (auto simp: gate_outcome_of_def gate_verdict_def Let_def split: sum.splits if_splits)
  moreover have "rows_at w' s = rows_at w s" "cursor_at w' s = cursor_at w s"
    by (simp_all add: w' rows_at_def cursor_at_def)
  ultimately show ?thesis
    by (auto simp: w' sessions_w_update gate_fields_def)
qed

definition gate_env :: env where
  "gate_env = demo_env\<lparr>json_loads := (\<lambda>s. Some (JObj [(asc ''csw_gate_status'', JStr (asc ''fail''))]))\<rparr>"

theorem final_gate_run_result_witness:
  "\<exists>oc w'. final_gate_run gate_env demo_session (Some demo_responder) False demo_world = (Inr oc, w')
     \<and> go_verdict oc = FAIL \<and> map fail_count (sessions w') = [1]
     \<and> map s_stage (sessions w') = [QA_ACTIVE]"
proof -
  let ?run = "final_gate_run gate_env demo_session (Some demo_responder) False demo_world"
  have v: "map_sum id go_verdict (fst ?run) = Inr FAIL"
    by code_simp
  obtain oc w' where run: "?run = (Inr oc, w')" and fail: "go_verdict oc = FAIL"
    using v by (cases ?run; cases "fst ?run") auto
  have "map fail_count (sessions w') = [1]" "map s_stage (sessions w') = [QA_ACTIVE]"
    using final_gate_run_result [OF run] fail
    by (simp_all add: demo_world_def demo_session_def new_session_def)
  with run fail show ?thesis by (intro exI [of _ oc] exI [of _ w']) simp
qed

end
