(* ===== verification/Summary.thy ===== *)
theory Summary imports FinalGate begin

text \<open>
  pipeline/build\_summary.py: the brief for the responder and the audit file with the counts
  of findings per pillar and severity.
\<close>

text \<open>\<open>str(x)\<close> as an f-string prints it; lists and dicts come from the environment.\<close>

fun json_str :: "env \<Rightarrow> json \<Rightarrow> ustr" where
  "json_str e (JStr s) = s"
| "json_str e (JInt i) = int_digits i"
| "json_str e (JBool b) = (if b then asc ''True'' else asc ''False'')"
| "json_str e JNull = asc ''None''"
| "json_str e j = py_repr e j"

text \<open>\<open>by_pillar[pillar][severity] += 1\<close> over the rows, keys in order of first use.\<close>

definition row_severity :: "obj \<Rightarrow> json" where
  "row_severity r = obj_get_or r ''severity'' (JStr (asc ''?''))"

definition by_pillar :: "obj list \<Rightarrow> (json \<times> (json \<times> nat) list) list" where
  "by_pillar rows = fold (\<lambda>r. bump [] (bump 0 Suc (row_severity r)) (row_pillar r)) rows []"

definition pillar_line :: "env \<Rightarrow> json \<times> (json \<times> nat) list \<Rightarrow> ustr" where
  "pillar_line e pc = asc ''- '' @ json_str e (fst pc) @ asc '': '' @
     join (asc '', '') (map (\<lambda>(k, v). json_str e k @ asc ''='' @ nat_digits v) (snd pc))"

definition accepted_line :: "env \<Rightarrow> obj \<Rightarrow> ustr" where
  "accepted_line e r = asc ''- ['' @ json_str e (obj_get r ''pillar'') @ asc ''/'' @
     json_str e (obj_get r ''severity'') @ asc ''] '' @ json_str e (obj_get r ''issue'')"

definition unresolvable_line :: "env \<Rightarrow> obj \<Rightarrow> ustr" where
  "unresolvable_line e r = asc ''- ['' @ json_str e (obj_get r ''pillar'') @ asc ''] '' @
     json_str e (obj_get r ''issue'') @ [32, 8212, 32] @ json_str e (obj_get r ''unresolvable_reason'')"

text \<open>
  The lines joined with newlines into \<open>summary_audit.md\<close>. The last one is the dissent file
  (or the empty text), which the model keeps as its list of blocks; it is not repeated here.
\<close>

definition audit_lines :: "env \<Rightarrow> session \<Rightarrow> obj list \<Rightarrow> ustr list" where
  "audit_lines e s rows =
     [asc ''# Audit '' @ [8212, 32] @ subject_or_untitled s,
      asc ''Session: '' @ s_id s @ [32, 183] @ asc '' Rounds: '' @ int_digits (round_no s) @ [32, 183] @
        asc '' Verdict: '' @ (case s_verdict s of None \<Rightarrow> asc ''None'' | Some v \<Rightarrow> asc (verdict_value v)),
      [10] @ asc ''## Findings counts'']
     @ map (pillar_line e) (by_pillar rows)
     @ [[10] @ asc ''## Accepted ('' @ nat_digits (length (accepted_rows rows)) @ asc '')'']
     @ map (accepted_line e) (accepted_rows rows)
     @ [[10] @ asc ''## Unresolvable ('' @ nat_digits (length (unresolvable_rows rows)) @ asc '')'']
     @ map (unresolvable_line e) (unresolvable_rows rows)
     @ [[10] @ asc ''## Dissent'' @ [10]]"

definition require_hashable :: "obj list \<Rightarrow> unit act" where
  "require_hashable rows =
     (if list_all (\<lambda>r. hashable (row_pillar r) \<and> hashable (row_severity r)) rows
      then ret () else raise_exn TypeError)"

definition summary_run :: "env \<Rightarrow> session \<Rightarrow> user option \<Rightarrow> user option \<Rightarrow> unit act" where
  "summary_run e s requester responder =
     bnd (read_revised s) (\<lambda>revised.
     bnd (gets (\<lambda>w. dissent (folder_at w (key_of s)))) (\<lambda>dis.
     bnd (load_findings s) (\<lambda>rows.
     bnd (now_iso e) (\<lambda>ts.
     case requester of None \<Rightarrow> raise_exn AttributeError
     | Some rq_user \<Rightarrow>
     bnd (lift_sum (persona_request (cfg_default_model e) 6144 responder s
            (ReqBuildSummary (subject_or_untitled s) (round_no s) ts (display_name rq_user)
               revised (accepted_rows rows) dis (unresolvable_rows rows)))) (\<lambda>rq.
     andthen (require_keys [''pillar'', ''severity'', ''issue''] (accepted_rows rows))
     (andthen (require_keys [''pillar'', ''issue'', ''unresolvable_reason''] (unresolvable_rows rows))
     (bnd (llm_ask e rq) (\<lambda>resp.
     andthen (log_llm_call (s_id s) ''build_summary'' resp)
     (andthen (folder_act s (\<lambda>d. d\<lparr>summary_md := Some (rs_content resp)\<rparr>))
     (andthen (require_hashable rows)
     (folder_act s (\<lambda>d. d\<lparr>summary_audit_md := Some (audit_lines e s rows)\<rparr>))))))))))))"

context session_effects
begin

lemma steps_summary_run [step_rules]: "own s \<Longrightarrow> steps R (summary_run e s rq rs)"
  unfolding summary_run_def require_hashable_def by (intro steps_intros step_rules)

end

text \<open>The audit counts are complete: summed over all pillars and severities they give the
  number of findings of the session.\<close>

theorem audit_counts_complete:
  "sum_list (map (\<lambda>pc. sum_list (map snd (snd pc))) (by_pillar rows)) = length rows"
proof -
  have "sum_list (map snd (bump 0 Suc k kvs)) = Suc (sum_list (map snd kvs))" for k :: json and kvs
    using sum_bump [of id Suc 0 k kvs] by simp
  then show ?thesis
    using sum_fold_bump [of "\<lambda>v. sum_list (map snd v)" "\<lambda>r. bump 0 Suc (row_severity r)" "[]" row_pillar rows "[]"]
    by (simp add: by_pillar_def comp_def)
qed

end
