(* ===== verification/Deliver.thy ===== *)
theory Deliver imports Summary begin

text \<open>
  pipeline/deliver.py and its backends (delivery\_backends/lark\_dm.py, lark\_doc.py,
  local\_path.py, slack\_dm.py): the fan-out of the brief when a session closes. The Lark and
  Slack clients and the copying of files into the archive are outside the model.
\<close>

section \<open>Targets\<close>

record delivery_target =
  dt_name :: ustr
  dt_backend :: ustr
  dt_open_id :: ustr
  dt_path :: ustr
  dt_payload :: "ustr list"
  dt_role :: ustr

record delivery_result =
  dr_backend :: ustr
  dr_ok :: bool
  dr_detail :: ustr
  dr_msg_id :: ustr
  dr_doc_url :: ustr

text \<open>\<open>str.replace\<close>; \<open>k\<close> characters of a match are still to be skipped.\<close>

fun replace_from :: "nat \<Rightarrow> ustr \<Rightarrow> ustr \<Rightarrow> ustr \<Rightarrow> ustr" where
  "replace_from k p r [] = []"
| "replace_from k p r (c # s) =
     (if 0 < k then replace_from (k - 1) p r s
      else if startswith (c # s) p then r @ replace_from (length p - 1) p r s
      else c # replace_from 0 p r s)"

definition replace_sub :: "ustr \<Rightarrow> ustr \<Rightarrow> ustr \<Rightarrow> ustr" where
  "replace_sub s p r = replace_from 0 p r s"

definition default_targets :: "env \<Rightarrow> ustr \<Rightarrow> ustr \<Rightarrow> delivery_target list" where
  "default_targets e requester responder =
     [\<lparr>dt_name = asc ''responder-doc'', dt_backend = asc ''lark_doc'', dt_open_id = responder,
        dt_path = [], dt_payload = [asc ''summary'', asc ''final''], dt_role = asc ''responder''\<rparr>,
      \<lparr>dt_name = asc ''responder-dm'', dt_backend = asc ''lark_dm'', dt_open_id = responder,
        dt_path = [], dt_payload = [asc ''summary''], dt_role = asc ''responder''\<rparr>,
      \<lparr>dt_name = asc ''requester-dm'', dt_backend = asc ''lark_dm'', dt_open_id = requester,
        dt_path = [], dt_payload = [asc ''summary''], dt_role = asc ''requester''\<rparr>,
      \<lparr>dt_name = asc ''archive-local'', dt_backend = asc ''local_path'', dt_open_id = [],
        dt_path = fs_root e @ asc ''/_archive'',
        dt_payload = [asc ''summary'', asc ''summary_audit'', asc ''final'', asc ''conversation'',
          asc ''annotations'', asc ''dissent'', asc ''verdict''], dt_role = []\<rparr>]"

text \<open>
  One configured target. \<open>it["name"]\<close> and \<open>it["backend"]\<close> are required; a value of a type the
  code does not expect is \<open>outside_model\<close>, except where the code itself raises.
\<close>

definition str_or_outside :: "json \<Rightarrow> exn + ustr" where
  "str_or_outside j = (case j of JStr s \<Rightarrow> Inr s | _ \<Rightarrow> Inl (OtherError (asc ''outside the model'')))"

fun str_list :: "json list \<Rightarrow> exn + ustr list" where
  "str_list [] = Inr []"
| "str_list (j # js) =
     (case str_or_outside j of Inl x \<Rightarrow> Inl x
      | Inr s \<Rightarrow> (case str_list js of Inl x \<Rightarrow> Inl x | Inr ss \<Rightarrow> Inr (s # ss)))"

definition parse_target :: "ustr \<Rightarrow> ustr \<Rightarrow> json \<Rightarrow> exn + delivery_target" where
  "parse_target requester responder j =
     (case j of JObj d \<Rightarrow>
       (case map_of d (asc ''name'') of None \<Rightarrow> Inl KeyError | Some jn \<Rightarrow>
       (case map_of d (asc ''backend'') of None \<Rightarrow> Inl KeyError | Some jb \<Rightarrow>
       (case str_or_outside jn of Inl x \<Rightarrow> Inl x | Inr name \<Rightarrow>
       (case str_or_outside jb of Inl x \<Rightarrow> Inl x | Inr backend \<Rightarrow>
       (case obj_get_or d ''open_id'' (JStr []) of
          JStr oid \<Rightarrow>
           (case str_or_outside (obj_get_or d ''path'' (JStr [])) of Inl x \<Rightarrow> Inl x | Inr path \<Rightarrow>
           (case (case obj_get_or d ''payload'' (JArr []) of
                    JArr js \<Rightarrow> str_list js
                  | JStr s \<Rightarrow> Inr (map (\<lambda>c. [c]) s)
                  | JObj ps \<Rightarrow> Inr (map fst ps)
                  | _ \<Rightarrow> Inl TypeError) of Inl x \<Rightarrow> Inl x | Inr pl \<Rightarrow>
           (case str_or_outside (obj_get_or d ''role'' (JStr [])) of Inl x \<Rightarrow> Inl x | Inr role \<Rightarrow>
             Inr \<lparr>dt_name = name, dt_backend = backend,
               dt_open_id = replace_sub (replace_sub oid (asc ''{{RESPONDER}}'') responder)
                              (asc ''{{REQUESTER}}'') requester,
               dt_path = path, dt_payload = pl, dt_role = role\<rparr>)))
        | _ \<Rightarrow> Inl AttributeError)))))
     | _ \<Rightarrow> Inl TypeError)"

fun parse_targets :: "ustr \<Rightarrow> ustr \<Rightarrow> json list \<Rightarrow> exn + delivery_target list" where
  "parse_targets requester responder [] = Inr []"
| "parse_targets requester responder (j # js) =
     (case parse_target requester responder j of Inl x \<Rightarrow> Inl x
      | Inr t \<Rightarrow> (case parse_targets requester responder js of Inl x \<Rightarrow> Inl x
                  | Inr ts \<Rightarrow> Inr (t # ts)))"

text \<open>Iterating \<open>on_close\<close>: the items of a list; the items of a string or a dict are strings, which
  have no \<open>it["name"]\<close>.\<close>

definition configured_targets :: "ustr \<Rightarrow> ustr \<Rightarrow> json \<Rightarrow> exn + delivery_target list" where
  "configured_targets requester responder on_close =
     (case on_close of
        JArr js \<Rightarrow> parse_targets requester responder js
      | JStr s \<Rightarrow> if s = [] then Inr [] else Inl TypeError
      | JObj ps \<Rightarrow> if ps = [] then Inr [] else Inl TypeError
      | _ \<Rightarrow> Inl TypeError)"

definition load_targets :: "env \<Rightarrow> ustr \<Rightarrow> ustr \<Rightarrow> delivery_target list act" where
  "load_targets e requester responder =
     bnd (ask (\<lambda>n. fs_file e n (fs_root e @ asc ''/delivery_targets.json''))) (\<lambda>cfg.
     case cfg of
       None \<Rightarrow> ret (default_targets e requester responder)
     | Some t \<Rightarrow>
         (case json_loads e t of
            None \<Rightarrow> raise_exn ValueError
          | Some (JObj raw) \<Rightarrow>
              lift_sum (configured_targets requester responder (obj_get_or raw ''on_close'' (JArr [])))
          | Some _ \<Rightarrow> raise_exn AttributeError))"

section \<open>Backends\<close>

definition wants :: "string \<Rightarrow> delivery_target \<Rightarrow> bool" where
  "wants k t \<longleftrightarrow> asc k \<in> set (dt_payload t)"

definition summary_text :: "world \<Rightarrow> session \<Rightarrow> ustr" where
  "summary_text w s =
     (case summary_md (folder_at w (key_of s)) of None \<Rightarrow> [] | Some t \<Rightarrow> universal_newlines t)"

definition dm_content_hash :: "env \<Rightarrow> world \<Rightarrow> session \<Rightarrow> delivery_target \<Rightarrow> ustr \<Rightarrow> ustr" where
  "dm_content_hash e w s t url =
     text_hash e ((if wants ''summary'' t then summary_text w s else []) @ url)"

definition doc_line :: "ustr \<Rightarrow> ustr list" where
  "doc_line url = (if url = [] then [] else [[10, 128196] @ asc '' Lark Doc: '' @ url])"

definition truncate_dm :: "ustr \<Rightarrow> ustr" where
  "truncate_dm s = (if 4000 < length s then take 3980 s @ [10, 8230] @ asc ''(truncated)'' else s)"

definition lark_dm_deliver :: "env \<Rightarrow> session \<Rightarrow> delivery_target \<Rightarrow> ustr \<Rightarrow> delivery_result act" where
  "lark_dm_deliver e s t url =
     bnd (if wants ''summary'' t then bnd (read_file s summary_md) (\<lambda>x. ret [x]) else ret []) (\<lambda>parts.
     let body = truncate_dm (strip (join [10, 10] (parts @ doc_line url))) in
     bnd (send_dm_text e (dt_open_id t) (DmSummary body)) (\<lambda>mid.
     ret \<lparr>dr_backend = asc ''lark_dm'', dr_ok = True,
       dr_detail = asc ''sent '' @ nat_digits (length body) @ asc '' chars to '' @ dt_open_id t,
       dr_msg_id = mid, dr_doc_url = []\<rparr>))"

definition doc_parts :: "folder \<Rightarrow> delivery_target \<Rightarrow> ustr list" where
  "doc_parts d t =
     (case summary_md d of None \<Rightarrow> [] | Some x \<Rightarrow> if wants ''summary'' t then [universal_newlines x] else [])
     @ (case revised_md d of None \<Rightarrow> []
        | Some x \<Rightarrow> if wants ''final'' t
            then [[10, 10] @ asc ''---'' @ [10, 10] @ asc ''# '' @ [26368, 32456, 26448, 26009, 10, 10]
                  @ universal_newlines x] else [])"

definition lark_doc_deliver :: "env \<Rightarrow> session \<Rightarrow> delivery_target \<Rightarrow> delivery_result act" where
  "lark_doc_deliver e s t =
     bnd (gets (\<lambda>w. join [10] (doc_parts (folder_at w (key_of s)) t))) (\<lambda>body.
     bnd (call (\<lambda>n. lark_create_doc e n (asc ''Review '' @ [183, 32] @
            (case subject s of None \<Rightarrow> s_id s | Some x \<Rightarrow> if x = [] then s_id s else x)) body)) (\<lambda>doc.
     bnd (lift_sum (str_or_outside (obj_get_or doc ''document_id'' (JStr [])))) (\<lambda>did.
     ret \<lparr>dr_backend = asc ''lark_doc'', dr_ok = (did \<noteq> []), dr_detail = did, dr_msg_id = [],
       dr_doc_url = (if did = [] then [] else asc ''https://feishu.cn/docx/'' @ did)\<rparr>)))"

text \<open>The files of the session a payload key stands for, if they exist.\<close>

definition archive_file :: "folder \<Rightarrow> ustr \<Rightarrow> ustr list" where
  "archive_file d key =
     (if key = asc ''summary'' then (if summary_md d = None then [] else [asc ''summary.md''])
      else if key = asc ''summary_audit'' then
        (if summary_audit_md d = None then [] else [asc ''summary_audit.md''])
      else if key = asc ''final'' then (if revised_md d = None then [] else [asc ''final/revised.md''])
      else if key = asc ''conversation'' then [asc ''conversation.jsonl'']
      else if key = asc ''annotations'' then [asc ''annotations.jsonl'']
      else if key = asc ''dissent'' then [asc ''dissent.md'']
      else if key = asc ''verdict'' then (if verdict_json d = None then [] else [asc ''verdict.json''])
      else [])"

definition local_deliver :: "env \<Rightarrow> session \<Rightarrow> delivery_target \<Rightarrow> delivery_result act" where
  "local_deliver e s t =
     bnd (gets (\<lambda>w. concat (map (archive_file (folder_at w (key_of s))) (dt_payload t)))) (\<lambda>files.
     andthen (call (\<lambda>n. archive_copy e n (dt_path t) (s_id s) files))
     (ret \<lparr>dr_backend = asc ''local_path'', dr_ok = True,
       dr_detail = asc ''archived '' @ nat_digits (length files) @ asc '' files to '' @
         (if dt_path t = [] then fs_root e @ asc ''/users/'' @ requester_oid s @ asc ''/sessions/_archive''
          else dt_path t) @ asc ''/'' @ s_id s, dr_msg_id = [],
       dr_doc_url = []\<rparr>))"

definition slack_result :: "bool \<Rightarrow> ustr \<Rightarrow> ustr \<Rightarrow> delivery_result" where
  "slack_result ok detail mid = \<lparr>dr_backend = asc ''slack_dm'', dr_ok = ok, dr_detail = detail,
     dr_msg_id = mid, dr_doc_url = []\<rparr>"

definition slack_deliver :: "env \<Rightarrow> session \<Rightarrow> delivery_target \<Rightarrow> ustr \<Rightarrow> delivery_result act" where
  "slack_deliver e s t url =
     bnd (gets (\<lambda>w. case summary_md (folder_at w (key_of s)) of None \<Rightarrow> []
            | Some x \<Rightarrow> if wants ''summary'' t then [universal_newlines x] else [])) (\<lambda>parts.
     let body = strip (join [10, 10] (parts @
           (if url = [] then [] else [[10, 128196] @ asc '' Full report: '' @ url]))) in
     if body = [] then ret (slack_result False (asc ''nothing to deliver (empty summary)'') [])
     else catch
       (bnd (call (\<lambda>n. slack_send_dm e n (dt_open_id t) body)) (\<lambda>mid.
        ret (slack_result True (asc ''slack DM sent ('' @ nat_digits (length body) @ asc '' chars) to ''
               @ dt_open_id t) mid)))
       (\<lambda>x. ret (slack_result False (asc ''slack DM failed: '' @ exn_text e x) [])))"

section \<open>One target\<close>

definition or_else :: "ustr \<Rightarrow> ustr \<Rightarrow> ustr" where
  "or_else a b = (if a = [] then b else a)"

definition target_key :: "delivery_target \<Rightarrow> ustr" where
  "target_key t = or_else (dt_open_id t) (or_else (dt_path t) (asc ''-''))"

definition body_hash :: "env \<Rightarrow> world \<Rightarrow> session \<Rightarrow> delivery_target \<Rightarrow> ustr \<Rightarrow> ustr" where
  "body_hash e w s t url =
     (if dt_backend t = asc ''lark_dm'' then dm_content_hash e w s t url
      else if dt_backend t = asc ''local_path'' then text_hash e (join (asc '','') (dt_payload t))
      else if dt_backend t = asc ''lark_doc'' then
        text_hash e (asc ''doc:'' @ join (asc '','') (dt_payload t))
      else [])"

definition known_backend :: "env \<Rightarrow> ustr \<Rightarrow> bool" where
  "known_backend e b \<longleftrightarrow> b = asc ''lark_dm'' \<or> b = asc ''lark_doc'' \<or> b = asc ''local_path''
     \<or> b = asc ''slack_dm'' \<and> cfg_slack_enabled e"

definition backend_deliver :: "env \<Rightarrow> session \<Rightarrow> delivery_target \<Rightarrow> ustr \<Rightarrow> delivery_result act" where
  "backend_deliver e s t url =
     (if dt_backend t = asc ''lark_dm'' then lark_dm_deliver e s t url
      else if dt_backend t = asc ''lark_doc'' then lark_doc_deliver e s t
      else if dt_backend t = asc ''local_path'' then local_deliver e s t
      else slack_deliver e s t url)"

definition outbound_row ::
  "session \<Rightarrow> delivery_target \<Rightarrow> ustr \<Rightarrow> ustr \<Rightarrow> bool \<Rightarrow> ustr option \<Rightarrow> outbound" where
  "outbound_row s t h mid ok err = \<lparr>ob_session_id = s_id s, ob_to_open_id = target_key t,
     ob_msg_type = dt_backend t, ob_content_hash = or_else h (asc ''-''),
     ob_lark_msg_id = (if mid = [] then None else Some mid), ob_ok = ok, ob_error = err\<rparr>"

definition deliver_one ::
  "env \<Rightarrow> session \<Rightarrow> ustr \<Rightarrow> delivery_target \<Rightarrow> delivery_result act" where
  "deliver_one e s url t =
     (if \<not> known_backend e (dt_backend t) then
        andthen (log_outbound \<lparr>ob_session_id = s_id s,
            ob_to_open_id = or_else (dt_open_id t) (dt_path t), ob_msg_type = dt_backend t,
            ob_content_hash = asc ''-'', ob_lark_msg_id = None, ob_ok = False,
            ob_error = Some (asc ''missing backend'')\<rparr>)
        (ret \<lparr>dr_backend = dt_backend t, dr_ok = False, dr_detail = asc ''no such backend'',
          dr_msg_id = [], dr_doc_url = []\<rparr>)
      else
        bnd (gets (\<lambda>w. body_hash e w s t url)) (\<lambda>h.
        bnd (gets (\<lambda>w. h \<noteq> [] \<and> dt_open_id t \<noteq> [] \<and> already_sent w (s_id s) (dt_open_id t) h)) (\<lambda>dup.
        if dup then ret \<lparr>dr_backend = dt_backend t, dr_ok = True, dr_detail = asc ''dedup hit'',
            dr_msg_id = [], dr_doc_url = []\<rparr>
        else catch
          (bnd (backend_deliver e s t url) (\<lambda>r.
           andthen (log_outbound (outbound_row s t h (dr_msg_id r) (dr_ok r)
                     (if dr_ok r then None else Some (dr_detail r))))
           (ret r)))
          (\<lambda>x.
           andthen (log_outbound (outbound_row s t h [] False (Some (take 500 (exn_text e x)))))
           (ret \<lparr>dr_backend = dt_backend t, dr_ok = False, dr_detail = take 500 (exn_text e x),
             dr_msg_id = [], dr_doc_url = []\<rparr>)))))"

section \<open>The fan-out\<close>

definition is_doc_target :: "delivery_target \<Rightarrow> bool" where
  "is_doc_target t \<longleftrightarrow> dt_backend t = asc ''lark_doc''"

text \<open>The document targets, carrying the URL of the last document created.\<close>

fun deliver_docs ::
  "env \<Rightarrow> session \<Rightarrow> ustr \<Rightarrow> delivery_target list \<Rightarrow> (delivery_result list \<times> ustr) act" where
  "deliver_docs e s url [] = ret ([], url)"
| "deliver_docs e s url (t # ts) =
     bnd (deliver_one e s url t) (\<lambda>r.
     bnd (deliver_docs e s (if dr_ok r \<and> dr_doc_url r \<noteq> [] then dr_doc_url r else url) ts)
       (\<lambda>(rs, u). ret (r # rs, u)))"

definition deliver_run :: "env \<Rightarrow> session \<Rightarrow> delivery_target list \<Rightarrow> delivery_result list act" where
  "deliver_run e s targets =
     andthen (update_session (s_id s) [Set_stage CLOSING])
     (bnd (deliver_docs e s [] (filter is_doc_target targets)) (\<lambda>(docs, url).
      bnd (map_prog (deliver_one e s url) (filter (\<lambda>t. \<not> is_doc_target t) targets)) (\<lambda>others.
      let results = docs @ others in
      if list_all dr_ok results then
        bnd (now_iso e) (\<lambda>ts.
        andthen (update_session (s_id s)
          [Set_status CLOSED, Set_stage CLOSED_stage, Set_closed_at (Some ts)])
        (ret results))
      else ret results)))"

section \<open>Steps\<close>

context call_effects
begin

lemma steps_load_targets [step_rules]: "steps R (load_targets e req resp)"
proof -
  have "steps R (case v of JObj raw \<Rightarrow> lift_sum (f raw) | _ \<Rightarrow> raise_exn AttributeError)"
    for v and f :: "obj \<Rightarrow> exn + delivery_target list"
    by (cases v) (auto intro!: steps_intros)
  then show ?thesis
    unfolding load_targets_def by (intro steps_bnd steps_ask steps_option steps_ret steps_raise)
qed

lemma steps_backend_deliver [step_rules]: "steps R (backend_deliver e s t url)"
  unfolding backend_deliver_def lark_dm_deliver_def lark_doc_deliver_def local_deliver_def
    slack_deliver_def
  by (intro steps_intros step_rules)

end

context session_effects
begin

lemma steps_deliver_one [step_rules]: "own s \<Longrightarrow> steps R (deliver_one e s url t)"
  unfolding deliver_one_def
  by (intro steps_intros step_rules) (simp_all add: outbound_row_def)

lemma steps_deliver_docs [step_rules]: "own s \<Longrightarrow> steps R (deliver_docs e s url ts)"
  by (induction ts arbitrary: url) (auto intro!: steps_intros step_rules)

end

context staged_effects
begin

lemma steps_deliver_run [step_rules]: "own s \<Longrightarrow> {CLOSING, CLOSED_stage} \<subseteq> S \<Longrightarrow> steps R (deliver_run e s targets)"
  unfolding deliver_run_def by (intro steps_intros step_rules) simp_all

end

section \<open>Properties\<close>

text \<open>Delivering a target appends an outbound row at most.\<close>

definition front :: "world \<Rightarrow> world \<Rightarrow> bool" where
  "front w w' \<longleftrightarrow> sessions w' = sessions w \<and> folders w' = folders w \<and> users w' = users w
     \<and> llm_calls w' = llm_calls w \<and> prefix (outbounds w) (outbounds w')"

interpretation front_kept: call_effects front
  by unfold_locales (auto simp: front_def w_sent_def intro: prefix_order.trans)

lemma front_log_outbound [step_rules]: "steps front (log_outbound ob)"
  by (auto simp: steps_def front_def log_outbound_def prog_simps)

lemma front_deliver_one [step_rules]: "steps front (deliver_one e s url t)"
  unfolding deliver_one_def by (intro front_kept.steps_intros step_rules)

lemma front_deliver_docs [step_rules]: "steps front (deliver_docs e s url ts)"
  by (induction ts arbitrary: url) (auto intro!: front_kept.steps_intros step_rules)

lemma map_prog_length: "map_prog f xs w = (Inr ys, w') \<Longrightarrow> length ys = length xs"
  by (induction xs arbitrary: w ys) (auto simp: run_simps elim!: bnd_InrE)

lemma deliver_docs_length:
  "deliver_docs e s url ts w = (Inr (rs, u), w') \<Longrightarrow> length rs = length ts"
  by (induction ts arbitrary: url w rs u) (auto simp: run_simps elim!: bnd_InrE)

text \<open>C17: A session is closed exactly when every delivery succeeded. There is one result per
  target; when one failed the session stays in \<open>closing\<close> with its status unchanged.\<close>

theorem deliver_run_closes:
  assumes "deliver_run e s targets w = (Inr rs, w')"
  shows "length rs = length targets
    \<and> (\<exists>ts. sessions w' = map (\<lambda>r. if s_id r = s_id s
          then (if list_all dr_ok rs
                then r\<lparr>s_status := CLOSED, s_stage := CLOSED_stage, closed_at := Some ts\<rparr>
                else r\<lparr>s_stage := CLOSING\<rparr>)
          else r) (sessions w))
    \<and> folders w' = folders w"
proof -
  let ?w1 = "w_update_session (s_id s) [Set_stage CLOSING] w"
  obtain docs url w2 others w3 where
      d: "deliver_docs e s [] (filter is_doc_target targets) ?w1 = (Inr (docs, url), w2)"
    and o': "map_prog (deliver_one e s url) (filter (\<lambda>t. \<not> is_doc_target t) targets) w2 = (Inr others, w3)"
    and fin: "(if list_all dr_ok (docs @ others) then
        bnd (now_iso e) (\<lambda>ts. andthen (update_session (s_id s)
          [Set_status CLOSED, Set_stage CLOSED_stage, Set_closed_at (Some ts)]) (ret (docs @ others)))
        else ret (docs @ others)) w3 = (Inr rs, w')"
    using assms by (auto simp: deliver_run_def run_simps Let_def elim!: bnd_InrE)
  have "front ?w1 w2" using front_deliver_docs d by (rule stepsE)
  moreover have "front w2 w3"
    using front_kept.steps_map_prog [OF front_deliver_one] o' by (rule stepsE)
  ultimately have w3: "sessions w3 = sessions ?w1" "folders w3 = folders w"
    by (simp_all add: front_def)
  have "length (docs @ others) = length targets"
    using deliver_docs_length [OF d] map_prog_length [OF o']
      sum_length_filter_compl [of is_doc_target targets] by simp
  then show ?thesis
    using fin w3 by (auto simp: run_simps sessions_w_update w_update_session_def split: if_splits)
qed

lemma body_hash_nonempty:
  "dt_backend t \<in> {asc ''lark_dm'', asc ''lark_doc'', asc ''local_path''} \<Longrightarrow> body_hash e w s t url \<noteq> []"
  by (auto simp: body_hash_def dm_content_hash_def text_hash_def)

lemma body_hash_front: "front w w' \<Longrightarrow> body_hash e w' s t url = body_hash e w s t url"
  by (simp add: front_def body_hash_def dm_content_hash_def summary_text_def folder_at_def)

lemma front_backend_deliver: "steps front (backend_deliver e s t url)"
  by (rule front_kept.steps_backend_deliver)

lemma deliver_one_records:
  assumes run: "deliver_one e s url t w = (Inr r, w')" and ok: "dr_ok r"
    and t: "dt_backend t \<in> {asc ''lark_dm'', asc ''lark_doc'', asc ''local_path''}" "dt_open_id t \<noteq> []"
  shows "already_sent w' (s_id s) (dt_open_id t) (body_hash e w s t url)"
proof (cases "already_sent w (s_id s) (dt_open_id t) (body_hash e w s t url)")
  case True
  have "prefix (outbounds w) (outbounds w')"
    using stepsE [OF front_deliver_one run] by (simp add: front_def)
  then show ?thesis using True by (auto simp: already_sent_def list_ex_iff prefix_def)
next
  case False
  let ?h = "body_hash e w s t url"
  have known: "known_backend e (dt_backend t)" using t(1) by (auto simp: known_backend_def)
  obtain b w1 where "backend_deliver e s t url w = (b, w1)" by (cases "backend_deliver e s t url w")
  then have "\<exists>row w2. w' = w_outbound (outbound_row s t ?h (dr_msg_id r) True None) w2"
    using run ok known False
    by (auto simp: deliver_one_def run_simps catch_def bnd_def log_outbound_def gets_def
        modify_def ret_def raise_exn_def split: sum.splits if_splits prod.splits)
  then show ?thesis
    using body_hash_nonempty [OF t(1)] t(2)
    by (auto simp: already_sent_def outbound_row_def target_key_def or_else_def)
qed

text \<open>C23: Delivery to a Lark message, Lark document or archive target that names a recipient is
  idempotent: delivering it again right after a success, with the same document link, reports
  success, sends nothing and changes nothing. Slack targets and targets without a recipient have no
  such protection, and another link makes another message (\<open>slack_target_never_deduplicated\<close>,
  \<open>repeated_close_sends_again\<close>).\<close>

theorem deliver_one_idempotent:
  assumes "deliver_one e s url t w = (Inr r, w')" and "dr_ok r"
    and "dt_backend t \<in> {asc ''lark_dm'', asc ''lark_doc'', asc ''local_path''}"
    and "dt_open_id t \<noteq> []"
  shows "\<exists>r'. deliver_one e s url t w' = (Inr r', w') \<and> dr_ok r' \<and> dr_detail r' = asc ''dedup hit''"
proof -
  have front: "front w w'" using front_deliver_one assms(1) by (rule stepsE)
  have known: "known_backend e (dt_backend t)" using assms(3) by (auto simp: known_backend_def)
  have "already_sent w' (s_id s) (dt_open_id t) (body_hash e w' s t url)"
    using deliver_one_records [OF assms] by (simp add: body_hash_front [OF front])
  then show ?thesis
    using known assms(4) body_hash_nonempty [OF assms(3)]
    by (simp add: deliver_one_def run_simps)
qed

definition closing_world :: world where
  "closing_world = w_folder (key_of demo_session) (\<lambda>d. d\<lparr>summary_md := Some (asc ''brief'')\<rparr>) demo_world"

theorem deliver_run_closes_witness:
  "\<exists>rs w'. deliver_run demo_env demo_session
       (default_targets demo_env (asc ''ou_ann'') (asc ''ou_boss'')) closing_world = (Inr rs, w')
     \<and> list_all dr_ok rs \<and> map s_status (sessions w') = [CLOSED]"
proof -
  let ?ts = "default_targets demo_env (asc ''ou_ann'') (asc ''ou_boss'')"
  have ok: "map_sum id (list_all dr_ok) (fst (deliver_run demo_env demo_session ?ts closing_world)) = Inr True"
    by code_simp
  obtain rs w' where run: "deliver_run demo_env demo_session ?ts closing_world = (Inr rs, w')"
    and all: "list_all dr_ok rs"
    using ok by (cases "deliver_run demo_env demo_session ?ts closing_world";
        cases "fst (deliver_run demo_env demo_session ?ts closing_world)") auto
  have "sessions closing_world = [demo_session\<lparr>s_stage := QA_ACTIVE\<rparr>]"
    by (simp add: closing_world_def demo_world_def)
  then have "map s_status (sessions w') = [CLOSED]"
    using deliver_run_closes [OF run] all by auto
  with run all show ?thesis by (intro exI [of _ rs] exI [of _ w']) simp
qed

definition boss_dm :: delivery_target where
  "boss_dm = \<lparr>dt_name = asc ''responder-dm'', dt_backend = asc ''lark_dm'',
     dt_open_id = asc ''ou_boss'', dt_path = [], dt_payload = [asc ''summary''], dt_role = []\<rparr>"

theorem deliver_one_idempotent_witness:
  "\<exists>r w' r'. deliver_one demo_env demo_session [] boss_dm closing_world = (Inr r, w')
     \<and> deliver_one demo_env demo_session [] boss_dm w' = (Inr r', w') \<and> dr_ok r'"
proof -
  let ?d = "deliver_one demo_env demo_session [] boss_dm closing_world"
  have ok: "map_sum id dr_ok (fst ?d) = Inr True" by code_simp
  obtain r w' where run: "?d = (Inr r, w')" and r: "dr_ok r"
    using ok by (cases ?d; cases "fst ?d") auto
  have "dt_backend boss_dm = asc ''lark_dm''" "dt_open_id boss_dm \<noteq> []" by (simp_all add: boss_dm_def)
  then obtain r' where "deliver_one demo_env demo_session [] boss_dm w' = (Inr r', w')" "dr_ok r'"
    using deliver_one_idempotent [OF run r] by auto
  with run show ?thesis by (intro exI [of _ r] exI [of _ w'] exI [of _ r']) simp
qed

text \<open>
  The link is part of the message and of its hash, and a document target that is skipped
  yields no link: so a run that is repeated because another target failed sends the direct
  messages again.
\<close>

definition failing_archive_env :: env where
  "failing_archive_env = demo_env\<lparr>archive_copy := (\<lambda>n p i fs. Inl (OtherError (asc ''disk full'')))\<rparr>"

definition sent_to :: "ustr \<Rightarrow> world \<Rightarrow> nat" where
  "sent_to oid w = length (filter (\<lambda>m. sd_to m = oid \<and> sd_ok m) (sent w))"

text \<open>Repeating a close whose archive step failed sends the requester the brief a second
  time, although the first message was delivered: with the default targets, one successful
  message after the first run, two after the second, and the session is still not closed.\<close>

theorem repeated_close_sends_again:
  "let ts = default_targets failing_archive_env (asc ''ou_ann'') (asc ''ou_boss'');
       w1 = snd (deliver_run failing_archive_env demo_session ts closing_world);
       w2 = snd (deliver_run failing_archive_env demo_session ts w1) in
   sent_to (asc ''ou_ann'') w1 = 1 \<and> sent_to (asc ''ou_ann'') w2 = 2
   \<and> map s_status (sessions w2) = [ACTIVE]"
  by code_simp

section \<open>Slack targets\<close>

text \<open>\<open>SlackDmBackend.content_hash_for\<close> computes the same hash as the one of the Lark backend; nothing calls
  it.\<close>

definition slack_content_hash :: "env \<Rightarrow> world \<Rightarrow> session \<Rightarrow> delivery_target \<Rightarrow> ustr \<Rightarrow> ustr" where
  "slack_content_hash e w s t url =
     text_hash e ((if wants ''summary'' t then summary_text w s else []) @ url)"

lemma slack_deliver_run:
  "\<exists>r v. slack_deliver e s t url w = (Inr r, v) \<and> outbounds v = outbounds w \<and> session_ids v = session_ids w
     \<and> dr_detail r \<noteq> asc ''dedup hit''"
  by (auto simp: slack_deliver_def Let_def slack_result_def call_def bnd_def gets_def ret_def catch_def session_ids_def
      split: sum.splits)

text \<open>A Slack target is never recognised as delivered: whatever rows there are, delivering it asks Slack again,
  and the row that is written carries no hash.\<close>

theorem slack_target_never_deduplicated:
  assumes "dt_backend t = asc ''slack_dm''" and "deliver_one e s url t w = (Inr r, w')"
  shows "dr_detail r \<noteq> asc ''dedup hit''
    \<and> (\<exists>ob. outbounds w' = outbounds w @ [ob] \<and> ob_content_hash ob = asc ''-'' \<and> ob_ok ob = dr_ok r)"
proof (cases "known_backend e (dt_backend t)")
  case False
  then show ?thesis
    using assms by (auto simp: deliver_one_def log_outbound_def bnd_def gets_def modify_def ret_def raise_exn_def w_outbound_def
        split: if_splits)
next
  case True
  obtain r1 v where run: "slack_deliver e s t url w = (Inr r1, v)" and v: "outbounds v = outbounds w"
    and detail: "dr_detail r1 \<noteq> asc ''dedup hit''" using slack_deliver_run [of e s t url w] by blast
  have "deliver_one e s url t w =
      catch (bnd (backend_deliver e s t url) (\<lambda>r.
           andthen (log_outbound (outbound_row s t [] (dr_msg_id r) (dr_ok r)
                     (if dr_ok r then None else Some (dr_detail r)))) (ret r)))
          (\<lambda>x. andthen (log_outbound (outbound_row s t [] [] False (Some (take 500 (exn_text e x)))))
           (ret \<lparr>dr_backend = dt_backend t, dr_ok = False, dr_detail = take 500 (exn_text e x),
             dr_msg_id = [], dr_doc_url = []\<rparr>)) w"
    using True by (simp add: deliver_one_def gets_bnd body_hash_def assms(1))
  moreover have "backend_deliver e s t url w = (Inr r1, v)"
    using run by (simp add: backend_deliver_def assms(1))
  ultimately show ?thesis
    using assms(2) v detail
    by (auto simp: bnd_def catch_def log_outbound_def gets_def modify_def ret_def raise_exn_def w_outbound_def
        outbound_row_def or_else_def split: if_splits)
qed

end
