(* ===== verification/Urls.thy ===== *)
theory Urls imports PyStr begin

text \<open>
  The URL patterns of the code (pipeline/ingest\_backends/lark\_doc.py, bitable.py, youtube.py
  and \<open>_extract_urls_simple\<close> of core/dispatcher.py). The patterns are written in a small
  regular-expression type with the semantics of Python's \<open>re\<close>: the matches of a pattern at a
  position are listed in the order backtracking tries them.
\<close>

section \<open>Patterns\<close>

datatype rx =
    Lit ustr
  | Many "int \<Rightarrow> bool"
  | Exactly nat "int \<Rightarrow> bool"
  | Lazy "int \<Rightarrow> bool"
  | Cat rx rx
  | Or rx rx
  | Maybe rx
  | Group string rx

text \<open>Length and captured groups of each match at the start of the text, first choice first.
  \<open>Many\<close> is a greedy \<open>[...]+\<close>, \<open>Lazy\<close> a lazy \<open>[...]*?\<close>.\<close>

primrec rx_match :: "rx \<Rightarrow> ustr \<Rightarrow> (nat \<times> (string \<times> ustr) list) list" where
  "rx_match (Lit p) s = (if startswith s p then [(length p, [])] else [])"
| "rx_match (Many P) s = map (\<lambda>k. (k, [])) (rev [1..<Suc (length (takeWhile P s))])"
| "rx_match (Exactly n P) s = (if n \<le> length (takeWhile P s) then [(n, [])] else [])"
| "rx_match (Lazy P) s = map (\<lambda>k. (k, [])) [0..<Suc (length (takeWhile P s))]"
| "rx_match (Cat a b) s =
     concat (map (\<lambda>(k, g). map (\<lambda>(l, h). (k + l, g @ h)) (rx_match b (drop k s))) (rx_match a s))"
| "rx_match (Or a b) s = rx_match a s @ rx_match b s"
| "rx_match (Maybe a) s = rx_match a s @ [(0, [])]"
| "rx_match (Group n a) s = map (\<lambda>(k, g). (k, (n, take k s) # g)) (rx_match a s)"

text \<open>\<open>re.sub\<close> with a replacement made from the groups.\<close>

fun rx_sub :: "nat \<Rightarrow> rx \<Rightarrow> ((string \<times> ustr) list \<Rightarrow> ustr) \<Rightarrow> ustr \<Rightarrow> ustr" where
  "rx_sub skip r f [] = []"
| "rx_sub skip r f (c # s) =
     (if 0 < skip then rx_sub (skip - 1) r f s
      else case rx_match r (c # s) of
        [] \<Rightarrow> c # rx_sub 0 r f s
      | (n, g) # _ \<Rightarrow> f g @ rx_sub (n - 1) r f s)"

text \<open>\<open>re.finditer\<close> of a pattern that matches no empty text: the matches from left to right, none
  overlapping; \<open>skip\<close> characters belong to the last match.\<close>

fun rx_iter :: "nat \<Rightarrow> rx \<Rightarrow> ustr \<Rightarrow> (ustr \<times> (string \<times> ustr) list) list" where
  "rx_iter skip r [] = []"
| "rx_iter skip r (c # s) =
     (if 0 < skip then rx_iter (skip - 1) r s
      else case rx_match r (c # s) of
        [] \<Rightarrow> rx_iter 0 r s
      | (n, g) # _ \<Rightarrow> (take n (c # s), g) # rx_iter (n - 1) r s)"

definition group :: "string \<Rightarrow> (string \<times> ustr) list \<Rightarrow> ustr" where
  "group n g = (case map_of g n of None \<Rightarrow> [] | Some t \<Rightarrow> t)"

fun cats :: "rx list \<Rightarrow> rx" where
  "cats [] = Lit []"
| "cats [r] = r"
| "cats (r # q # rs) = Cat r (cats (q # rs))"

section \<open>The code's patterns\<close>

definition token_char :: "int \<Rightarrow> bool" where
  "token_char c \<longleftrightarrow> 65 \<le> c \<and> c \<le> 90 \<or> 97 \<le> c \<and> c \<le> 122 \<or> 48 \<le> c \<and> c \<le> 57 \<or> c = 95 \<or> c = 45"

definition rx_http :: rx where
  "rx_http = cats [Lit (asc ''http''), Maybe (Lit (asc ''s'')), Lit (asc ''://'')]"

definition rx_lark_host :: rx where
  "rx_lark_host = cats [rx_http, Many (\<lambda>c. c \<noteq> 47 \<and> \<not> is_space c), Lit (asc ''.''),
     Or (Lit (asc ''feishu.cn'')) (Lit (asc ''larksuite.com''))]"

definition rx_doc_kind :: rx where
  "rx_doc_kind = Or (Lit (asc ''docx'')) (Or (Lit (asc ''docs'')) (Lit (asc ''wiki'')))"

definition lark_url_rx :: rx where
  "lark_url_rx = cats [rx_lark_host, Lit (asc ''/''), Group ''kind'' rx_doc_kind, Lit (asc ''/''),
     Group ''token'' (Many token_char)]"

definition bitable_url_rx :: rx where
  "bitable_url_rx = cats [rx_lark_host, Lit (asc ''/base/''), Group ''app_token'' (Many token_char),
     Maybe (cats [Lit (asc ''?''), Lazy (\<lambda>c. c \<noteq> 10), Lit (asc ''table=''),
       Group ''table_id'' (Many token_char)])]"

definition sheet_url_rx :: rx where
  "sheet_url_rx = cats [rx_lark_host, Lit (asc ''/sheets/''),
     Group ''spreadsheet_token'' (Many token_char)]"

definition yt_url_rx :: rx where
  "yt_url_rx = cats [Maybe rx_http, Maybe (Lit (asc ''www.'')),
     Or (cats [Lit (asc ''youtube.com/''),
           Or (Lit (asc ''watch?v='')) (Or (Lit (asc ''shorts/'')) (Or (Lit (asc ''embed/'')) (Lit (asc ''v/''))))])
        (Lit (asc ''youtu.be/'')),
     Group ''video_id'' (Exactly 11 token_char)]"

definition web_url_rx :: rx where
  "web_url_rx = cats [rx_http, Many (\<lambda>c. \<not> is_space c \<and> c \<notin> {60, 62, 34, 39, 41, 93})]"

text \<open>The filter of \<open>_extract_urls_simple\<close>, used with \<open>re.match\<close>.\<close>

definition lark_filter_rx :: rx where
  "lark_filter_rx = cats [rx_http, Many (\<lambda>c. c \<noteq> 47), Lit (asc ''.''),
     Or (Lit (asc ''feishu.cn'')) (Lit (asc ''larksuite.com'')), Lit (asc ''/''), rx_doc_kind,
     Lit (asc ''/'')]"

section \<open>Extraction\<close>

text \<open>Keep the first match of each key.\<close>

fun first_by :: "('a \<Rightarrow> 'k) \<Rightarrow> 'k list \<Rightarrow> 'a list \<Rightarrow> 'a list" where
  "first_by key seen [] = []"
| "first_by key seen (x # xs) =
     (if key x \<in> set seen then first_by key seen xs else x # first_by key (key x # seen) xs)"

definition extract_lark_urls :: "ustr \<Rightarrow> (ustr \<times> ustr \<times> ustr) list" where
  "extract_lark_urls s =
     map (\<lambda>(u, g). (u, group ''kind'' g, group ''token'' g)) (first_by fst [] (rx_iter 0 lark_url_rx s))"

definition extract_bitable_urls :: "ustr \<Rightarrow> (ustr \<times> ustr \<times> ustr) list" where
  "extract_bitable_urls s =
     map (\<lambda>(u, g). (u, group ''app_token'' g, group ''table_id'' g))
       (first_by fst [] (rx_iter 0 bitable_url_rx s))"

definition extract_sheet_urls :: "ustr \<Rightarrow> (ustr \<times> ustr) list" where
  "extract_sheet_urls s =
     map (\<lambda>(u, g). (u, group ''spreadsheet_token'' g)) (first_by fst [] (rx_iter 0 sheet_url_rx s))"

definition extract_youtube_urls :: "ustr \<Rightarrow> (ustr \<times> ustr) list" where
  "extract_youtube_urls s =
     first_by snd [] (map (\<lambda>(u, g). (u, group ''video_id'' g)) (rx_iter 0 yt_url_rx s))"

definition url_trail :: "int \<Rightarrow> bool" where
  "url_trail c \<longleftrightarrow> c \<in> {46, 44, 59, 58, 33, 63, 65289, 41}"

definition is_lark_doc_url :: "ustr \<Rightarrow> bool" where
  "is_lark_doc_url u \<longleftrightarrow> rx_match lark_filter_rx u \<noteq> []"

definition extract_urls_simple :: "ustr \<Rightarrow> ustr list" where
  "extract_urls_simple s =
     filter (\<lambda>u. \<not> is_lark_doc_url u)
       (first_by id [] (map (\<lambda>(u, g). rstrip_by url_trail u) (rx_iter 0 web_url_rx s)))"

section \<open>Properties\<close>

lemma rx_iter_substring: "(u, g) \<in> set (rx_iter k r s) \<Longrightarrow> \<exists>a b. s = a @ u @ b"
proof (induction k r s rule: rx_iter.induct)
  case (1 k r)
  then show ?case by simp
next
  case (2 k r c s)
  have later: "\<exists>a b. s = a @ u @ b \<Longrightarrow> \<exists>a b. c # s = a @ u @ b" by (metis append_Cons)
  show ?case
  proof (cases "0 < k")
    case True
    then show ?thesis using 2 later by auto
  next
    case False
    note k = this
    show ?thesis
    proof (cases "rx_match r (c # s)")
      case Nil
      then show ?thesis using 2 later k by auto
    next
      case (Cons m ms)
      obtain n h where m: "m = (n, h)" by (cases m)
      consider "u = take n (c # s)" | "(u, g) \<in> set (rx_iter (n - 1) r s)"
        using 2(4) k Cons m by auto
      then show ?thesis
      proof cases
        case 1
        then have "c # s = [] @ u @ drop n (c # s)" by simp
        then show ?thesis by blast
      next
        case 2
        then show ?thesis using "2.IH"(3) [OF _ Cons m [symmetric]] k later m Cons by auto
      qed
    qed
  qed
qed

lemma first_by_set: "set (first_by key seen xs) \<subseteq> set xs"
  by (induction key seen xs rule: first_by.induct) auto

lemma first_by_distinct:
  "distinct (map key (first_by key seen xs)) \<and> key ` set (first_by key seen xs) \<inter> set seen = {}"
  by (induction key seen xs rule: first_by.induct) auto

lemma first_by_covers: "key ` set (first_by key seen xs) \<union> set seen = key ` set xs \<union> set seen"
  by (induction key seen xs rule: first_by.induct) auto

lemma rstrip_by_substring: "\<exists>b. u = rstrip_by P u @ b"
  using rstrip_by_prefix by blast

text \<open>The plain-URL extractor returns distinct parts of the message, none of which is a Lark
  document link, and it returns every other URL it sees once its trailing punctuation is cut.\<close>

theorem extract_urls_simple_sound:
  "distinct (extract_urls_simple s)
   \<and> list_all (\<lambda>u. contains u s \<and> \<not> is_lark_doc_url u) (extract_urls_simple s)
   \<and> set (extract_urls_simple s) =
       {u \<in> rstrip_by url_trail ` fst ` set (rx_iter 0 web_url_rx s). \<not> is_lark_doc_url u}"
proof -
  let ?us = "map (\<lambda>(u, g). rstrip_by url_trail u) (rx_iter 0 web_url_rx s)"
  have all: "set (first_by id [] ?us) = rstrip_by url_trail ` fst ` set (rx_iter 0 web_url_rx s)"
    using first_by_covers [of id "[]" ?us] by (force simp: case_prod_beta)
  have "contains (rstrip_by url_trail u) s" if m: "(u, g) \<in> set (rx_iter 0 web_url_rx s)" for u g
  proof -
    obtain a b where "s = a @ u @ b" using rx_iter_substring [OF m] by blast
    moreover obtain c where "u = rstrip_by url_trail u @ c" using rstrip_by_substring by blast
    ultimately have "s = a @ rstrip_by url_trail u @ (c @ b)" by (metis append.assoc)
    then show ?thesis unfolding contains_iff by blast
  qed
  then have "\<forall>u \<in> set (first_by id [] ?us). contains u s" unfolding all by auto
  moreover have "distinct (first_by id [] ?us)" using first_by_distinct [of id "[]" ?us] by simp
  ultimately show ?thesis using all by (auto simp: extract_urls_simple_def list_all_iff)
qed

text \<open>The Lark extractor never returns the same link twice, and every link it returns is a part
  of the message; equally for the tables, the sheets and the videos.\<close>

theorem extract_links_sound:
  "distinct (map fst (extract_lark_urls s)) \<and> distinct (map fst (extract_bitable_urls s))
   \<and> distinct (map fst (extract_sheet_urls s)) \<and> distinct (map snd (extract_youtube_urls s))
   \<and> list_all (\<lambda>u. contains u s) (map fst (extract_lark_urls s) @ map fst (extract_bitable_urls s)
        @ map fst (extract_sheet_urls s) @ map fst (extract_youtube_urls s))"
proof -
  have dist: "distinct (map fst (first_by fst [] xs))" "distinct (map snd (first_by snd [] ys))"
    for xs :: "(ustr \<times> (string \<times> ustr) list) list" and ys :: "(ustr \<times> ustr) list"
    using first_by_distinct by blast+
  have part: "list_all (\<lambda>u. contains u s) (map fst xs)" if "set xs \<subseteq> set (rx_iter 0 r s)"
    for xs r
    using that rx_iter_substring [of _ _ 0 r s] by (force simp: list_all_iff contains_iff)
  have yt: "list_all (\<lambda>u. contains u s) (map fst (extract_youtube_urls s))"
    using first_by_set [of snd "[]" "map (\<lambda>(u, g). (u, group ''video_id'' g)) (rx_iter 0 yt_url_rx s)"]
      rx_iter_substring [of _ _ 0 yt_url_rx s]
    unfolding extract_youtube_urls_def list_all_iff contains_iff by fastforce
  show ?thesis
    using dist part [OF first_by_set [of fst "[]"]] yt
    by (simp add: extract_lark_urls_def extract_bitable_urls_def extract_sheet_urls_def
        extract_youtube_urls_def comp_def case_prod_beta)
qed

end
