(* ===== verification/Util.thy ===== *)
theory Util imports PyStr "HOL-Library.List_Lexorder" begin

text \<open>
  util/file\_magic.py, util/ids.py and util/path.py: sniffing a file format from its first
  bytes, session identifiers, and the scoping of paths to the session directory.
\<close>

section \<open>util/file\_magic.py\<close>

text \<open>Bytes are integers from 0 to 255; \<open>at i k raw\<close> is \<open>raw[i:i+k]\<close>.\<close>

definition at :: "nat \<Rightarrow> nat \<Rightarrow> int list \<Rightarrow> int list" where
  "at i k raw = take k (drop i raw)"

definition detect_image_ext :: "int list \<Rightarrow> ustr" where
  "detect_image_ext raw =
     (if length raw < 8 then asc ''.bin''
      else if at 0 8 raw = [137, 80, 78, 71, 13, 10, 26, 10] then asc ''.png''
      else if at 0 3 raw = [255, 216, 255] then asc ''.jpg''
      else if at 0 4 raw = asc ''GIF8'' then asc ''.gif''
      else if at 0 4 raw = asc ''RIFF'' \<and> at 8 4 raw = asc ''WEBP'' then asc ''.webp''
      else if at 0 2 raw = asc ''BM'' then asc ''.bmp''
      else if at 0 4 raw = [73, 73, 42, 0] \<or> at 0 4 raw = [77, 77, 0, 42] then asc ''.tiff''
      else asc ''.bin'')"

definition detect_audio_ext :: "int list \<Rightarrow> ustr" where
  "detect_audio_ext raw =
     (if length raw < 12 then asc ''.bin''
      else if at 0 4 raw = asc ''OggS'' then asc ''.ogg''
      else if at 0 3 raw = asc ''ID3'' \<or> at 0 2 raw = [255, 251] \<or> at 0 2 raw = [255, 243]
        then asc ''.mp3''
      else if at 0 4 raw = asc ''RIFF'' \<and> at 8 4 raw = asc ''WAVE'' then asc ''.wav''
      else if at 4 4 raw = asc ''ftyp'' then asc ''.m4a''
      else if at 0 4 raw = asc ''fLaC'' then asc ''.flac''
      else asc ''.bin'')"

definition detect_file_ext :: "int list \<Rightarrow> ustr" where
  "detect_file_ext raw =
     (if detect_image_ext raw \<noteq> asc ''.bin'' then detect_image_ext raw
      else if detect_audio_ext raw \<noteq> asc ''.bin'' then detect_audio_ext raw
      else if at 0 4 raw = asc ''%PDF'' then asc ''.pdf''
      else if at 0 2 raw = asc ''PK'' then asc ''.zip''
      else if at 0 5 raw = [123, 92, 114, 116, 102] then asc ''.rtf''
      else asc ''.bin'')"

section \<open>util/ids.py\<close>

definition ulid_alphabet :: ustr where
  "ulid_alphabet = asc ''0123456789ABCDEFGHJKMNPQRSTVWXYZ''"

text \<open>The loop that emits \<open>k\<close> digits in base 32, least significant first, and reverses them.\<close>

fun base32_rev :: "nat \<Rightarrow> nat \<Rightarrow> ustr" where
  "base32_rev 0 n = []"
| "base32_rev (Suc k) n = ulid_alphabet ! (n mod 32) # base32_rev k (n div 32)"

definition base32 :: "nat \<Rightarrow> nat \<Rightarrow> ustr" where
  "base32 k n = rev (base32_rev k n)"

text \<open>The time stamp in milliseconds and ten random bytes read as one number.\<close>

definition ulid :: "nat \<Rightarrow> nat \<Rightarrow> ustr" where
  "ulid ts_ms rb = base32 10 ts_ms @ base32 16 rb"

section \<open>util/path.py\<close>

text \<open>
  A resolved path is the list of its components from the root; there are no symbolic links.
  \<open>resolve\<close> drops empty and \<open>.\<close> components and lets \<open>..\<close> remove the one before it.
\<close>

fun split_slash :: "ustr \<Rightarrow> ustr \<Rightarrow> ustr list" where
  "split_slash cur [] = [cur]"
| "split_slash cur (c # s) = (if c = 47 then cur # split_slash [] s else split_slash (cur @ [c]) s)"

fun push_component :: "ustr \<Rightarrow> ustr list \<Rightarrow> ustr list" where
  "push_component c p =
     (if c = [] \<or> c = asc ''.'' then p else if c = asc ''..'' then butlast p else p @ [c])"

definition resolve :: "ustr list \<Rightarrow> ustr \<Rightarrow> ustr list" where
  "resolve base rel = fold push_component (split_slash [] rel) base"

definition is_absolute :: "ustr \<Rightarrow> bool" where
  "is_absolute rel \<longleftrightarrow> startswith rel (asc ''/'')"

text \<open>\<open>session_root\<close>, resolved: a component that is an absolute path replaces what is before it.\<close>

definition join_path :: "ustr list \<Rightarrow> ustr \<Rightarrow> ustr list" where
  "join_path base c = (if is_absolute c then resolve [] c else resolve base c)"

definition session_root :: "ustr \<Rightarrow> ustr \<Rightarrow> ustr \<Rightarrow> ustr list" where
  "session_root fs oid sid =
     join_path (join_path (join_path (join_path (resolve [] fs) (asc ''users'')) oid) (asc ''sessions'')) sid"

definition resolve_session_path ::
  "(ustr list \<Rightarrow> bool) \<Rightarrow> ustr \<Rightarrow> ustr \<Rightarrow> ustr \<Rightarrow> ustr \<Rightarrow> bool \<Rightarrow> exn + ustr list" where
  "resolve_session_path exists_path fs oid sid rel must_exist =
     (if is_absolute rel then Inl PathEscapeError
      else
        (let root = session_root fs oid sid; cand = resolve root rel in
         if take (length root) cand \<noteq> root then Inl PathEscapeError
         else if must_exist \<and> \<not> exists_path cand then Inl FileNotFoundError
         else Inr cand))"

section \<open>Properties\<close>

lemma length_base32_rev [simp]: "length (base32_rev k n) = k"
  by (induction k arbitrary: n) auto

lemma ulid_alphabet_mono: "i < j \<Longrightarrow> j < 32 \<Longrightarrow> ulid_alphabet ! i < ulid_alphabet ! j"
proof -
  have "sorted_wrt (<) ulid_alphabet" and "length ulid_alphabet = 32" by code_simp+
  then show "i < j \<Longrightarrow> j < 32 \<Longrightarrow> ulid_alphabet ! i < ulid_alphabet ! j"
    by (simp add: sorted_wrt_nth_less)
qed

lemma base32_Suc: "base32 (Suc k) n = base32 k (n div 32) @ [ulid_alphabet ! (n mod 32)]"
  by (simp add: base32_def)

lemma length_base32 [simp]: "length (base32 k n) = k"
  by (simp add: base32_def)

lemma lex_append_same_length:
  "length xs = length ys \<Longrightarrow> (xs :: int list) @ us < ys @ vs \<longleftrightarrow> xs < ys \<or> xs = ys \<and> us < vs"
  by (induction xs ys rule: list_induct2) auto

lemma base32_less: "m < n \<Longrightarrow> n < 32 ^ k \<Longrightarrow> base32 k m < base32 k n"
proof (induction k arbitrary: m n)
  case 0
  then show ?case by simp
next
  case (Suc k)
  have "m div 32 < n div 32 \<or> m div 32 = n div 32 \<and> m mod 32 < n mod 32"
  proof (cases "m div 32 = n div 32")
    case True
    then have "m mod 32 < n mod 32"
      using Suc.prems(1) div_mult_mod_eq [of m 32] div_mult_mod_eq [of n 32] by linarith
    with True show ?thesis by blast
  next
    case False
    moreover have "m div 32 \<le> n div 32" using Suc.prems(1) by (simp add: div_le_mono)
    ultimately show ?thesis by linarith
  qed
  then consider "m div 32 < n div 32" | "m div 32 = n div 32" "m mod 32 < n mod 32" by blast
  then show ?case
  proof cases
    case 1
    moreover have "n div 32 < 32 ^ k" using Suc.prems(2) by (simp add: less_mult_imp_div_less mult.commute)
    ultimately show ?thesis using Suc.IH by (simp add: base32_Suc lex_append_same_length)
  next
    case 2
    then show ?thesis
      using ulid_alphabet_mono [of "m mod 32" "n mod 32"] by (simp add: base32_Suc lex_append_same_length)
  qed
qed

text \<open>Session ids sort by time: an id made at an earlier millisecond is lexicographically
  smaller, whatever the random parts, up to 2 to the 50 milliseconds. Every id has 26 characters.\<close>

theorem ulid_sorts_by_time:
  assumes "ts < ts'" and "ts' < 2 ^ 50"
  shows "ulid ts rb < ulid ts' rb' \<and> length (ulid ts rb) = 26"
proof -
  have "(32::nat) ^ 10 = 2 ^ 50" by simp
  then have "base32 10 ts < base32 10 ts'" using assms base32_less by metis
  then show ?thesis by (simp add: ulid_def lex_append_same_length)
qed

theorem ulid_sorts_by_time_witness:
  "ulid 1000 5 < ulid 1001 3 \<and> length (ulid 1000 5) = 26"
  by (rule ulid_sorts_by_time) simp_all

text \<open>A resolved session path never leaves the session directory, whatever the relative path
  is made of.\<close>

theorem resolved_path_inside_session:
  "resolve_session_path ex fs oid sid rel must = Inr p \<Longrightarrow>
   \<exists>tail. p = session_root fs oid sid @ tail"
proof -
  assume "resolve_session_path ex fs oid sid rel must = Inr p"
  then have "take (length (session_root fs oid sid)) p = session_root fs oid sid"
    by (auto simp: resolve_session_path_def Let_def split: if_splits)
  then have "p = session_root fs oid sid @ drop (length (session_root fs oid sid)) p"
    by (metis append_take_drop_id)
  then show ?thesis ..
qed

theorem resolved_path_inside_session_witness:
  "\<exists>tail. [asc ''fs'', asc ''users'', asc ''ou'', asc ''sessions'', asc ''S1'', asc ''input'', asc ''a.md'']
     = session_root (asc ''/fs'') (asc ''ou'') (asc ''S1'') @ tail"
proof -
  have "resolve_session_path (\<lambda>p. True) (asc ''/fs'') (asc ''ou'') (asc ''S1'')
      (asc ''final/../input/./a.md'') True =
     Inr [asc ''fs'', asc ''users'', asc ''ou'', asc ''sessions'', asc ''S1'', asc ''input'', asc ''a.md'']"
    by code_simp
  then show ?thesis by (rule resolved_path_inside_session)
qed

lemma split_slash_plain: "47 \<notin> set s \<Longrightarrow> split_slash cur s = [cur @ s]"
  by (induction s arbitrary: cur) auto

text \<open>The paths the handlers build are accepted: a plain file name, in the session directory or in
  one of its folders.\<close>

definition plain_name :: "ustr \<Rightarrow> bool" where
  "plain_name n \<longleftrightarrow> n \<noteq> [] \<and> 47 \<notin> set n \<and> n \<noteq> asc ''.'' \<and> n \<noteq> asc ''..''"

lemma resolve_plain: "plain_name n \<Longrightarrow> resolve base n = base @ [n]"
  by (simp add: resolve_def split_slash_plain plain_name_def)

lemma session_file_accepted:
  "plain_name n \<Longrightarrow> resolve_session_path ex fs oid sid n False = Inr (session_root fs oid sid @ [n])"
  by (cases n) (auto simp: resolve_session_path_def Let_def resolve_plain is_absolute_def
      startswith_def plain_name_def)

end
