(* ===== verification/Ingest.thy ===== *)
theory Ingest imports Deliver Urls Util begin

text \<open>
  pipeline/ingest.py and pipeline/ingest\_backends: choosing a backend for a file, the size
  guard, and turning fetched documents, tables, sheets, transcripts and pages into one
  Markdown text. Fetching a single document, OCR, transcription and PDF parsing call services
  and tools outside the repository and come from the environment.
\<close>

section \<open>Files\<close>

text \<open>\<open>Path.suffix\<close> of a file name: from its last dot, unless that is its first or last character.\<close>

definition path_suffix :: "ustr \<Rightarrow> ustr" where
  "path_suffix n =
     (let r = takeWhile (\<lambda>c. c \<noteq> 46) (rev n) in
      if r \<noteq> [] \<and> length r + 1 < length n then 46 # rev r else [])"

datatype backend = TextBackend | PdfBackend | ImageBackend | AudioBackend | WebBackend

definition image_mimes :: "ustr list" where
  "image_mimes = map asc [''image/png'', ''image/jpeg'', ''image/jpg'', ''image/webp'', ''image/bmp'',
     ''image/tiff'', ''image/gif'']"

definition image_exts :: "ustr list" where
  "image_exts = map asc [''.png'', ''.jpg'', ''.jpeg'', ''.webp'', ''.bmp'', ''.tiff'', ''.tif'', ''.gif'']"

definition audio_mimes :: "ustr list" where
  "audio_mimes = map asc [''audio/mpeg'', ''audio/mp3'', ''audio/mp4'', ''audio/wav'', ''audio/ogg'',
     ''audio/webm'', ''audio/x-m4a'', ''audio/aac'', ''audio/flac'', ''audio/opus'']"

definition audio_exts :: "ustr list" where
  "audio_exts = map asc [''.mp3'', ''.wav'', ''.ogg'', ''.m4a'', ''.aac'', ''.flac'', ''.webm'', ''.opus'']"

definition text_can_handle :: "ustr \<Rightarrow> ustr \<Rightarrow> bool" where
  "text_can_handle mime ext \<longleftrightarrow>
     startswith mime (asc ''text/'') \<or> lower ext \<in> set (map asc [''.md'', ''.txt'', ''.markdown''])"

definition pdf_can_handle :: "ustr \<Rightarrow> ustr \<Rightarrow> bool" where
  "pdf_can_handle mime ext \<longleftrightarrow> mime = asc ''application/pdf'' \<or> lower ext = asc ''.pdf''"

definition image_can_handle :: "ustr \<Rightarrow> ustr \<Rightarrow> bool" where
  "image_can_handle mime ext \<longleftrightarrow> mime \<in> set image_mimes \<or> lower ext \<in> set image_exts"

definition audio_can_handle :: "ustr \<Rightarrow> ustr \<Rightarrow> bool" where
  "audio_can_handle mime ext \<longleftrightarrow> mime \<in> set audio_mimes \<or> lower ext \<in> set audio_exts"

definition web_can_handle :: "ustr \<Rightarrow> ustr \<Rightarrow> bool" where
  "web_can_handle mime ext \<longleftrightarrow> lower ext = asc ''.url'' \<or> mime = asc ''text/x-uri''"

fun can_handle :: "backend \<Rightarrow> ustr \<Rightarrow> ustr \<Rightarrow> bool" where
  "can_handle TextBackend = text_can_handle"
| "can_handle PdfBackend = pdf_can_handle"
| "can_handle ImageBackend = image_can_handle"
| "can_handle AudioBackend = audio_can_handle"
| "can_handle WebBackend = web_can_handle"

text \<open>The backends of app.py, in order.\<close>

definition app_backends :: "backend list" where
  "app_backends = [TextBackend, PdfBackend, ImageBackend, AudioBackend, WebBackend]"

fun size_cap :: "backend \<Rightarrow> int" where
  "size_cap PdfBackend = 20 * 1048576"
| "size_cap ImageBackend = 10 * 1048576"
| "size_cap AudioBackend = 50 * 1048576"
| "size_cap _ = 1048576"

text \<open>\<open>validate_size\<close>; the page backend does not call it.\<close>

definition too_big_message :: "int \<Rightarrow> int \<Rightarrow> ustr" where
  "too_big_message n cap = [26448, 26009, 22826, 22823, 20102, 65288] @ int_digits (n div 1048576) @ asc ''MB'' @ [65289, 65292, 36229, 36807, 20102] @ asc '' '' @
     int_digits (cap div 1048576) @ asc ''MB '' @ [19978, 38480, 12290, 20999, 23567, 19968, 28857, 20877, 21457, 19968, 36941, 12290]"

definition validate_size :: "backend \<Rightarrow> int \<Rightarrow> unit act" where
  "validate_size b n =
     (if size_cap b < n then raise_exn (IngestRejected (too_big_message n (size_cap b))) else ret ())"

definition backend_name :: "backend \<Rightarrow> string" where
  "backend_name b = (case b of TextBackend \<Rightarrow> ''text'' | PdfBackend \<Rightarrow> ''pdf'' | ImageBackend \<Rightarrow> ''image''
     | AudioBackend \<Rightarrow> ''audio'' | WebBackend \<Rightarrow> ''web_scrape'')"

definition run_backend :: "env \<Rightarrow> backend \<Rightarrow> ustr \<Rightarrow> int list \<Rightarrow> ustr act" where
  "run_backend e b name raw =
     andthen (if b = WebBackend then ret () else validate_size b (int (length raw)))
     (call (\<lambda>n. backend_ingest e n (backend_name b) name raw))"

definition set_normalized :: "session \<Rightarrow> ustr \<Rightarrow> unit act" where
  "set_normalized s t = folder_act s (\<lambda>d. d\<lparr>normalized_md := Some t\<rparr>)"

definition store_input :: "session \<Rightarrow> ustr \<Rightarrow> int list \<Rightarrow> unit act" where
  "store_input s name raw = folder_act s (\<lambda>d. d\<lparr>inputs := (name, raw) # inputs d\<rparr>)"

text \<open>\<open>IngestPipeline.run\<close>: the first backend that can handle the file replaces
  \<open>normalized.md\<close>.\<close>

definition ingest_run :: "env \<Rightarrow> session \<Rightarrow> ustr \<Rightarrow> unit act" where
  "ingest_run e s name =
     bnd (gets (\<lambda>w. map_of (inputs (folder_at w (key_of s))) name)) (\<lambda>file.
     case file of None \<Rightarrow> raise_exn FileNotFoundError
     | Some raw \<Rightarrow>
         (case find (\<lambda>b. can_handle b (guess_mime e name) (lower (path_suffix name))) app_backends of
            None \<Rightarrow> raise_exn IngestUnsupported
          | Some b \<Rightarrow> bnd (run_backend e b name raw) (set_normalized s)))"

section \<open>Links\<close>

definition url_block :: "ustr \<Rightarrow> ustr \<Rightarrow> ustr" where
  "url_block url body = asc ''## '' @ url @ [10, 10] @ body"

definition warning_sign :: int where
  "warning_sign = 9888"

definition blocks_sep :: ustr where
  "blocks_sep = [10, 10] @ asc ''---'' @ [10, 10]"

text \<open>The loop of the four Lark and video backends: \<open>ok\<close> and \<open>failed\<close> make the block of one link.\<close>

definition fetch_block ::
  "(nat \<Rightarrow> exn + ustr) \<Rightarrow> (ustr \<Rightarrow> ustr) \<Rightarrow> (exn \<Rightarrow> ustr) \<Rightarrow> ustr \<Rightarrow> ustr act" where
  "fetch_block fetch ok failed url =
     catch (bnd (call fetch) (\<lambda>t. ret (url_block url (ok t))))
           (\<lambda>x. ret (url_block url (failed x)))"

definition warn :: "ustr \<Rightarrow> ustr" where
  "warn t = asc ''> '' @ [warning_sign] @ t"

definition lark_text :: "ustr \<Rightarrow> ustr" where
  "lark_text t = (if t \<noteq> [] then t else warn (asc '' '' @ [25991, 26723, 20026, 31354]))"

definition lark_failed :: "env \<Rightarrow> exn \<Rightarrow> ustr" where
  "lark_failed e x = warn (asc '' '' @ [26080, 27861, 35835, 21462, 65288, 21487, 33021] @ asc '' bot '' @ [27809, 26435, 38480, 25110, 38142, 25509, 22833, 25928, 65289, 65306] @ exn_text e x)"

definition lark_rejected :: ustr where
  "lark_rejected = asc ''Lark '' @ [38142, 25509, 20840, 37096, 35835, 21462, 22833, 36133] @ asc '' '' @ [8212] @ asc '' '' @ [26816, 26597] @ asc '' bot '' @ [26159, 21542, 34987, 21152, 20837, 20102, 25991, 26723, 21327, 20316, 32773, 12290, 65288, 28155, 21152, 26041, 24335, 65306, 39134, 20070, 25991, 26723, 21491, 19978, 12300, 20998, 20139, 12301, 8594] @ asc '' '' @ [28155, 21152, 24212, 29992] @ asc '' '' @ [8594] @ asc '' '' @ [25628, 20320, 30340] @ asc '' bot'' @ [65289]"

definition lark_header :: "nat \<Rightarrow> ustr" where
  "lark_header n = asc ''['' @ [128196] @ asc '' '' @ [24050, 20174] @ asc '' '' @ nat_digits n @ asc '' '' @ [20010] @ asc '' Lark '' @ [25991, 26723, 35835, 21462, 20869, 23481] @ asc '']'' @ [10, 10]"

definition fetch_lark_urls :: "env \<Rightarrow> (ustr \<times> ustr \<times> ustr) list \<Rightarrow> ustr act" where
  "fetch_lark_urls e urls =
     (if urls = [] then raise_exn (IngestRejected (asc ''URL '' @ [21015, 34920, 26159, 31354, 30340, 12290]))
      else
        bnd (map_prog (\<lambda>(url, kind, tok).
          fetch_block (\<lambda>n. fetch_lark_doc e n kind tok) lark_text (lark_failed e) url) urls) (\<lambda>rs.
        if list_all (\<lambda>r. warning_sign \<in> set r) rs then raise_exn (IngestRejected lark_rejected)
        else ret (lark_header (length urls) @ join blocks_sep rs)))"

definition fetch_bitable_urls :: "env \<Rightarrow> (ustr \<times> ustr \<times> ustr) list \<Rightarrow> ustr act" where
  "fetch_bitable_urls e urls =
     (if urls = [] then raise_exn (IngestRejected (asc ''URL '' @ [21015, 34920, 26159, 31354, 30340, 12290]))
      else
        bnd (map_prog (\<lambda>(url, app, table). fetch_block (\<lambda>n. fetch_bitable e n app table) (\<lambda>t. t)
            (\<lambda>x. warn (asc '' '' @ [26080, 27861, 35835, 21462] @ asc '' Bitable'' @ [65306] @ exn_text e x)) url) urls) (\<lambda>rs.
        if list_all (\<lambda>r. warning_sign \<in> set r) rs
        then raise_exn (IngestRejected (asc ''Bitable '' @ [20840, 37096, 35835, 21462, 22833, 36133] @ asc '' '' @ [8212] @ asc '' '' @ [26816, 26597] @ asc '' bot '' @ [26159, 21542, 26377, 26435, 38480, 35775, 38382, 12290, 65288, 26041, 24335, 65306] @ asc ''Bitable '' @ [21491, 19978, 35282, 12300, 20998, 20139, 12301, 8594] @ asc '' '' @ [28155, 21152, 24212, 29992] @ asc '' '' @ [8594] @ asc '' '' @ [25628, 20320, 30340] @ asc '' bot'' @ [65289]))
        else ret (asc ''['' @ [128202] @ asc '' '' @ [24050, 20174] @ asc '' '' @ nat_digits (length urls) @ asc '' '' @ [20010] @ asc '' Bitable '' @ [35835, 21462, 20869, 23481] @ asc '']'' @ [10, 10]
               @ join blocks_sep rs)))"

definition sheet_failed :: "env \<Rightarrow> exn \<Rightarrow> ustr" where
  "sheet_failed e x = warn (asc '' '' @ [26080, 27861, 35835, 21462] @ asc '' Sheet'' @ [65306] @ exn_text e x)"

definition sheet_header :: "nat \<Rightarrow> ustr" where
  "sheet_header n = asc ''['' @ [128215] @ asc '' '' @ [24050, 20174] @ asc '' '' @ nat_digits n @ asc '' '' @ [20010] @ asc '' Sheet '' @ [35835, 21462, 20869, 23481] @ asc '']'' @ [10, 10]"

definition fetch_sheet_urls :: "env \<Rightarrow> (ustr \<times> ustr) list \<Rightarrow> ustr act" where
  "fetch_sheet_urls e urls =
     bnd (map_prog (\<lambda>(url, tok).
       fetch_block (\<lambda>n. fetch_sheet e n tok) (\<lambda>t. t) (sheet_failed e) url) urls) (\<lambda>rs.
     ret (sheet_header (length urls) @ join blocks_sep rs))"

definition fetch_youtube_urls :: "env \<Rightarrow> (ustr \<times> ustr) list \<Rightarrow> ustr act" where
  "fetch_youtube_urls e urls =
     (if urls = [] then raise_exn (IngestRejected (asc ''URL '' @ [21015, 34920, 26159, 31354, 30340, 12290]))
      else
        bnd (map_prog (\<lambda>(url, vid). fetch_block (\<lambda>n. fetch_transcript e n vid)
            (\<lambda>t. if t \<noteq> [] then t else warn (asc '' '' @ [27809, 26377, 21487, 29992, 30340, 23383, 24149] @ asc ''/'' @ [36716, 24405]))
            (\<lambda>x. warn (asc '' '' @ [36716, 24405, 22833, 36133, 65306] @ exn_text e x)) url) urls) (\<lambda>rs.
        if list_all (\<lambda>r. warning_sign \<in> set r) rs
        then raise_exn (IngestRejected ([25152, 26377] @ asc '' YouTube '' @ [35270, 39057, 37117, 26080, 27861, 33719, 21462, 36716, 24405, 65288, 21487, 33021, 27809, 26377, 23383, 24149, 12289, 21306, 22495, 38480, 21046, 12289, 25110, 35270, 39057, 19981, 23384, 22312, 65289, 12290]))
        else ret (asc ''['' @ [127916] @ asc '' '' @ [24050, 20174] @ asc '' '' @ nat_digits (length urls) @ asc '' '' @ [20010] @ asc '' YouTube '' @ [35270, 39057, 25552, 21462, 23383, 24149] @ asc '']'' @ [10, 10]
               @ join blocks_sep rs)))"

definition scrape_failed :: ustr where
  "scrape_failed = [25235, 21462, 22833, 36133]"

text \<open>A page without text leaves no block.\<close>

definition scrape_block :: "env \<Rightarrow> ustr \<Rightarrow> ustr list act" where
  "scrape_block e url =
     catch (bnd (call (\<lambda>n. scrape_page e n url)) (\<lambda>t. ret (if t \<noteq> [] then [url_block url t] else [])))
           (\<lambda>x. ret [url_block url (warn (asc '' '' @ scrape_failed @ asc '': '' @ exn_text e x))])"

definition scrape_urls :: "env \<Rightarrow> ustr list \<Rightarrow> ustr act" where
  "scrape_urls e urls =
     (if urls = [] then raise_exn (IngestRejected (asc ''URL '' @ [21015, 34920, 26159, 31354, 30340, 12290]))
      else
        bnd (map_prog (scrape_block e) urls) (\<lambda>bs.
        let rs = concat bs in
        if list_all (contains scrape_failed) rs
        then raise_exn (IngestRejected ([25152, 26377] @ asc '' URL '' @ [37117, 25235, 19981, 21040, 20869, 23481, 65288, 21487, 33021, 34987, 21453, 29228] @ asc '' / '' @ [38656, 35201, 30331, 24405] @ asc '' / '' @ [32593, 32476, 19981, 36890, 65289, 12290, 35831, 30452, 25509, 36148, 27491, 25991, 32473, 25105, 12290]))
        else ret (asc ''['' @ [127760] @ asc '' '' @ [24050, 20174] @ asc '' '' @ nat_digits (length urls) @ asc '' '' @ [20010, 32593, 39029, 25235, 21462, 20869, 23481] @ asc '']'' @ [10, 10] @ join blocks_sep rs)))"

section \<open>Steps\<close>

context call_effects
begin

lemma steps_fetch_block [step_rules]: "steps R (fetch_block fetch ok failed url)"
  unfolding fetch_block_def by (intro steps_intros step_rules)

lemma steps_fetch_lark_urls [step_rules]: "steps R (fetch_lark_urls e urls)"
  unfolding fetch_lark_urls_def by (intro steps_intros step_rules)

lemma steps_fetch_bitable_urls [step_rules]: "steps R (fetch_bitable_urls e urls)"
  unfolding fetch_bitable_urls_def by (intro steps_intros step_rules)

lemma steps_fetch_sheet_urls [step_rules]: "steps R (fetch_sheet_urls e urls2)"
  unfolding fetch_sheet_urls_def by (intro steps_intros step_rules)

lemma steps_fetch_youtube_urls [step_rules]: "steps R (fetch_youtube_urls e urls2)"
  unfolding fetch_youtube_urls_def by (intro steps_intros step_rules)

lemma steps_scrape_urls [step_rules]: "steps R (scrape_urls e us)"
  unfolding scrape_urls_def scrape_block_def by (intro steps_intros step_rules)

lemma steps_run_backend [step_rules]: "steps R (run_backend e b name raw)"
  unfolding run_backend_def validate_size_def by (intro steps_intros step_rules)

end

context session_effects
begin

lemma steps_set_normalized [step_rules]: "own s \<Longrightarrow> steps R (set_normalized s t)"
  unfolding set_normalized_def by (intro step_rules)

lemma steps_store_input [step_rules]: "own s \<Longrightarrow> steps R (store_input s name raw)"
  unfolding store_input_def by (intro step_rules)

lemma steps_ingest_run [step_rules]: "own s \<Longrightarrow> steps R (ingest_run e s name)"
  unfolding ingest_run_def by (intro steps_intros step_rules)

end

section \<open>What the fetchers return\<close>

definition block_of :: "(ustr \<Rightarrow> ustr) \<Rightarrow> (exn \<Rightarrow> ustr) \<Rightarrow> ustr \<Rightarrow> exn + ustr \<Rightarrow> ustr" where
  "block_of ok failed url r = url_block url (case r of Inl x \<Rightarrow> failed x | Inr t \<Rightarrow> ok t)"

lemma fetch_block_run:
  "fetch_block g ok failed url w = (Inr (block_of ok failed url (g (tick w))), ticked w)"
  by (simp add: fetch_block_def block_of_def prog_simps ticked_def split: sum.splits)

lemma map_fetch_block:
  assumes "\<And>x. f x = fetch_block (g x) ok failed (u x)"
  shows "map_prog f xs w =
    (Inr (map (\<lambda>(n, x). block_of ok failed (u x) (g x n)) (enumerate (tick w) xs)),
     w\<lparr>tick := tick w + length xs\<rparr>)"
proof (induction xs arbitrary: w)
  case Nil
  then show ?case by (simp add: ret_def)
next
  case (Cons x xs)
  have "map_prog f xs (ticked w) = (Inr (map (\<lambda>(n, x). block_of ok failed (u x) (g x n))
      (enumerate (Suc (tick w)) xs)), w\<lparr>tick := tick w + length (x # xs)\<rparr>)"
    using Cons [of "ticked w"] by (simp add: ticked_def)
  moreover have "f x w = (Inr (block_of ok failed (u x) (g x (tick w))), ticked w)"
    by (simp add: assms fetch_block_run)
  ultimately show ?case by (simp add: map_prog_Cons_Inr del: map_prog.simps)
qed

definition lark_block :: "env \<Rightarrow> ustr \<times> ustr \<times> ustr \<Rightarrow> nat \<Rightarrow> ustr" where
  "lark_block e x n =
     (case x of (url, kind, tok) \<Rightarrow> block_of lark_text (lark_failed e) url (fetch_lark_doc e n kind tok))"

lemma fetch_lark_urls_eq:
  assumes "urls \<noteq> []" and "rs = map (\<lambda>(n, x). lark_block e x n) (enumerate (tick w) urls)"
  shows "fetch_lark_urls e urls w =
     (if list_all (\<lambda>r. warning_sign \<in> set r) rs then Inl (IngestRejected lark_rejected)
      else Inr (lark_header (length urls) @ join blocks_sep rs),
      w\<lparr>tick := tick w + length urls\<rparr>)"
proof -
  let ?f = "\<lambda>(url, kind, tok). fetch_block (\<lambda>n. fetch_lark_doc e n kind tok) lark_text (lark_failed e) url"
  have "map_prog ?f urls w = (Inr rs, w\<lparr>tick := tick w + length urls\<rparr>)"
    using map_fetch_block [of ?f "\<lambda>(url, kind, tok) n. fetch_lark_doc e n kind tok" lark_text
        "lark_failed e" fst urls w]
    by (simp add: assms(2) lark_block_def split_beta)
  then show ?thesis
    using assms(1) by (simp add: fetch_lark_urls_def bnd_Inr run_ret run_raise)
qed

text \<open>No document that was fetched is lost: when a batch of Lark links is accepted, the
  material contains the text of every document that could be fetched and is not empty.\<close>

theorem fetch_lark_complete:
  assumes run: "fetch_lark_urls e urls w = (Inr t, w')"
    and i: "i < length urls" "urls ! i = (url, kind, tok)"
    and d: "fetch_lark_doc e (tick w + i) kind tok = Inr d" "d \<noteq> []"
  shows "contains d t \<and> contains url t"
proof -
  from i have "urls \<noteq> []" by auto
  with run obtain pre where t: "t = pre @ join blocks_sep (map (\<lambda>(n, x). lark_block e x n) (enumerate (tick w) urls))"
    by (auto simp: fetch_lark_urls_eq [OF _ refl] split: if_splits)
  have "(tick w + i, url, kind, tok) \<in> set (enumerate (tick w) urls)"
    using i by (metis (no_types, lifting) length_enumerate nth_enumerate_eq nth_mem)
  then have "url_block url d \<in> set (map (\<lambda>(n, x). lark_block e x n) (enumerate (tick w) urls))"
    using d by (force simp: lark_block_def block_of_def lark_text_def)
  then have "contains (url_block url d) t"
    unfolding t by (intro contains_right contains_join)
  moreover have "contains d (url_block url d)"
    unfolding url_block_def by (intro contains_right contains_refl)
  moreover have "contains url (url_block url d)"
    unfolding url_block_def by (intro contains_right contains_left contains_refl)
  ultimately show ?thesis using contains_trans by blast
qed

theorem fetch_lark_complete_witness:
  "\<exists>t w'. fetch_lark_urls demo_env [(asc ''u'', asc ''docx'', asc ''k'')] demo_world = (Inr t, w')
     \<and> contains (asc ''doc'') t \<and> contains (asc ''u'') t"
proof -
  have "isl (fst (fetch_lark_urls demo_env [(asc ''u'', asc ''docx'', asc ''k'')] demo_world)) = False"
    by code_simp
  then obtain t w' where run:
    "fetch_lark_urls demo_env [(asc ''u'', asc ''docx'', asc ''k'')] demo_world = (Inr t, w')"
    by (metis isl_def prod.collapse sum.collapse(2))
  have "contains (asc ''doc'') t \<and> contains (asc ''u'') t"
    by (rule fetch_lark_complete [OF run, where i = 0 and kind = "asc ''docx''" and tok = "asc ''k''"])
       (simp_all add: demo_env_def)
  with run show ?thesis by blast
qed

text \<open>A document that was read without error but contains a warning sign is treated as one that
  could not be read: sent alone, it is rejected and the requester told that no link was readable.\<close>

theorem warning_sign_in_doc_rejected:
  assumes "fetch_lark_doc e (tick w) kind tok = Inr d" and "warning_sign \<in> set d"
  shows "\<exists>m. fst (fetch_lark_urls e [(url, kind, tok)] w) = Inl (IngestRejected m)"
  using assms by (cases d) (auto simp: fetch_lark_urls_eq [OF _ refl] lark_block_def block_of_def lark_text_def url_block_def)

theorem warning_sign_in_doc_rejected_witness:
  "\<exists>m. fst (fetch_lark_urls (demo_env\<lparr>fetch_lark_doc := \<lambda>n k t. Inr (asc ''Risk '' @ [9888])\<rparr>)
       [(asc ''u'', asc ''docx'', asc ''k'')] demo_world) = Inl (IngestRejected m)"
  by (rule warning_sign_in_doc_rejected [where d = "asc ''Risk '' @ [9888]"])
     (simp_all add: warning_sign_def)

text \<open>A sheet that cannot be read is never rejected: the batch always returns, and the error
  text becomes the material that is reviewed.\<close>

theorem unreadable_sheet_becomes_material:
  assumes "fetch_sheet e (tick w) tok = Inl x"
  shows "\<exists>t. fst (fetch_sheet_urls e [(url, tok)] w) = Inr t \<and> contains (exn_text e x) t"
proof -
  have "fst (fetch_sheet_urls e [(url, tok)] w)
      = Inr (sheet_header 1 @ url_block url (sheet_failed e x))"
    using assms by (simp add: fetch_sheet_urls_def bnd_def fetch_block_run block_of_def ret_def)
  moreover have "contains (exn_text e x) (sheet_failed e x)"
    unfolding sheet_failed_def warn_def by (intro contains_right contains_refl)
  then have "contains (exn_text e x) (sheet_header 1 @ url_block url (sheet_failed e x))"
    unfolding url_block_def by (intro contains_right)
  ultimately show ?thesis by blast
qed

theorem unreadable_sheet_becomes_material_witness:
  "\<exists>t. fst (fetch_sheet_urls (demo_env\<lparr>fetch_sheet := \<lambda>n t. Inl (OtherError (asc ''403''))\<rparr>)
       [(asc ''u'', asc ''k'')] demo_world) = Inr t \<and> contains (asc ''error'') t"
  using unreadable_sheet_becomes_material
    [of "demo_env\<lparr>fetch_sheet := \<lambda>n t. Inl (OtherError (asc ''403''))\<rparr>" demo_world "asc ''k''"
        "OtherError (asc ''403'')" "asc ''u''"]
  by (simp add: demo_env_def)

section \<open>One file\<close>

text \<open>The first backend that can handle a file extracts it within its size limit, and the text
  replaces the material; otherwise nothing is written.\<close>

lemma ingest_run_exact:
  assumes "map_of (inputs (folder_at w (key_of s))) name = Some raw"
    and "find (\<lambda>b. can_handle b (guess_mime e name) (lower (path_suffix name))) app_backends = Some b"
    and "b \<noteq> WebBackend"
  shows "ingest_run e s name w =
    (if size_cap b < int (length raw)
     then (Inl (IngestRejected (too_big_message (int (length raw)) (size_cap b))), w)
     else case backend_ingest e (tick w) (backend_name b) name raw of
         Inl x \<Rightarrow> (Inl x, ticked w)
       | Inr t \<Rightarrow> (Inr (), w_folder (key_of s) (\<lambda>d. d\<lparr>normalized_md := Some t\<rparr>) (ticked w)))"
  using assms by (simp add: ingest_run_def run_backend_def validate_size_def set_normalized_def run_simps
     bnd_def gets_def ret_def raise_exn_def call_def folder_act_def modify_def ticked_def split: sum.split)

end
