(* ===== verification/Intents.thy ===== *)
theory Intents imports Models begin

text \<open>
  pipeline/_intents.py: the reply-intent parser shared by the subject confirmation and the
  Q\&A loop, with its token sets, and what the parser can and cannot return.
\<close>

section \<open>Token sets\<close>

definition PASS_tokens :: "ustr list" where
  "PASS_tokens = [asc ''p'', asc ''pass'', asc ''skip'', asc ''next'', [36339, 36807], [19979, 19968, 26465], [19979, 19968, 20010]]"

definition MORE_tokens :: "ustr list" where
  "MORE_tokens = [asc ''more'', [32487, 32493], [19979, 19968, 25209], asc ''deferred'']"

definition DONE_tokens :: "ustr list" where
  "DONE_tokens = [asc ''done'', asc ''close'', [32467, 26463], [21487, 20197, 20102], asc ''ready'']"

definition FORCE_CLOSE_tokens :: "ustr list" where
  "FORCE_CLOSE_tokens =
     [asc ''forceclose'', [24378, 21046, 20851], [24517, 39035, 32, 99, 108, 111, 115, 101], asc ''force-close'', asc ''force close'']"

definition ACCEPT_prefixes :: "ustr list" where
  "ACCEPT_prefixes = [asc ''a'', asc ''accept'', [22909], asc ''ok'', [21516, 24847]]"

definition REJECT_prefixes :: "ustr list" where
  "REJECT_prefixes = [asc ''b'', asc ''reject'', [19981, 21516, 24847], [19981, 34892], asc ''no'']"

definition MODIFY_prefixes :: "ustr list" where
  "MODIFY_prefixes = [asc ''c'', asc ''modify'', [25913, 25104], [25105, 25913, 25104]]"

section \<open>The parser\<close>

text \<open>The characters of the class \<open>[\s,:.]\<close> of the token split, full-width forms included.\<close>

definition is_token_sep :: "int \<Rightarrow> bool" where
  "is_token_sep c \<longleftrightarrow> is_space c \<or> c \<in> {44, 65292, 58, 65306, 12290, 46}"

text \<open>\<open>re.split(sep+, low, maxsplit=1)[0]\<close>: the text before the first separator.\<close>

definition first_token :: "ustr \<Rightarrow> ustr" where
  "first_token low = takeWhile (\<lambda>c. \<not> is_token_sep c) low"

definition is_strip_punct :: "int \<Rightarrow> bool" where
  "is_strip_punct c \<longleftrightarrow> c \<in> {32, 58, 44, 46, 65292, 65306, 12290}"

definition strip_prefix :: "ustr \<Rightarrow> ustr \<Rightarrow> ustr" where
  "strip_prefix raw p =
     (let s = strip raw;
          s' = (if startswith (lower s) p then drop (length p) s else s)
      in strip (lstrip_by is_strip_punct s'))"

definition parse_reply_intent :: "ustr \<Rightarrow> string \<Rightarrow> intent \<times> ustr" where
  "parse_reply_intent text stage =
     (let raw = strip text;
          low = lower raw;
          tok = first_token low
      in
      if low \<in> set PASS_tokens \<or> tok \<in> set PASS_tokens then (PASS, strip_prefix raw tok)
      else if low \<in> set MORE_tokens \<or> tok \<in> set MORE_tokens then (MORE, [])
      else if low \<in> set DONE_tokens \<or> tok \<in> set DONE_tokens then (DONE, [])
      else if low \<in> set FORCE_CLOSE_tokens \<or> startswith_any low FORCE_CLOSE_tokens
        then (FORCE_CLOSE, raw)
      else if stage = ''subject_confirmation'' then
        (if tok = asc ''a'' then (PICK_A, [])
         else if tok = asc ''b'' then (PICK_B, [])
         else if tok = asc ''c'' then (PICK_C, [])
         else if startswith low (asc ''custom'') \<or> startswith low [20854, 20182]
           then (CUSTOM, strip_prefix raw tok)
         else (CUSTOM, raw))
      else if tok = asc ''a'' \<or> startswith_any low ACCEPT_prefixes
        then (ACCEPT, strip_prefix raw tok)
      else if tok = asc ''b'' \<or> startswith_any low REJECT_prefixes
        then (REJECT, strip_prefix raw tok)
      else if tok = asc ''c'' \<or> startswith_any low MODIFY_prefixes
        then (MODIFY, strip_prefix raw tok)
      else if startswith low (asc ''?'') \<or> endswith low (asc ''?'')
          \<or> startswith low [20026, 20160, 20040]
        then (QUESTION, raw)
      else (CUSTOM, raw))"

section \<open>What the parser returns\<close>

lemmas token_defs = PASS_tokens_def MORE_tokens_def DONE_tokens_def FORCE_CLOSE_tokens_def
  ACCEPT_prefixes_def REJECT_prefixes_def MODIFY_prefixes_def

lemma parse_reply_intent_pad:
  "list_all is_space p \<Longrightarrow> list_all is_space q \<Longrightarrow>
   parse_reply_intent (p @ t @ q) st = parse_reply_intent t st"
  by (simp add: parse_reply_intent_def strip_by_pad)

lemma parse_reply_intent_stripped:
  "strip (snd (parse_reply_intent t st)) = snd (parse_reply_intent t st)"
  by (simp add: parse_reply_intent_def Let_def strip_prefix_def)

lemma parse_reply_intent_qa_no_pick:
  "st \<noteq> ''subject_confirmation'' \<Longrightarrow> fst (parse_reply_intent t st) \<notin> {PICK_A, PICK_B, PICK_C}"
  by (simp add: parse_reply_intent_def Let_def)

lemma parse_reply_intent_subject_range:
  "fst (parse_reply_intent t ''subject_confirmation'')
     \<in> {PASS, MORE, DONE, FORCE_CLOSE, PICK_A, PICK_B, PICK_C, CUSTOM}"
  by (simp add: parse_reply_intent_def Let_def)

lemma startswith_Cons_iff:
  "startswith (c # s) (d # p) \<longleftrightarrow> c = d \<and> startswith s p"
  by (auto simp: startswith_def)

lemma startswith_Nil_iff [simp]: "startswith [] p \<longleftrightarrow> p = []"
  by (auto simp: startswith_def)

lemma startswith_single: "startswith s [c] \<Longrightarrow> \<exists>r. s = c # r"
  by (cases s) (auto simp: startswith_Cons_iff)

lemma first_token_Cons: "\<not> is_token_sep c \<Longrightarrow> first_token (c # r) = c # first_token r"
  by (simp add: first_token_def)

text \<open>
  In the Q\&A loop the first letter decides: a reply that starts with \<open>a\<close> is an
  acceptance and one that starts with \<open>b\<close> a rejection, whatever follows.
\<close>

lemma parse_reply_intent_a:
  assumes "startswith (lower (strip t)) (asc ''a'')" and "st \<noteq> ''subject_confirmation''"
  shows "fst (parse_reply_intent t st) = ACCEPT"
proof -
  obtain r where low: "lower (strip t) = 97 # r"
    using assms(1) startswith_single by fastforce
  have tok: "first_token (97 # r) = 97 # first_token r"
    by (rule first_token_Cons) (simp add: is_token_sep_def is_space_def)
  show ?thesis
    using assms(2)
    by (simp add: parse_reply_intent_def Let_def low tok token_defs startswith_any_def
        startswith_Cons_iff)
qed

lemma parse_reply_intent_b:
  assumes "startswith (lower (strip t)) (asc ''b'')" and "st \<noteq> ''subject_confirmation''"
  shows "fst (parse_reply_intent t st) = REJECT"
proof -
  obtain r where low: "lower (strip t) = 98 # r"
    using assms(1) startswith_single by fastforce
  have tok: "first_token (98 # r) = 98 # first_token r"
    by (rule first_token_Cons) (simp add: is_token_sep_def is_space_def)
  show ?thesis
    using assms(2)
    by (simp add: parse_reply_intent_def Let_def low tok token_defs startswith_any_def
        startswith_Cons_iff)
qed

lemma parse_reply_intent_c:
  assumes "startswith (lower (strip t)) (asc ''c'')" and "st \<noteq> ''subject_confirmation''"
  shows "fst (parse_reply_intent t st) \<in> {DONE, MODIFY}"
proof -
  obtain r where low: "lower (strip t) = 99 # r"
    using assms(1) startswith_single by fastforce
  have tok: "first_token (99 # r) = 99 # first_token r"
    by (rule first_token_Cons) (simp add: is_token_sep_def is_space_def)
  show ?thesis
    using assms(2)
    by (auto simp: parse_reply_intent_def Let_def low tok token_defs startswith_any_def
        startswith_Cons_iff)
qed

text \<open>
  Hence a question is recognised only when it starts with neither of the three letters:
  an English question such as "can you explain?" is read as a modification.
\<close>

lemma parse_reply_intent_question:
  assumes "fst (parse_reply_intent t st) = QUESTION" and "st \<noteq> ''subject_confirmation''"
  shows "\<not> startswith_any (lower (strip t)) [asc ''a'', asc ''b'', asc ''c'']"
  using assms parse_reply_intent_a [of t st] parse_reply_intent_b [of t st]
    parse_reply_intent_c [of t st]
  by (auto simp: startswith_any_def)

end
