(* ===== verification/Scan.thy ===== *)
theory Scan imports JsonExtract Intents "HOL-Library.Product_Lexorder" begin

text \<open>
  pipeline/scan.py: the two LLM passes, the reading of their findings, the ranking, and the
  cursor the Q\&A loop starts from.

  A finding id and a priority are a string and an integer (or absent). Python would carry a
  value of another type along; here it is \<open>outside_model\<close>, an exception that nothing catches.
\<close>

section \<open>util/md.py: line ranges\<close>

definition is_line_boundary :: "int \<Rightarrow> bool" where
  "is_line_boundary c \<longleftrightarrow> c \<in> {10, 11, 12, 13, 28, 29, 30, 133, 8232, 8233}"

text \<open>\<open>str.splitlines\<close>; \<open>cur\<close> is the line being read.\<close>

fun split_lines_from :: "ustr \<Rightarrow> ustr \<Rightarrow> ustr list" where
  "split_lines_from cur [] = (if cur = [] then [] else [cur])"
| "split_lines_from cur [c] =
     (if is_line_boundary c then [cur] else [cur @ [c]])"
| "split_lines_from cur (c # d # s) =
     (if c = 13 \<and> d = 10 then cur # split_lines_from [] s
      else if is_line_boundary c then cur # split_lines_from [] (d # s)
      else split_lines_from (cur @ [c]) (d # s))"

definition splitlines :: "ustr \<Rightarrow> ustr list" where
  "splitlines s = split_lines_from [] s"

text \<open>\<open>lines[max(0, start - 1) : end]\<close>; no \<open>end\<close> is the whole rest.\<close>

definition line_range_snippet :: "ustr \<Rightarrow> int \<Rightarrow> int option \<Rightarrow> ustr" where
  "line_range_snippet text start stop =
     (let ls = splitlines text;
          upto = (case stop of None \<Rightarrow> ls | Some n \<Rightarrow> slice_to ls n);
          chunk = join [10] (drop (nat (max 0 (start - 1))) upto)
      in if length chunk > 120 then take 119 chunk @ [8230] else chunk)"

section \<open>Reading the findings\<close>

definition outside_model :: exn where
  "outside_model = OtherError (asc ''outside the model'')"

definition parse_severity :: "json \<Rightarrow> exn + severity" where
  "parse_severity j =
     (case j of JStr s \<Rightarrow> (case severity_of (upper s) of None \<Rightarrow> Inl ValueError | Some v \<Rightarrow> Inr v)
      | _ \<Rightarrow> Inl AttributeError)"

definition parse_pillar :: "json \<Rightarrow> exn + pillar" where
  "parse_pillar j =
     (case j of JStr s \<Rightarrow> (case pillar_of s of None \<Rightarrow> Inl ValueError | Some v \<Rightarrow> Inr v)
      | _ \<Rightarrow> Inl ValueError)"

text \<open>\<open>item[k]\<close> on a value that may not be a dict.\<close>

definition item_key :: "json \<Rightarrow> string \<Rightarrow> exn + json" where
  "item_key j k =
     (case j of JObj d \<Rightarrow> (case map_of d (asc k) of None \<Rightarrow> Inl KeyError | Some v \<Rightarrow> Inr v)
      | _ \<Rightarrow> Inl TypeError)"

fun as_int :: "json \<Rightarrow> exn + int" where
  "as_int (JInt i) = Inr i"
| "as_int (JBool b) = Inr (if b then 1 else 0)"
| "as_int _ = Inl TypeError"

text \<open>\<open>line_range_snippet(normalized, line_range[0], line_range[-1])\<close> for a truthy \<open>line_range\<close>.\<close>

definition snippet_of_range :: "ustr \<Rightarrow> json \<Rightarrow> exn + ustr" where
  "snippet_of_range text lr =
     (case lr of
        JArr js \<Rightarrow>
          (case as_int (hd js) of Inl x \<Rightarrow> Inl x
           | Inr a \<Rightarrow>
             (case last js of JNull \<Rightarrow> Inr (line_range_snippet text a None)
              | j \<Rightarrow> (case as_int j of Inl x \<Rightarrow> Inl x
                      | Inr b \<Rightarrow> Inr (line_range_snippet text a (Some b)))))
      | JObj d \<Rightarrow> Inl KeyError
      | _ \<Rightarrow> Inl TypeError)"

text \<open>\<open>tuple(line_range) if line_range else None\<close>\<close>

definition range_tuple :: "json \<Rightarrow> exn + json list option" where
  "range_tuple lr =
     (if \<not> truthy lr then Inr None
      else case lr of JArr js \<Rightarrow> Inr (Some js) | JStr s \<Rightarrow> Inr (Some (map (\<lambda>c. JStr [c]) s))
         | JObj d \<Rightarrow> Inr (Some (map (\<lambda>(k, v). JStr k) d)) | _ \<Rightarrow> Inl TypeError)"

definition hash_of_snippet :: "env \<Rightarrow> json \<Rightarrow> exn + ustr option" where
  "hash_of_snippet e j =
     (if \<not> truthy j then Inr None
      else case j of JStr s \<Rightarrow> Inr (Some (text_hash e s)) | _ \<Rightarrow> Inl AttributeError)"

definition parse_anchor :: "env \<Rightarrow> ustr \<Rightarrow> obj \<Rightarrow> exn + anchor" where
  "parse_anchor e text raw =
     (let lr = obj_get raw ''line_range''; sn = obj_get_or raw ''snippet'' (JStr []) in
      case (if \<not> truthy sn \<and> truthy lr
            then (case snippet_of_range text lr of Inl x \<Rightarrow> Inl x | Inr s \<Rightarrow> Inr (JStr s))
            else Inr sn) of
        Inl x \<Rightarrow> Inl x
      | Inr snippet \<Rightarrow>
        (case range_tuple lr of Inl x \<Rightarrow> Inl x
         | Inr rt \<Rightarrow>
           (case hash_of_snippet e snippet of Inl x \<Rightarrow> Inl x
            | Inr h \<Rightarrow> Inr \<lparr>a_section = obj_get raw ''section'', a_line_range = rt,
                a_text_hash = h, a_snippet = snippet\<rparr>)))"

definition parse_id :: "json \<Rightarrow> ustr \<Rightarrow> nat \<Rightarrow> exn + ustr" where
  "parse_id j pfx i =
     (if \<not> truthy j then Inr (pfx @ nat_digits i)
      else case j of JStr s \<Rightarrow> Inr s | _ \<Rightarrow> Inl outside_model)"

fun parse_priority :: "json \<Rightarrow> exn + int option" where
  "parse_priority JNull = Inr None"
| "parse_priority (JInt i) = Inr (Some i)"
| "parse_priority _ = Inl outside_model"

text \<open>The body of the \<open>try\<close> for one item; the time stamp is the caller's.\<close>

definition parse_item ::
  "env \<Rightarrow> ustr \<Rightarrow> finding_source \<Rightarrow> ustr \<Rightarrow> nat \<Rightarrow> json \<Rightarrow> ustr \<Rightarrow> exn + finding" where
  "parse_item e text source pfx i item ts =
     (case item_key item ''pillar'' of Inl x \<Rightarrow> Inl x | Inr jp \<Rightarrow>
     (case parse_pillar jp of Inl x \<Rightarrow> Inl x | Inr p \<Rightarrow>
     (case item_key item ''severity'' of Inl x \<Rightarrow> Inl x | Inr js \<Rightarrow>
     (case parse_severity js of Inl x \<Rightarrow> Inl x | Inr sv \<Rightarrow>
     (case as_obj item of Inl x \<Rightarrow> Inl x | Inr d \<Rightarrow>
     (case (if truthy (obj_get d ''anchor'') then as_obj (obj_get d ''anchor'') else Inr []) of
        Inl x \<Rightarrow> Inl x | Inr raw \<Rightarrow>
     (case parse_anchor e text raw of Inl x \<Rightarrow> Inl x | Inr an \<Rightarrow>
     (case parse_id (obj_get d ''id'') pfx i of Inl x \<Rightarrow> Inl x | Inr fid \<Rightarrow>
     (case parse_priority (obj_get d ''priority'') of Inl x \<Rightarrow> Inl x | Inr pr \<Rightarrow>
        Inr \<lparr>f_id = fid, f_round = 1, f_created_at = ts, f_source = source, f_pillar = p,
          f_severity = sv, f_issue = obj_get_or d ''issue'' (JStr []),
          f_suggest = obj_get_or d ''suggest'' (JStr []), f_anchor = an, f_status = OPEN,
          f_simulated_question = obj_get d ''simulated_question'', f_priority = pr\<rparr>)))))))))"

definition skippable :: "exn \<Rightarrow> bool" where
  "skippable x \<longleftrightarrow> x = KeyError \<or> x = ValueError"

text \<open>The loop: \<open>KeyError\<close> and \<open>ValueError\<close> skip the item, everything else escapes.\<close>

fun parse_items ::
  "env \<Rightarrow> ustr \<Rightarrow> finding_source \<Rightarrow> ustr \<Rightarrow> nat \<Rightarrow> json list \<Rightarrow> finding list act" where
  "parse_items e text source pfx i [] = ret []"
| "parse_items e text source pfx i (item # items) =
     bnd (ask (clock e)) (\<lambda>ts.
     case parse_item e text source pfx i item ts of
       Inl x \<Rightarrow> if skippable x then parse_items e text source pfx (Suc i) items
                else raise_exn x
     | Inr f \<Rightarrow> bnd (parse_items e text source pfx (Suc i) items) (\<lambda>fs. ret (f # fs)))"

text \<open>\<open>env.get("findings", [])\<close> of a dict, iterated: an empty string or dict yields nothing, a
  non-empty one yields strings, whose \<open>["pillar"]\<close> is a \<open>TypeError\<close>.\<close>

definition raw_findings :: "json \<Rightarrow> exn + json list" where
  "raw_findings j =
     (case j of
        JObj d \<Rightarrow>
          (case obj_get_or d ''findings'' (JArr []) of
             JArr xs \<Rightarrow> Inr xs
           | JStr s \<Rightarrow> Inr (map (\<lambda>c. JStr [c]) s)
           | JObj ps \<Rightarrow> Inr (map (\<lambda>(k, v). JStr k) ps)
           | _ \<Rightarrow> Inl TypeError)
      | _ \<Rightarrow> Inr [])"

definition parse_findings ::
  "env \<Rightarrow> ustr \<Rightarrow> ustr \<Rightarrow> finding_source \<Rightarrow> ustr \<Rightarrow> finding list act" where
  "parse_findings e content text source pfx =
     bnd (lift_sum (extract_json e content)) (\<lambda>j.
     bnd (lift_sum (raw_findings j)) (\<lambda>items.
     parse_items e text source pfx 1 items))"

section \<open>Ranking\<close>

fun sev_order :: "severity \<Rightarrow> nat" where
  "sev_order BLOCKER = 0"
| "sev_order IMPROVEMENT = 1"
| "sev_order NICE_TO_HAVE = 2"

definition priority_or_99 :: "int option \<Rightarrow> int" where
  "priority_or_99 p = (case p of None \<Rightarrow> 99 | Some i \<Rightarrow> if i = 0 then 99 else i)"

definition rank_key :: "finding \<Rightarrow> nat \<times> nat \<times> int \<times> ustr" where
  "rank_key f = (sev_order (f_severity f), if f_pillar f = Intent_pillar then 0 else 1,
     priority_or_99 (f_priority f), f_id f)"

definition ranked :: "finding list \<Rightarrow> finding list" where
  "ranked fs = sort_key rank_key fs"

definition prioritize :: "finding list \<Rightarrow> ustr list" where
  "prioritize fs = map f_id (ranked fs)"

definition start_cursor :: "int \<Rightarrow> ustr list \<Rightarrow> cursor" where
  "start_cursor n ids =
     (let p = slice_to ids n in
      \<lparr>current_id = (case p of [] \<Rightarrow> None | i # _ \<Rightarrow> Some i),
       pending = (case p of [] \<Rightarrow> [] | _ # rest \<Rightarrow> rest),
       deferred = slice_from ids n, done_ids = [], regression_rescan = False\<rparr>)"

section \<open>The scan\<close>

text \<open>Both passes, up to the list of all findings; then the findings are stored and ranked.\<close>

definition scan_pass :: "env \<Rightarrow> session \<Rightarrow> user option \<Rightarrow> string \<Rightarrow> int \<Rightarrow> llm_purpose \<Rightarrow> ustr \<Rightarrow>
    finding_source \<Rightarrow> ustr \<Rightarrow> finding list act" where
  "scan_pass e s responder st max_tokens purpose txt source pfx =
     bnd (lift_sum (persona_request (cfg_default_model e) max_tokens responder s purpose)) (\<lambda>rq.
     bnd (llm_ask e rq) (\<lambda>resp.
     andthen (log_llm_call (s_id s) st resp)
     (parse_findings e (rs_content resp) txt source pfx)))"

definition scan_collect :: "env \<Rightarrow> session \<Rightarrow> user option \<Rightarrow> finding list act" where
  "scan_collect e s responder =
     bnd (read_file s normalized_md) (\<lambda>doc.
     bnd (scan_pass e s responder ''scan_four_pillar'' 8192
            (ReqScanFourPillar (subject_or_untitled s) (round_no s) doc) doc FOUR_PILLAR (asc ''p''))
       (\<lambda>fa.
     bnd (scan_pass e s responder ''scan_responder_sim'' 4096
            (ReqScanResponderSim (subject_or_untitled s) doc) doc RESPONDER_SIM (asc ''r'')) (\<lambda>fb.
     ret (fa @ fb))))"

definition scan_run :: "env \<Rightarrow> session \<Rightarrow> user option \<Rightarrow> cursor act" where
  "scan_run e s responder =
     bnd (scan_collect e s responder) (\<lambda>fs.
     andthen (for_each fs (append_finding s))
     (let c = start_cursor (cfg_top_n_findings e) (prioritize fs) in
      andthen (save_cursor s c)
      (andthen (update_session (s_id s) [Set_stage QA_ACTIVE])
      (ret c))))"

section \<open>Steps\<close>

context call_effects
begin

lemma steps_parse_items [step_rules]: "steps R (parse_items e text source pfx i items)"
  by (induction items arbitrary: i)
     (auto intro!: steps_intros step_rules)

lemma steps_parse_findings [step_rules]: "steps R (parse_findings e content text source pfx)"
  unfolding parse_findings_def by (intro steps_intros step_rules)

end

context staged_effects
begin

lemma steps_scan_pass [step_rules]:
  "own s \<Longrightarrow> steps R (scan_pass e s r st n purpose doc source pfx)"
  unfolding scan_pass_def by (intro steps_intros step_rules)

lemma steps_scan_run [step_rules]: "own s \<Longrightarrow> QA_ACTIVE \<in> S \<Longrightarrow> steps R (scan_run e s r)"
  unfolding scan_run_def scan_collect_def by (intro steps_intros step_rules) simp_all

end

section \<open>What a scan leaves behind\<close>

lemma parse_item_ok:
  "parse_item e txt source pfx i item ts = Inr f \<Longrightarrow>
   f_id f \<noteq> [] \<or> pfx = [] \<and> nat_digits i = []"
  "parse_item e txt source pfx i item ts = Inr f \<Longrightarrow> f_status f = OPEN \<and> f_source f = source"
  by (auto simp: parse_item_def parse_id_def split: sum.splits if_splits json.splits)

lemma parse_items_ok:
  assumes "parse_items e txt source pfx i items w = (Inr fs, w')" and "pfx \<noteq> []"
  shows "length fs \<le> length items \<and> (\<forall>f \<in> set fs. f_id f \<noteq> [] \<and> f_status f = OPEN \<and> f_source f = source)"
  using assms(1)
proof (induction items arbitrary: i w fs w')
  case Nil
  then show ?case by (simp add: run_simps)
next
  case (Cons item items)
  show ?case
  proof (cases "parse_item e txt source pfx i item (clock e (tick w))")
    case (Inl x)
    then have "parse_items e txt source pfx (Suc i) items (ticked w) = (Inr fs, w')"
      using Cons.prems by (auto simp: run_simps split: if_splits)
    from Cons.IH [OF this] show ?thesis by auto
  next
    case (Inr f)
    with Cons.prems obtain gs w1 where "parse_items e txt source pfx (Suc i) items (ticked w) = (Inr gs, w1)"
      and fs: "fs = f # gs"
      by (auto simp: run_simps elim!: bnd_InrE)
    from Cons.IH [OF this(1)] fs show ?thesis
      using parse_item_ok [OF Inr] assms(2) by auto
  qed
qed

lemma append_findings_run:
  "\<exists>w'. for_each fs (append_finding s) w = (Inr (), w')
     \<and> rows_at w' s = rows_at w s @ map to_jsonl fs \<and> sessions w' = sessions w"
proof (induction fs arbitrary: w)
  case Nil
  then show ?case by (simp add: run_simps)
next
  case (Cons f fs)
  let ?w = "w_folder (key_of s) (\<lambda>d. d\<lparr>annotations := annotations d @ [to_jsonl f]\<rparr>) w"
  have "rows_at ?w s = rows_at w s @ [to_jsonl f]" by (simp add: rows_at_def)
  then show ?case
    using Cons.IH [of ?w] by (auto simp: append_finding_def run_simps)
qed

lemma start_cursor_laws:
  "queue_of (start_cursor n ids) = slice_to ids n" "deferred (start_cursor n ids) = slice_from ids n"
  "done_ids (start_cursor n ids) = []" "all_ids (start_cursor n ids) = ids"
proof -
  show q: "queue_of (start_cursor n ids) = slice_to ids n"
    by (auto simp: start_cursor_def Let_def queue_of_def split: list.splits)
  show d: "deferred (start_cursor n ids) = slice_from ids n" "done_ids (start_cursor n ids) = []"
    by (simp_all add: start_cursor_def Let_def)
  show "all_ids (start_cursor n ids) = ids"
    by (simp add: all_ids_def q d)
qed

text \<open>The passes leave the findings and the session rows alone.\<close>

definition keeps_rows :: "session \<Rightarrow> world \<Rightarrow> world \<Rightarrow> bool" where
  "keeps_rows s w w' \<longleftrightarrow> rows_at w' s = rows_at w s \<and> sessions w' = sessions w"

interpretation row_keeping: call_effects "keeps_rows s" for s
  by unfold_locales
     (simp_all add: keeps_rows_def rows_at_def w_sent_def folder_at_def)

lemma keeps_rows_log_llm_call [step_rules]: "steps (keeps_rows s) (log_llm_call sid st resp)"
  by (auto simp: steps_def keeps_rows_def log_llm_call_def prog_simps)

lemma keeps_rows_scan_collect: "steps (keeps_rows s) (scan_collect e s r)"
  unfolding scan_collect_def scan_pass_def
  by (intro row_keeping.steps_intros step_rules)

definition fresh_findings :: "finding list \<Rightarrow> bool" where
  "fresh_findings fs \<longleftrightarrow> (\<forall>f \<in> set fs. f_status f = OPEN \<and> f_id f \<noteq> [])"

lemma scan_pass_fresh:
  assumes "scan_pass e s r st n purpose doc source pfx w = (Inr fs, w')" and "pfx \<noteq> []"
  shows "fresh_findings fs"
  using assms
  by (auto simp: scan_pass_def parse_findings_def fresh_findings_def dest: parse_items_ok
      elim!: bnd_InrE)

lemma scan_collect_fresh:
  "scan_collect e s r w = (Inr fs, w') \<Longrightarrow> fresh_findings fs"
  unfolding scan_collect_def
  by (elim bnd_InrE) (auto dest!: scan_pass_fresh simp: run_simps fresh_findings_def)

lemma ranked_laws: "mset (ranked fs) = mset fs" "sorted (map rank_key (ranked fs))"
  by (simp_all add: ranked_def)

lemma rank_key_severity: "rank_key f \<le> rank_key g \<Longrightarrow> sev_order (f_severity f) \<le> sev_order (f_severity g)"
  by (auto simp: rank_key_def less_eq_prod_def)

text \<open>C18: A scan that succeeds appends the rows of every finding it accepted and starts the Q\&A
  from all of them: queue and deferred list together are the ids of the findings in rank order
  (severity first, then the Intent pillar, the priority and the id), the queue holds the first
  \<open>top_n_findings\<close>, all findings are open and the session is in \<open>qa_active\<close>.\<close>

theorem scan_run_result:
  assumes "scan_run e s responder w = (Inr c, w')" and "0 < cfg_top_n_findings e"
  shows "\<exists>fs. rows_at w' s = rows_at w s @ map to_jsonl fs
     \<and> queue_of c @ deferred c = map f_id (ranked fs)
     \<and> length (queue_of c) = min (nat (cfg_top_n_findings e)) (length fs)
     \<and> mset (ranked fs) = mset fs \<and> sorted (map rank_key (ranked fs))
     \<and> (\<forall>f \<in> set fs. f_status f = OPEN \<and> f_id f \<noteq> []) \<and> done_ids c = []
     \<and> cursor_at w' s = c
     \<and> sessions w' = map (\<lambda>r. if s_id r = s_id s then r\<lparr>s_stage := QA_ACTIVE\<rparr> else r) (sessions w)"
proof -
  obtain fs w1 where col: "scan_collect e s responder w = (Inr fs, w1)"
    and rest: "andthen (for_each fs (append_finding s))
     (let c = start_cursor (cfg_top_n_findings e) (prioritize fs) in
      andthen (save_cursor s c)
      (andthen (update_session (s_id s) [Set_stage QA_ACTIVE])
      (ret c))) w1 = (Inr c, w')"
    using assms(1) [unfolded scan_run_def] by (rule bnd_InrE)
  have keep: "rows_at w1 s = rows_at w s" "sessions w1 = sessions w"
    using stepsE [OF keeps_rows_scan_collect col] by (simp_all add: keeps_rows_def)
  obtain w2 where app: "for_each fs (append_finding s) w1 = (Inr (), w2)"
    and w2: "rows_at w2 s = rows_at w s @ map to_jsonl fs" "sessions w2 = sessions w"
    using append_findings_run [of fs s w1] keep by auto
  have c: "c = start_cursor (cfg_top_n_findings e) (prioritize fs)"
    and w': "w' = w_update_session (s_id s) [Set_stage QA_ACTIVE]
       (w_folder (key_of s) (\<lambda>d. d\<lparr>cursor_file := Some c\<rparr>) w2)"
    using rest by (auto simp: bnd_Inr [where m = "for_each fs (append_finding s)", OF app] run_simps Let_def)
  have "length (queue_of c) = min (nat (cfg_top_n_findings e)) (length fs)"
    using assms(2) by (simp add: c start_cursor_laws slice_to_def prioritize_def ranked_def)
  then show ?thesis
    using w2 scan_collect_fresh [OF col]
    by (intro exI [of _ fs])
       (simp add: c w' start_cursor_laws prioritize_def ranked_laws fresh_findings_def
         sessions_w_update)
qed

definition scan_env :: env where
  "scan_env = demo_env\<lparr>json_loads := (\<lambda>s. Some (JObj [(asc ''findings'', JArr
     [JObj [(asc ''id'', JStr (asc ''x'')), (asc ''pillar'', JStr (asc ''Framework'')),
            (asc ''severity'', JStr (asc ''improvement''))],
      JObj [(asc ''pillar'', JStr (asc ''Other'')), (asc ''severity'', JStr (asc ''BLOCKER''))],
      JObj [(asc ''pillar'', JStr (asc ''Intent'')), (asc ''severity'', JStr (asc ''Blocker''))]])]))\<rparr>"

lemma scan_demo_run:
  "fst (scan_run scan_env demo_session (Some demo_responder) demo_world) =
     Inr \<lparr>current_id = Some (asc ''p3''), pending = [asc ''r3'', asc ''x'', asc ''x''],
       deferred = [], done_ids = [], regression_rescan = False\<rparr>"
  by code_simp

theorem scan_run_result_witness:
  "\<exists>c w' fs. scan_run scan_env demo_session (Some demo_responder) demo_world = (Inr c, w')
     \<and> queue_of c = [asc ''p3'', asc ''r3'', asc ''x'', asc ''x'']
     \<and> queue_of c @ deferred c = map f_id (ranked fs) \<and> sorted (map rank_key (ranked fs))"
proof -
  obtain c w' where run: "scan_run scan_env demo_session (Some demo_responder) demo_world = (Inr c, w')"
    and c: "c = \<lparr>current_id = Some (asc ''p3''), pending = [asc ''r3'', asc ''x'', asc ''x''],
       deferred = [], done_ids = [], regression_rescan = False\<rparr>"
    using scan_demo_run by (cases "scan_run scan_env demo_session (Some demo_responder) demo_world") simp
  have "0 < cfg_top_n_findings scan_env" by (simp add: scan_env_def)
  from scan_run_result [OF run this]
  obtain fs where "queue_of c @ deferred c = map f_id (ranked fs)" "sorted (map rank_key (ranked fs))"
    by blast
  with run c show ?thesis by (auto simp: queue_of_def)
qed

end
