(* ===== verification/ConfirmTopic.thy ===== *)
theory ConfirmTopic imports JsonExtract Intents begin

text \<open>
  pipeline/confirm\_topic.py: asking the LLM for candidate subjects, and reading the reply
  that picks one or gives another.
\<close>

section \<open>Proposing\<close>

definition propose_topics :: "env \<Rightarrow> session \<Rightarrow> user option \<Rightarrow> obj act" where
  "propose_topics e s responder =
     bnd (read_file s normalized_md) (\<lambda>doc.
     bnd (lift_sum (persona_request (cfg_fast_model e) 2048 responder s (ReqConfirmTopic doc))) (\<lambda>rq.
     bnd (llm_ask e rq) (\<lambda>resp.
     bnd (lift_sum (extract_json e (rs_content resp))) (\<lambda>j.
     andthen (log_llm_call (s_id s) ''confirm_topic'' resp)
     (bnd (lift_sum (as_obj j)) (\<lambda>d.
     andthen (update_session (s_id s) [Set_stage SUBJECT_CONFIRMATION,
       Set_meta (obj_set (meta s) (asc ''topic_candidates'') (obj_get_or d ''candidates'' (JArr [])))])
     (ret d)))))))"

section \<open>Picking\<close>

definition trim_seps :: "int list" where
  "trim_seps = [10, 12290, 65311, 63, 33, 65281]"

text \<open>The first separator of the list that occurs among the first 60 characters cuts the text.\<close>

fun cut_at_sep :: "int list \<Rightarrow> ustr \<Rightarrow> ustr" where
  "cut_at_sep [] s = s"
| "cut_at_sep (c # cs) s =
     (case find_sub s [c] of
        Some i \<Rightarrow> if i < 60 then take i s else cut_at_sep cs s
      | None \<Rightarrow> cut_at_sep cs s)"

definition trim_subject :: "ustr \<Rightarrow> ustr" where
  "trim_subject t =
     (let s = cut_at_sep trim_seps (strip t);
          s' = (if 60 < length s then take 59 s @ [8230] else s);
          r = strip s'
      in if r = [] then asc ''(untitled)'' else r)"

text \<open>\<open>candidates[k]["topic"]\<close>, \<open>candidates\<close> being whatever JSON the LLM gave.\<close>

definition topic_of :: "json \<Rightarrow> exn + json" where
  "topic_of j =
     (case j of JObj d \<Rightarrow> (case map_of d (asc ''topic'') of None \<Rightarrow> Inl KeyError | Some v \<Rightarrow> Inr v)
      | _ \<Rightarrow> Inl TypeError)"

definition candidate_topic :: "json \<Rightarrow> nat \<Rightarrow> exn + json" where
  "candidate_topic cands k =
     (case cands of
        JArr xs \<Rightarrow> (if k < length xs then topic_of (xs ! k) else Inl IndexError)
      | JObj d \<Rightarrow> Inl KeyError
      | _ \<Rightarrow> Inl TypeError)"

fun json_len :: "json \<Rightarrow> exn + nat" where
  "json_len (JArr xs) = Inr (length xs)"
| "json_len (JStr s) = Inr (length s)"
| "json_len (JObj d) = Inr (length d)"
| "json_len _ = Inl TypeError"

text \<open>The candidate a letter picks, or the custom text; \<open>JNull\<close> when there is none.\<close>

definition pick_topic :: "json \<Rightarrow> intent \<Rightarrow> ustr \<Rightarrow> exn + json" where
  "pick_topic cands i rest =
     (if i = PICK_A then (if truthy cands then candidate_topic cands 0 else Inr JNull)
      else if i = PICK_B then
        (case json_len cands of Inl x \<Rightarrow> Inl x
         | Inr n \<Rightarrow> if 1 < n then candidate_topic cands 1 else Inr JNull)
      else if i = PICK_C then
        (case json_len cands of Inl x \<Rightarrow> Inl x
         | Inr n \<Rightarrow> if 2 < n then candidate_topic cands 2 else Inr JNull)
      else if i = CUSTOM \<and> rest \<noteq> [] then Inr (JStr rest)
      else Inr JNull)"

definition topic_reply :: "env \<Rightarrow> session \<Rightarrow> ustr \<Rightarrow> (intent \<times> ustr option) act" where
  "topic_reply e s reply =
     (let (i, rest) = parse_reply_intent reply ''subject_confirmation'' in
      bnd (lift_sum (pick_topic (obj_get_or (meta s) ''topic_candidates'' (JArr [])) i rest)) (\<lambda>chosen.
      if \<not> truthy chosen then ret (i, None)
      else case chosen of
        JStr t \<Rightarrow>
          andthen (update_session (s_id s) [Set_subject (Some (trim_subject t)), Set_stage SCANNING])
          (andthen (log_conversation e s ''requester'' reply i)
          (ret (i, Some (trim_subject t))))
      | _ \<Rightarrow> raise_exn AttributeError))"

section \<open>Steps\<close>

context staged_effects
begin

lemma steps_propose_topics [step_rules]: "own s \<Longrightarrow> SUBJECT_CONFIRMATION \<in> S \<Longrightarrow> steps R (propose_topics e s r)"
  unfolding propose_topics_def by (intro steps_intros step_rules) simp_all

lemma steps_topic_reply [step_rules]:
  assumes "own s" and "SCANNING \<in> S"
  shows "steps R (topic_reply e s reply)"
proof -
  have "steps R (case j of
        JStr t \<Rightarrow>
          andthen (update_session (s_id s) [Set_subject (Some (trim_subject t)), Set_stage SCANNING])
          (andthen (log_conversation e s ''requester'' reply i)
          (ret (i, Some (trim_subject t))))
      | _ \<Rightarrow> raise_exn AttributeError)" for j i
    using assms by (cases j) (auto intro!: steps_intros step_rules)
  then show ?thesis
    unfolding topic_reply_def by (intro steps_let steps_prod steps_bnd steps_lift steps_if steps_ret)
qed

end

section \<open>Properties\<close>

lemma find_sub_char: "find_sub s [c] = (if c \<in> set s then Some (length (takeWhile (\<lambda>x. x \<noteq> c) s)) else None)"
  by (induction s) (auto simp: startswith_def)

lemma take_find_char: "find_sub s [c] = Some i \<Longrightarrow> c \<notin> set (take i s)"
proof -
  assume "find_sub s [c] = Some i"
  then have "i = length (takeWhile (\<lambda>x. x \<noteq> c) s)" by (simp add: find_sub_char split: if_splits)
  then have "take i s = takeWhile (\<lambda>x. x \<noteq> c) s" by (metis takeWhile_eq_take)
  then show ?thesis by (auto dest: set_takeWhileD)
qed

lemma cut_at_sep_prefix: "\<exists>n. cut_at_sep cs s = take n s"
proof (induction cs)
  case Nil
  show ?case by (rule exI [of _ "length s"]) simp
next
  case (Cons c cs)
  then show ?case by (auto split: option.splits)
qed

lemma newline_late:
  assumes "find_sub s [10] = None \<or> (\<exists>i. find_sub s [10] = Some i \<and> 60 \<le> i)"
  shows "10 \<notin> set (take 60 s)"
proof (cases "find_sub s [10]")
  case None
  then have "10 \<notin> set s" by (simp add: find_sub_char split: if_splits)
  then show ?thesis by (auto dest: in_set_takeD)
next
  case (Some i)
  with assms have "60 \<le> i" by simp
  then have "set (take 60 s) \<subseteq> set (take i s)" by (rule set_take_subset_set_take)
  then show ?thesis using take_find_char [OF Some] by blast
qed

lemma trim_no_newline:
  "10 \<notin> set (take 60 (cut_at_sep trim_seps s))"
proof (cases "\<exists>i. find_sub s [10] = Some i \<and> i < 60")
  case True
  then obtain i where i: "find_sub s [10] = Some i" "i < 60" by blast
  then have "cut_at_sep trim_seps s = take i s" by (simp add: trim_seps_def)
  then have "set (take 60 (cut_at_sep trim_seps s)) \<subseteq> set (take i s)" by (simp add: set_take_subset_set_take)
  then show ?thesis using take_find_char [OF i(1)] by blast
next
  case False
  then have "find_sub s [10] = None \<or> (\<exists>i. find_sub s [10] = Some i \<and> 60 \<le> i)"
    by (cases "find_sub s [10]") auto
  then have late: "10 \<notin> set (take 60 s)" by (rule newline_late)
  obtain n where "cut_at_sep trim_seps s = take n s" using cut_at_sep_prefix by blast
  then have "set (take 60 (cut_at_sep trim_seps s)) \<subseteq> set (take 60 s)"
    by (simp add: set_take_subset_set_take min_def)
  then show ?thesis using late by blast
qed

lemma trim_subject_len: "length (trim_subject t) \<le> 60 \<and> trim_subject t \<noteq> []"
proof -
  let ?s = "cut_at_sep trim_seps (strip t)"
  let ?s' = "if 60 < length ?s then take 59 ?s @ [8230] else ?s"
  have "length ?s' \<le> 60" by simp
  then have "length (strip ?s') \<le> 60" using length_strip_by [of is_space ?s'] by linarith
  then show ?thesis by (simp add: trim_subject_def Let_def)
qed

lemma trim_subject_line:
  "10 \<notin> set (trim_subject t) \<and> strip (trim_subject t) = trim_subject t"
proof -
  let ?s = "cut_at_sep trim_seps (strip t)"
  let ?s' = "if 60 < length ?s then take 59 ?s @ [8230] else ?s"
  have "set (take 59 ?s) \<subseteq> set (take 60 ?s)" by (rule set_take_subset_set_take) simp
  then have "10 \<notin> set ?s'" using trim_no_newline [of "strip t"] by (auto split: if_splits)
  then have "10 \<notin> set (strip ?s')" using set_strip_by [of is_space ?s'] by blast
  moreover have "strip (asc ''(untitled)'') = asc ''(untitled)''" by code_simp
  moreover have "10 \<notin> set (asc ''(untitled)'')" by simp
  ultimately show ?thesis
    by (simp add: trim_subject_def Let_def del: asc_Cons)
qed

text \<open>A subject label is a non-empty single line of at most 60 characters without outer white
  space, however long the reply was.\<close>

theorem trim_subject_bounds:
  "length (trim_subject t) \<le> 60 \<and> trim_subject t \<noteq> [] \<and> 10 \<notin> set (trim_subject t)
   \<and> strip (trim_subject t) = trim_subject t"
  using trim_subject_len trim_subject_line by blast

text \<open>A reply at the subject stage either changes nothing, or records a subject of at most 60
  characters and moves the session to \<open>scanning\<close>: the custom text itself, or the topic of the
  candidate its letter names.\<close>

theorem topic_reply_result:
  assumes "topic_reply e s reply w = (Inr (i, chosen), w')"
  shows "i = fst (parse_reply_intent reply ''subject_confirmation'')
    \<and> (case chosen of
         None \<Rightarrow> w' = w
       | Some t \<Rightarrow> length t \<le> 60 \<and> t \<noteq> [] \<and>
           (\<exists>full. pick_topic (obj_get_or (meta s) ''topic_candidates'' (JArr [])) i
                     (snd (parse_reply_intent reply ''subject_confirmation'')) = Inr (JStr full)
                   \<and> t = trim_subject full) \<and>
           sessions w' = map (\<lambda>r. if s_id r = s_id s then r\<lparr>subject := Some t, s_stage := SCANNING\<rparr> else r)
             (sessions w))"
proof -
  obtain k rest where p: "parse_reply_intent reply ''subject_confirmation'' = (k, rest)"
    by (cases "parse_reply_intent reply ''subject_confirmation''")
  let ?pick = "pick_topic (obj_get_or (meta s) ''topic_candidates'' (JArr [])) k rest"
  obtain j where j: "?pick = Inr j"
    using assms by (cases ?pick) (simp_all add: topic_reply_def p run_simps)
  show ?thesis
  proof (cases "truthy j")
    case False
    then show ?thesis using assms by (auto simp: topic_reply_def p j run_simps)
  next
    case True
    then obtain t where t: "j = JStr t"
      using assms by (cases j) (auto simp: topic_reply_def p j run_simps)
    have len: "length (trim_subject t) \<le> 60" "trim_subject t \<noteq> []"
      using trim_subject_len [of t] by simp_all
    have "chosen = Some (trim_subject t)" "i = k" "sessions w' =
        map (\<lambda>r. if s_id r = s_id s then r\<lparr>subject := chosen, s_stage := SCANNING\<rparr> else r) (sessions w)"
      using assms True
      by (auto simp: topic_reply_def p j t run_simps log_conversation_def sessions_w_update)
    with len j t p show ?thesis by auto
  qed
qed

theorem topic_reply_result_witness:
  "\<exists>i w'. topic_reply demo_env (demo_session\<lparr>meta := [(asc ''topic_candidates'',
       JArr [JObj [(asc ''topic'', JStr (asc ''Budget''))]])]\<rparr>) (asc ''A'') demo_world
     = (Inr (i, Some (asc ''Budget'')), w') \<and> i = PICK_A
     \<and> map s_stage (sessions w') = [SCANNING]"
proof -
  let ?s = "demo_session\<lparr>meta := [(asc ''topic_candidates'',
       JArr [JObj [(asc ''topic'', JStr (asc ''Budget''))]])]\<rparr>"
  have r: "fst (topic_reply demo_env ?s (asc ''A'') demo_world) = Inr (PICK_A, Some (asc ''Budget''))"
    by code_simp
  then obtain w' where run: "topic_reply demo_env ?s (asc ''A'') demo_world = (Inr (PICK_A, Some (asc ''Budget'')), w')"
    by (cases "topic_reply demo_env ?s (asc ''A'') demo_world") simp
  have "sessions w' = map (\<lambda>r. if s_id r = s_id ?s
      then r\<lparr>subject := Some (asc ''Budget''), s_stage := SCANNING\<rparr> else r) (sessions demo_world)"
    using topic_reply_result [OF run] by simp
  then have "map s_stage (sessions w') = [SCANNING]"
    by (simp add: demo_world_def)
  with run show ?thesis by (intro exI [of _ PICK_A] exI [of _ w']) simp
qed

end
