(* ===== verification/QaLoop.thy ===== *)
theory QaLoop imports Llm Intents Demo begin

text \<open>
  pipeline/qa\_loop.py: showing the current finding, interpreting a reply, and reopening the
  queue after a failed final gate. The abstract view of a cursor is the queue of findings
  still to show (\<open>queue_of\<close>): a reply either leaves it alone or takes its head.
\<close>

section \<open>Turns\<close>

datatype turn_action = EmitNext | ProposeClose | ForceClose | NoOp

record turn_outcome =
  action :: turn_action
  dm_text :: "dm option"
  advanced :: bool

text \<open>
  \<open>next((f for f in findings if f["id"] == fid), None)\<close>: a row without an \<open>id\<close> before the
  match raises \<open>KeyError\<close>.
\<close>

fun find_by_id :: "ustr \<Rightarrow> obj list \<Rightarrow> exn + obj option" where
  "find_by_id fid [] = Inr None"
| "find_by_id fid (r # rs) =
     (case map_of r (asc ''id'') of None \<Rightarrow> Inl KeyError
      | Some v \<Rightarrow> if v = JStr fid then Inr (Some r) else find_by_id fid rs)"

definition emit_current :: "env \<Rightarrow> session \<Rightarrow> user option \<Rightarrow> ustr act" where
  "emit_current e s responder =
     bnd (load_cursor s) (\<lambda>c.
     case current_id c of None \<Rightarrow> ret []
     | Some cur \<Rightarrow>
     bnd (load_findings s) (\<lambda>rows.
     bnd (lift_sum (find_by_id cur rows)) (\<lambda>fo.
     case fo of None \<Rightarrow> ret []
     | Some f \<Rightarrow> if f = [] then ret [] else
     bnd (lift_sum (persona_request (cfg_default_model e) 2048 responder s
            (ReqEmitFinding f (round_no s) (cfg_max_rounds e)
               (length (pending c)) (length (deferred c))))) (\<lambda>rq.
     andthen (require_keys [''source'', ''pillar'', ''severity'', ''issue'', ''suggest''] [f])
     (bnd (llm_ask e rq) (\<lambda>resp.
     andthen (log_llm_call (s_id s) ''qa_emit_finding'' resp)
     (ret (strip (rs_content resp)))))))))"

definition status_patch :: "finding_status \<Rightarrow> ustr \<Rightarrow> ustr \<Rightarrow> obj" where
  "status_patch st reply ts =
     [(asc ''status'', JStr (asc (fstatus_value st))), (asc ''reply'', JStr reply),
      (asc ''replied_at'', JStr ts)]"

definition mark_finding ::
  "env \<Rightarrow> session \<Rightarrow> ustr \<Rightarrow> finding_status \<Rightarrow> ustr \<Rightarrow> unit act" where
  "mark_finding e s fid st reply =
     bnd (now_iso e) (\<lambda>ts. update_finding_status s fid (status_patch st reply ts))"

text \<open>The effect of the intent on the current finding; \<open>False\<close>: the turn ends without advancing.\<close>

definition apply_intent ::
  "env \<Rightarrow> session \<Rightarrow> intent \<Rightarrow> ustr \<Rightarrow> ustr \<Rightarrow> obj option \<Rightarrow> bool act" where
  "apply_intent e s i rest cur row =
     (if i = ACCEPT then andthen (mark_finding e s cur ACCEPTED rest) (ret True)
      else if i = REJECT then
        andthen (mark_finding e s cur REJECTED rest)
        (case row of None \<Rightarrow> ret True
         | Some f \<Rightarrow> if f = [] then ret True else andthen (append_dissent s f rest) (ret True))
      else if i = MODIFY then andthen (mark_finding e s cur MODIFIED rest) (ret True)
      else if i = PASS then ret True
      else if i = QUESTION then ret False
      else ret True)"

definition propose :: "dm \<Rightarrow> turn_outcome" where
  "propose d = \<lparr>action = ProposeClose, dm_text = Some d, advanced = False\<rparr>"

definition handle_reply :: "env \<Rightarrow> session \<Rightarrow> ustr \<Rightarrow> turn_outcome act" where
  "handle_reply e s reply =
     bnd (load_cursor s) (\<lambda>c.
     let (i, rest) = parse_reply_intent reply ''qa_loop'' in
     andthen (log_conversation e s ''requester'' reply i)
     (if i = MORE then
        (let (moved, c') = pull_deferred (cfg_top_n_findings e) c in
         andthen (save_cursor s c')
         (if moved = 0 then ret (propose DmNoMoreDeferred)
          else andthen (if current_id c' = None then save_cursor s (advance c') else ret ())
               (ret \<lparr>action = EmitNext, dm_text = None, advanced = True\<rparr>)))
      else if i = DONE then ret (propose DmConfirmClose)
      else if i = FORCE_CLOSE then ret \<lparr>action = ForceClose, dm_text = None, advanced = False\<rparr>
      else case current_id c of
        None \<Rightarrow> ret (propose (DmExhausted (length (deferred c))))
      | Some cur \<Rightarrow>
        bnd (load_findings s) (\<lambda>rows.
        bnd (lift_sum (find_by_id cur rows)) (\<lambda>row.
        bnd (apply_intent e s i rest cur row) (\<lambda>go.
        if \<not> go then ret \<lparr>action = NoOp, dm_text = None, advanced = False\<rparr>
        else
          (let c' = advance c in
           andthen (save_cursor s c')
           (if current_id c' = None \<and> pending c' = []
            then ret (propose (DmBlockersClosed (length (deferred c'))))
            else ret \<lparr>action = EmitNext, dm_text = None, advanced = True\<rparr>)))))))"

definition reopen_cursor :: "ustr list \<Rightarrow> cursor \<Rightarrow> cursor" where
  "reopen_cursor ids c =
     (let c' = c\<lparr>regression_rescan := True, pending := ids @ pending c\<rparr> in
      if current_id c' = None then advance c' else c')"

definition transition_after_final_gate_fail :: "session \<Rightarrow> ustr list \<Rightarrow> cursor act" where
  "transition_after_final_gate_fail s ids =
     bnd (load_cursor s) (\<lambda>c.
     let c' = reopen_cursor ids c in
     andthen (save_cursor s c')
     (andthen (update_session (s_id s)
        [Set_stage QA_ACTIVE_REOPENED, Set_round_no (round_no s + 1)])
     (ret c')))"

section \<open>Steps\<close>

context session_effects
begin

lemma steps_emit_current [step_rules]: "own s \<Longrightarrow> steps R (emit_current e s r)"
  unfolding emit_current_def by (intro steps_intros step_rules)

end

context staged_effects
begin

lemma steps_mark_finding [step_rules]: "own s \<Longrightarrow> steps R (mark_finding e s fid st reply)"
  unfolding mark_finding_def by (intro steps_intros step_rules)

lemma steps_apply_intent [step_rules]: "own s \<Longrightarrow> steps R (apply_intent e s i rest cur row)"
  unfolding apply_intent_def by (intro steps_intros step_rules)

lemma steps_handle_reply [step_rules]: "own s \<Longrightarrow> steps R (handle_reply e s reply)"
  unfolding handle_reply_def by (intro steps_intros step_rules)

lemma steps_transition [step_rules]:
  "own s \<Longrightarrow> QA_ACTIVE_REOPENED \<in> S \<Longrightarrow> steps R (transition_after_final_gate_fail s ids)"
  unfolding transition_after_final_gate_fail_def by (intro steps_intros step_rules) simp_all

end

section \<open>Answers\<close>

text \<open>The intents that answer the current finding, and the status each one writes.\<close>

definition is_answer :: "intent \<Rightarrow> bool" where
  "is_answer i \<longleftrightarrow> i \<notin> {MORE, DONE, FORCE_CLOSE, QUESTION}"

definition status_of_answer :: "intent \<Rightarrow> finding_status option" where
  "status_of_answer i =
     (if i = ACCEPT then Some ACCEPTED else if i = REJECT then Some REJECTED
      else if i = MODIFY then Some MODIFIED else None)"

definition answered_rows :: "intent \<Rightarrow> ustr \<Rightarrow> ustr \<Rightarrow> ustr \<Rightarrow> obj list \<Rightarrow> obj list" where
  "answered_rows i cur rest ts rows =
     (case status_of_answer i of None \<Rightarrow> rows
      | Some st \<Rightarrow> patch_rows cur (status_patch st rest ts) rows)"

definition rows_ok :: "obj list \<Rightarrow> bool" where
  "rows_ok rows \<longleftrightarrow>
     list_all (\<lambda>r. row_on_one_line r \<and> asc ''id'' \<in> set (map fst r)) rows"

lemma rows_ok_parse: "rows_ok rows \<Longrightarrow> parse_rows rows = Inr rows"
  by (auto simp: rows_ok_def parse_rows_def list_all_iff)

lemma find_by_id_ok: "rows_ok rows \<Longrightarrow> \<exists>fo. find_by_id fid rows = Inr fo"
proof (induction rows)
  case Nil
  then show ?case by simp
next
  case (Cons r rows)
  then have "asc ''id'' \<in> set (map fst r)" and "rows_ok rows" by (simp_all add: rows_ok_def)
  then obtain v where "map_of r (asc ''id'') = Some v"
    by (metis domIff dom_map_of_conv_image_fst list.set_map option.exhaust)
  with Cons.IH [OF \<open>rows_ok rows\<close>] show ?case by auto
qed

lemma mark_finding_run:
  assumes "rows_ok (rows_at w s)"
  shows "bnd (mark_finding e s fid st reply) k w =
    k () (w_folder (key_of s) (\<lambda>d. d\<lparr>annotations :=
      patch_rows fid (status_patch st reply (clock e (tick w))) (rows_at w s)\<rparr>) (ticked w))"
  using assms
  by (simp add: mark_finding_def update_finding_status_def run_simps rows_ok_parse rows_at_def)

lemma apply_intent_run:
  fixes s :: session and w :: world
  assumes rows: "rows_ok (rows_at w s)" and i: "is_answer i"
  shows "\<exists>w2. (\<forall>k :: bool \<Rightarrow> turn_outcome act. bnd (apply_intent e s i rest cur fo) k w = k True w2)
     \<and> cursor_at w2 s = cursor_at w s \<and> sessions w2 = sessions w
     \<and> (\<exists>n. rows_at w2 s = answered_rows i cur rest (clock e n) (rows_at w s))"
proof -
  let ?m = "\<lambda>st. w_folder (key_of s) (\<lambda>d. d\<lparr>annotations := patch_rows cur
      (status_patch st rest (clock e (tick w))) (rows_at w s)\<rparr>) (ticked w)"
  consider (mark) st where "i = ACCEPT \<and> st = ACCEPTED \<or> i = MODIFY \<and> st = MODIFIED"
    | (reject) "i = REJECT" | (none) "i \<notin> {ACCEPT, MODIFY, REJECT}" by blast
  then show ?thesis
  proof cases
    case mark
    then show ?thesis
      by (intro exI [of _ "?m st"]) (use rows in \<open>auto simp: apply_intent_def run_simps
          mark_finding_run cursor_at_def rows_at_def answered_rows_def status_of_answer_def\<close>)
  next
    case reject
    then show ?thesis
      by (intro exI [of _ "case fo of None \<Rightarrow> ?m REJECTED | Some f \<Rightarrow> if f = [] then ?m REJECTED else
            w_folder (key_of s) (\<lambda>d. d\<lparr>dissent := dissent d @ [(f, rest)]\<rparr>) (?m REJECTED)"])
         (use rows in \<open>auto simp: apply_intent_def run_simps mark_finding_run cursor_at_def
             rows_at_def answered_rows_def status_of_answer_def append_dissent_def
             split: option.splits\<close>)
  next
    case none
    with i have "apply_intent e s i rest cur fo = ret True"
      by (auto simp: apply_intent_def is_answer_def)
    with none show ?thesis
      by (intro exI [of _ w]) (auto simp: answered_rows_def status_of_answer_def)
  qed
qed

lemma handle_reply_answer_run:
  assumes c: "current_id (cursor_at w s) = Some cur" and rows: "rows_ok (rows_at w s)"
    and p: "parse_reply_intent reply ''qa_loop'' = (i, rest)" and i: "is_answer i"
  shows "\<exists>o' w' n. handle_reply e s reply w = (Inr o', w')
     \<and> action o' = (if is_empty_cursor (advance (cursor_at w s)) then ProposeClose else EmitNext)
     \<and> cursor_at w' s = advance (cursor_at w s)
     \<and> rows_at w' s = answered_rows i cur rest (clock e n) (rows_at w s)
     \<and> sessions w' = sessions w"
proof -
  obtain fo where fo: "find_by_id cur (rows_at w s) = Inr fo"
    using find_by_id_ok [OF rows] by blast
  let ?w1 = "w_folder (key_of s) (\<lambda>d. d\<lparr>conversation := conversation d @
       [\<lparr>ll_ts = clock e (tick w), ll_role = ''requester'', ll_text = reply, ll_intent = i\<rparr>]\<rparr>)
       (ticked w)"
  have w1: "rows_at ?w1 s = rows_at w s" "cursor_at ?w1 s = cursor_at w s" "sessions ?w1 = sessions w"
    by (simp_all add: rows_at_def cursor_at_def)
  obtain w2 n where w2: "\<And>k :: bool \<Rightarrow> turn_outcome act. bnd (apply_intent e s i rest cur fo) k ?w1 = k True w2"
    and r2: "cursor_at w2 s = cursor_at w s" "sessions w2 = sessions w"
      "rows_at w2 s = answered_rows i cur rest (clock e n) (rows_at w s)"
    using apply_intent_run [of ?w1 s i e rest cur fo] rows i w1 by auto
  let ?w3 = "w_folder (key_of s) (\<lambda>d. d\<lparr>cursor_file := Some (advance (cursor_at w s))\<rparr>) w2"
  have "cursor_at ?w3 s = advance (cursor_at w s)" "rows_at ?w3 s = rows_at w2 s"
    "sessions ?w3 = sessions w"
    using r2 by (simp_all add: cursor_at_def rows_at_def)
  moreover have "handle_reply e s reply w =
    (Inr (if is_empty_cursor (advance (cursor_at w s))
      then propose (DmBlockersClosed (length (deferred (cursor_at w s))))
      else \<lparr>action = EmitNext, dm_text = None, advanced = True\<rparr>), ?w3)"
    using i c fo w1 rows_ok_parse [OF rows]
    by (simp add: handle_reply_def p run_simps log_conversation_def is_answer_def w2
        is_empty_cursor_def Let_def)
  ultimately show ?thesis
    using r2 by (auto simp: propose_def)
qed

lemma answered_rows_other:
  "j < length rows \<Longrightarrow> \<not> row_id_is cur (rows ! j) \<Longrightarrow>
   answered_rows i cur rest ts rows ! j = rows ! j"
  by (simp add: answered_rows_def patch_rows_def split: option.splits)

lemma length_answered_rows [simp]:
  "length (answered_rows i cur rest ts rows) = length rows"
  by (simp add: answered_rows_def patch_rows_def split: option.splits)

section \<open>Rows stay readable\<close>

lemma cuts_line_mono: "set t \<subseteq> set s \<Longrightarrow> \<not> cuts_line s \<Longrightarrow> \<not> cuts_line t"
  by (auto simp: cuts_line_def list_ex_iff)

lemma one_line_obj_set:
  "row_on_one_line d \<Longrightarrow> \<not> cuts_line k \<Longrightarrow> json_on_one_line v \<Longrightarrow> row_on_one_line (obj_set d k v)"
  by (induction d k v rule: obj_set.induct) (auto simp: row_on_one_line_def)

lemma one_line_obj_update:
  "row_on_one_line d \<Longrightarrow> row_on_one_line p \<Longrightarrow> row_on_one_line (obj_update d p)"
proof (induction p arbitrary: d)
  case Nil
  then show ?case by simp
next
  case (Cons kv p)
  obtain k v where kv: "kv = (k, v)" by (cases kv)
  have "row_on_one_line (obj_set d k v)"
    using Cons.prems kv by (intro one_line_obj_set) (auto simp: row_on_one_line_def)
  moreover have "row_on_one_line p" using Cons.prems by (auto simp: row_on_one_line_def)
  ultimately show ?case using Cons.IH kv by simp
qed

lemma asc_one_line: "\<not> cuts_line (asc (fstatus_value st))"
  by (cases st) (simp_all add: cuts_line_def)

lemma status_patch_one_line:
  "\<not> cuts_line rest \<Longrightarrow> \<not> cuts_line ts \<Longrightarrow> row_on_one_line (status_patch st rest ts)"
  using asc_one_line [of st]
  by (simp add: status_patch_def row_on_one_line_def) (simp add: cuts_line_def)

lemma patch_rows_ok:
  assumes rows: "rows_ok rows" and rest: "\<not> cuts_line rest" and ts: "\<not> cuts_line ts"
  shows "rows_ok (patch_rows fid (status_patch st rest ts) rows)"
proof -
  let ?p = "status_patch st rest ts"
  have "row_on_one_line (obj_update r ?p) \<and> asc ''id'' \<in> set (map fst (obj_update r ?p))"
    if "r \<in> set rows" for r
    using that rows one_line_obj_update [OF _ status_patch_one_line [OF rest ts]]
      keys_obj_update [of r ?p]
    unfolding rows_ok_def list_all_iff by blast
  then show ?thesis
    using rows by (auto simp: rows_ok_def patch_rows_def list_all_iff)
qed

lemma set_lstrip_by: "set (lstrip_by P s) \<subseteq> set s"
  unfolding lstrip_by_def by (rule subsetI) (rule set_dropWhileD)

lemma strip_prefix_set: "set (strip_prefix raw p) \<subseteq> set raw"
proof
  fix x
  let ?s = "if startswith (lower (strip raw)) p then drop (length p) (strip raw) else strip raw"
  assume "x \<in> set (strip_prefix raw p)"
  then have "x \<in> set (strip (lstrip_by is_strip_punct ?s))"
    by (simp only: strip_prefix_def Let_def)
  then have "x \<in> set ?s" by (blast dest: set_strip_by [THEN subsetD] set_lstrip_by [THEN subsetD])
  then have "x \<in> set (strip raw)" by (auto split: if_splits dest: in_set_dropD)
  then show "x \<in> set raw" by (rule set_strip_by [THEN subsetD])
qed

lemma snd_if_mem: "snd x \<in> S \<Longrightarrow> snd y \<in> S \<Longrightarrow> snd (if b then x else y) \<in> S"
  by simp

lemma parse_reply_intent_snd:
  "snd (parse_reply_intent t st)
     \<in> {strip_prefix (strip t) (first_token (lower (strip t))), [], strip t}"
  unfolding parse_reply_intent_def Let_def by (intro snd_if_mem) simp_all

lemma parse_reply_intent_set: "set (snd (parse_reply_intent t st)) \<subseteq> set t"
  using parse_reply_intent_snd [of t st] set_strip_by [of is_space t]
    strip_prefix_set [of "strip t" "first_token (lower (strip t))"]
  by auto

lemma answered_rows_ok:
  "rows_ok rows \<Longrightarrow> \<not> cuts_line rest \<Longrightarrow> \<not> cuts_line ts \<Longrightarrow>
   rows_ok (answered_rows i cur rest ts rows)"
  by (simp add: answered_rows_def patch_rows_ok split: option.splits)

section \<open>Properties\<close>

definition answers :: "ustr \<Rightarrow> bool" where
  "answers reply \<longleftrightarrow> is_answer (fst (parse_reply_intent reply ''qa_loop''))"

lemma queue_of_Some: "current_id c = Some i \<Longrightarrow> queue_of c = i # pending c"
  by (simp add: queue_of_def)

lemma queue_head: "cursor_wf c \<Longrightarrow> queue_of c \<noteq> [] \<Longrightarrow> current_id c = Some (hd (queue_of c))"
  by (cases "current_id c") (auto simp: queue_of_def cursor_wf_def)

lemma demo_cursor_wf: "cursor_wf (cursor_at demo_world demo_session)"
  unfolding demo_cursor by (simp add: cursor_wf_def all_ids_def queue_of_def)

lemma demo_queue: "queue_of (cursor_at demo_world demo_session) = [asc ''p1'', asc ''p2'']"
  unfolding demo_cursor by (simp add: queue_of_def del: asc_Cons)

lemma demo_rows_ok: "rows_ok (rows_at demo_world demo_session)"
  unfolding demo_rows by code_simp

lemma demo_answers: "answers (asc ''a yes'')" "answers (asc ''pass'')"
  by code_simp+

text \<open>C15: An answer to the finding on screen (accept, reject, modify, pass or free text) takes it
  off the queue and keeps every finding id in the cursor. The next action shows the next
  finding exactly when one is left, and otherwise proposes to close. Every row other than the
  answered finding's stays as it was, and no session row changes.\<close>

theorem handle_reply_takes_head:
  assumes "cursor_wf (cursor_at w s)" and "queue_of (cursor_at w s) \<noteq> []"
    and "rows_ok (rows_at w s)" and "answers reply"
  shows "\<exists>out w'. handle_reply e s reply w = (Inr out, w')
     \<and> queue_of (cursor_at w' s) = tl (queue_of (cursor_at w s))
     \<and> all_ids (cursor_at w' s) = all_ids (cursor_at w s) \<and> cursor_wf (cursor_at w' s)
     \<and> action out = (if tl (queue_of (cursor_at w s)) = [] then ProposeClose else EmitNext)
     \<and> length (rows_at w' s) = length (rows_at w s)
     \<and> (\<forall>j < length (rows_at w s). \<not> row_id_is (hd (queue_of (cursor_at w s))) (rows_at w s ! j) \<longrightarrow>
           rows_at w' s ! j = rows_at w s ! j)
     \<and> sessions w' = sessions w"
proof -
  let ?c = "cursor_at w s"
  obtain i rest where p: "parse_reply_intent reply ''qa_loop'' = (i, rest)" and i: "is_answer i"
    using assms(4) by (cases "parse_reply_intent reply ''qa_loop''") (auto simp: answers_def)
  have cur: "current_id ?c = Some (hd (queue_of ?c))" using assms by (simp add: queue_head)
  obtain out w' n where run: "handle_reply e s reply w = (Inr out, w')"
    and act: "action out = (if is_empty_cursor (advance ?c) then ProposeClose else EmitNext)"
    and c': "cursor_at w' s = advance ?c" and s': "sessions w' = sessions w"
    and r': "rows_at w' s = answered_rows i (hd (queue_of ?c)) rest (clock e n) (rows_at w s)"
    using handle_reply_answer_run [OF cur assms(3) p i] by blast
  have "is_empty_cursor (advance ?c) \<longleftrightarrow> tl (queue_of ?c) = []"
    using assms(1) by (simp flip: queue_of_empty add: queue_of_advance)
  then show ?thesis
    using run act c' s' r' assms(1)
    by (auto simp: queue_of_advance all_ids_advance cursor_wf_advance answered_rows_other)
qed

theorem handle_reply_takes_head_witness:
  "\<exists>out w'. handle_reply demo_env demo_session (asc ''a yes'') demo_world = (Inr out, w')
     \<and> queue_of (cursor_at w' demo_session) = [asc ''p2''] \<and> action out = EmitNext"
  using handle_reply_takes_head [of demo_world demo_session "asc ''a yes''" demo_env]
    demo_cursor_wf demo_rows_ok demo_answers demo_queue
  by (auto simp del: asc_Cons)

lemma handle_reply_rows_ok:
  assumes "cursor_wf (cursor_at w s)" and "queue_of (cursor_at w s) \<noteq> []"
    and "rows_ok (rows_at w s)" and "answers reply" and "\<not> cuts_line reply"
    and "\<And>n. \<not> cuts_line (clock e n)"
  shows "rows_ok (rows_at (snd (handle_reply e s reply w)) s)"
proof -
  obtain i rest where p: "parse_reply_intent reply ''qa_loop'' = (i, rest)" and i: "is_answer i"
    using assms(4) by (cases "parse_reply_intent reply ''qa_loop''") (auto simp: answers_def)
  have "set rest \<subseteq> set reply"
    using parse_reply_intent_set [of reply "''qa_loop''"] p by simp
  then have "\<not> cuts_line rest" using assms(5) by (rule cuts_line_mono)
  then show ?thesis
    using handle_reply_answer_run [OF queue_head [OF assms(1,2)] assms(3) p i, of e] assms(3,6)
    by (auto simp: answered_rows_ok)
qed

lemma done_ids_advance:
  assumes "cursor_wf c" and "queue_of c \<noteq> []"
  shows "done_ids (advance c) = done_ids c @ [hd (queue_of c)]"
proof -
  have cur: "current_id c = Some (hd (queue_of c))" using assms by (rule queue_head)
  then have mem: "hd (queue_of c) \<in> set (queue_of c)" using assms(2) by simp
  then have "hd (queue_of c) \<notin> set (done_ids c)" and "hd (queue_of c) \<noteq> []"
    using assms(1) unfolding cursor_wf_def all_ids_def by auto
  with cur show ?thesis by (simp add: advance_def)
qed

lemma answer_step:
  assumes wf: "cursor_wf (cursor_at w s)" and ne: "queue_of (cursor_at w s) \<noteq> []"
    and rows: "rows_ok (rows_at w s)" and r: "answers r" "\<not> cuts_line r"
    and clk: "\<forall>n. \<not> cuts_line (clock e n)"
  shows "\<exists>out w'. handle_reply e s r w = (Inr out, w') \<and> rows_ok (rows_at w' s)
     \<and> cursor_at w' s = advance (cursor_at w s)
     \<and> action out = (if tl (queue_of (cursor_at w s)) = [] then ProposeClose else EmitNext)"
proof -
  obtain i rest where p: "parse_reply_intent r ''qa_loop'' = (i, rest)" and i: "is_answer i"
    using r(1) by (cases "parse_reply_intent r ''qa_loop''") (auto simp: answers_def)
  obtain out w' n where run: "handle_reply e s r w = (Inr out, w')"
    and act: "action out = (if is_empty_cursor (advance (cursor_at w s)) then ProposeClose else EmitNext)"
    and c': "cursor_at w' s = advance (cursor_at w s)"
    using handle_reply_answer_run [OF queue_head [OF wf ne] rows p i, of e] by blast
  have "rows_ok (rows_at w' s)"
    using handle_reply_rows_ok [OF wf ne rows r, of e] clk run by simp
  moreover have "is_empty_cursor (advance (cursor_at w s)) \<longleftrightarrow> tl (queue_of (cursor_at w s)) = []"
    by (simp only: queue_of_empty [symmetric] queue_of_advance [OF wf])
  ultimately show ?thesis using run act c' by simp
qed

text \<open>C19: The Q\&A loop ends on answers the annotation file can hold. For a well-formed cursor with
  findings to show and readable rows, as many answers as there are findings, none of whose texts
  (nor the time stamps) contains a line separator the file is cut at (U+2028, U+2029, NEL), empty
  the queue: every answer but the last asks for the next finding, the last one proposes to close,
  and all the findings shown are marked done. An answer is any reply but a request for more, for
  the end or for a forced close, and a question.\<close>

theorem answers_drain_queue:
  assumes "cursor_wf (cursor_at w s)" and "length replies = length (queue_of (cursor_at w s))"
    and "replies \<noteq> []" and "rows_ok (rows_at w s)"
    and "\<forall>r \<in> set replies. answers r \<and> \<not> cuts_line r" and "\<forall>n. \<not> cuts_line (clock e n)"
  shows "\<exists>outs w'. map_prog (handle_reply e s) replies w = (Inr outs, w')
     \<and> map action outs = replicate (length replies - 1) EmitNext @ [ProposeClose]
     \<and> queue_of (cursor_at w' s) = []
     \<and> done_ids (cursor_at w' s) = done_ids (cursor_at w s) @ queue_of (cursor_at w s)
     \<and> deferred (cursor_at w' s) = deferred (cursor_at w s)"
  using assms(1-5)
proof (induction replies arbitrary: w)
  case Nil
  then show ?case by simp
next
  case (Cons r rs)
  let ?c = "cursor_at w s"
  obtain h t where q: "queue_of ?c = h # t" using Cons.prems(2) by (cases "queue_of ?c") auto
  have ne: "queue_of ?c \<noteq> []" and len: "length rs = length t" using q Cons.prems(2) by simp_all
  obtain out w' where run: "handle_reply e s r w = (Inr out, w')"
    and ok': "rows_ok (rows_at w' s)" and c': "cursor_at w' s = advance ?c"
    and act: "action out = (if t = [] then ProposeClose else EmitNext)"
    using answer_step [OF Cons.prems(1) ne Cons.prems(4) _ _ assms(6), of r] Cons.prems(5) q by auto
  have q': "queue_of (cursor_at w' s) = t"
    using queue_of_advance [OF Cons.prems(1)] q c' by simp
  have d': "done_ids (cursor_at w' s) = done_ids ?c @ [h]"
    using done_ids_advance [OF Cons.prems(1) ne] q c' by simp
  have f': "deferred (cursor_at w' s) = deferred ?c" using c' by simp
  have wf': "cursor_wf (cursor_at w' s)" using cursor_wf_advance [OF Cons.prems(1)] c' by simp
  show ?case
  proof (cases rs)
    case Nil
    then show ?thesis
      using act q' d' f' len q run by (simp add: bnd_def run_ret)
  next
    case (Cons r' rs')
    have "rs \<noteq> []" "t \<noteq> []" using Cons len by auto
    obtain outs w'' where rec: "map_prog (handle_reply e s) rs w' = (Inr outs, w'')"
      and m: "map action outs = replicate (length rs - 1) EmitNext @ [ProposeClose]"
      and rest: "queue_of (cursor_at w'' s) = []"
      "done_ids (cursor_at w'' s) = done_ids (cursor_at w' s) @ t"
      "deferred (cursor_at w'' s) = deferred (cursor_at w' s)"
      using Cons.IH [of w'] Cons.prems(5) \<open>rs \<noteq> []\<close> ok' len q' wf' by auto
    have "map_prog (handle_reply e s) (r # rs) w = (Inr (out # outs), w'')"
      using run rec by (rule map_prog_Cons_Inr)
    then show ?thesis
      using m rest act d' f' q \<open>t \<noteq> []\<close> Cons by auto
  qed
qed

theorem answers_drain_queue_witness:
  "\<exists>outs w'. map_prog (handle_reply demo_env demo_session) [asc ''a yes'', asc ''pass''] demo_world
       = (Inr outs, w')
     \<and> map action outs = [EmitNext, ProposeClose] \<and> queue_of (cursor_at w' demo_session) = []
     \<and> done_ids (cursor_at w' demo_session) = [asc ''p1'', asc ''p2'']"
proof -
  have "\<not> cuts_line (asc ''a yes'')" "\<not> cuts_line (asc ''pass'')" "\<not> cuts_line (clock demo_env n)" for n
    by (simp_all add: cuts_line_def)
  then show ?thesis
    using answers_drain_queue [of demo_world demo_session "[asc ''a yes'', asc ''pass'']" demo_env]
      demo_cursor_wf demo_rows_ok demo_answers demo_queue
    by (auto simp: demo_cursor simp del: asc_Cons demo_env_simps)
qed

lemma pull_deferred_laws:
  assumes "pull_deferred n c = (m, c')"
  shows "queue_of c' = queue_of c @ slice_to (deferred c) n" "deferred c' = slice_from (deferred c) n"
    "done_ids c' = done_ids c" "all_ids c' = all_ids c" "m = length (slice_to (deferred c) n)"
    "current_id c' = current_id c"
  using assms by (auto simp: pull_deferred_def Let_def queue_of_def all_ids_def)

lemma advance_no_current:
  assumes "current_id c = None"
  shows "queue_of (advance c) = queue_of c" "all_ids (advance c) = all_ids c"
  using assms by (auto simp: advance_def queue_of_def all_ids_def split: list.splits)

lemma cursor_wf_advance_no_current:
  assumes "current_id c = None" and "distinct (all_ids c)" and "[] \<notin> set (all_ids c)"
  shows "cursor_wf (advance c)"
  using advance_no_current [OF assms(1)] assms
  by (auto simp: cursor_wf_def advance_def split: list.splits)

text \<open>C20: \<open>more\<close> moves the first \<open>top_n_findings\<close> deferred findings behind the queue and loses
  none: the ids of the cursor stay the same. It asks to show a finding when something was
  moved, and proposes to close only when nothing is deferred.\<close>

theorem handle_reply_more:
  assumes "fst (parse_reply_intent reply ''qa_loop'') = MORE" and "cursor_wf (cursor_at w s)"
    and "0 < cfg_top_n_findings e"
  shows "\<exists>out w'. handle_reply e s reply w = (Inr out, w')
     \<and> queue_of (cursor_at w' s) =
         queue_of (cursor_at w s) @ slice_to (deferred (cursor_at w s)) (cfg_top_n_findings e)
     \<and> all_ids (cursor_at w' s) = all_ids (cursor_at w s) \<and> cursor_wf (cursor_at w' s)
     \<and> action out = (if deferred (cursor_at w s) = [] then ProposeClose else EmitNext)
     \<and> rows_at w' s = rows_at w s"
proof -
  let ?c = "cursor_at w s"
  obtain rest where p: "parse_reply_intent reply ''qa_loop'' = (MORE, rest)"
    using assms(1) by (cases "parse_reply_intent reply ''qa_loop''") simp
  obtain m c' where pd: "pull_deferred (cfg_top_n_findings e) ?c = (m, c')" by fastforce
  note laws = pull_deferred_laws [OF pd]
  have m0: "m = 0 \<longleftrightarrow> deferred ?c = []" using laws(5) assms(3) by (simp add: slice_to_empty_iff)
  let ?f = "if m \<noteq> 0 \<and> current_id c' = None then advance c' else c'"
  have all: "distinct (all_ids c')" "[] \<notin> set (all_ids c')"
    using assms(2) laws(4) by (simp_all add: cursor_wf_def)
  have wf: "cursor_wf ?f"
  proof (cases "current_id c' = None \<and> m \<noteq> 0")
    case True
    with all cursor_wf_advance_no_current show ?thesis by auto
  next
    case False
    have "c' = ?c" if "m = 0"
      using that m0 pd by (auto simp: pull_deferred_def Let_def slice_from_def)
    with False all assms(2) show ?thesis by (cases "m = 0") (auto simp: cursor_wf_def)
  qed
  have run: "\<exists>w'. handle_reply e s reply w = (Inr (if m = 0 then propose DmNoMoreDeferred
      else \<lparr>action = EmitNext, dm_text = None, advanced = True\<rparr>), w')
      \<and> cursor_at w' s = ?f \<and> rows_at w' s = rows_at w s"
    by (cases "current_id c'"; cases "m = 0")
       (simp_all add: handle_reply_def p pd run_simps log_conversation_def)
  have "queue_of ?f = queue_of c'" "all_ids ?f = all_ids c'"
    by (simp_all add: advance_no_current)
  then show ?thesis using run laws m0 wf by (auto simp: propose_def)
qed

theorem handle_reply_more_witness:
  "\<exists>out w'. handle_reply demo_env demo_session (asc ''more'') demo_world = (Inr out, w')
     \<and> queue_of (cursor_at w' demo_session) = [asc ''p1'', asc ''p2'', asc ''p3'']
     \<and> action out = EmitNext"
proof -
  have "fst (parse_reply_intent (asc ''more'') ''qa_loop'') = MORE" by code_simp
  moreover have "slice_to [asc ''p3''] 5 = [asc ''p3'']" by (simp add: slice_to_def)
  ultimately show ?thesis
    using handle_reply_more [of "asc ''more''" demo_world demo_session demo_env]
      demo_cursor_wf demo_queue
    by (auto simp: demo_cursor simp del: asc_Cons)
qed

lemma row_not_on_one_line:
  "map_of r k = Some (JStr v) \<Longrightarrow> cuts_line v \<Longrightarrow> \<not> row_on_one_line r"
  by (force simp: row_on_one_line_def list_all_iff dest!: map_of_SomeD)

lemma patched_reply: "map_of (obj_update r (status_patch st rest ts)) (asc ''reply'') = Some (JStr rest)"
  by (simp add: status_patch_def map_of_obj_set)

lemma patch_rows_cut:
  assumes "r \<in> set rows" and "row_id_is fid r" and "cuts_line rest"
  shows "parse_rows (patch_rows fid (status_patch st rest ts) rows) = Inl ValueError"
proof -
  have "obj_update r (status_patch st rest ts) \<in> set (patch_rows fid (status_patch st rest ts) rows)"
    using assms(1,2) by (auto simp: patch_rows_def)
  moreover have "\<not> row_on_one_line (obj_update r (status_patch st rest ts))"
    using patched_reply assms(3) by (rule row_not_on_one_line)
  ultimately show ?thesis by (auto simp: parse_rows_def list_all_iff)
qed

text \<open>An unreadable annotation file stays as it is: every answer that needs it raises before it
  writes, and the others do not touch it.\<close>

lemma handle_reply_unreadable:
  assumes "parse_rows (rows_at w s) = Inl ValueError"
  shows "rows_at (snd (handle_reply e s reply w)) s = rows_at w s"
proof -
  obtain i rest where p: "parse_reply_intent reply ''qa_loop'' = (i, rest)"
    by (cases "parse_reply_intent reply ''qa_loop''")
  let ?w1 = "w_folder (key_of s) (\<lambda>d. d\<lparr>conversation := conversation d @
       [\<lparr>ll_ts = clock e (tick w), ll_role = ''requester'', ll_text = reply, ll_intent = i\<rparr>]\<rparr>)
       (ticked w)"
  have w1: "rows_at ?w1 s = rows_at w s" "cursor_at ?w1 s = cursor_at w s"
    by (simp_all add: rows_at_def cursor_at_def)
  show ?thesis
    using w1 assms
    by (auto simp: handle_reply_def p run_simps log_conversation_def Let_def split_beta rows_at_def
        cursor_at_def split: option.split)
qed

lemma handle_replies_unreadable:
  assumes "parse_rows (rows_at w s) = Inl ValueError"
  shows "fst (load_findings s (fold (\<lambda>r w. snd (handle_reply e s r w)) replies w)) = Inl ValueError"
  using assms
proof (induction replies arbitrary: w)
  case Nil
  then show ?case by (simp add: load_findings_def rows_at_def prog_simps)
next
  case (Cons r rs)
  then show ?case by (simp add: handle_reply_unreadable)
qed

text \<open>C27: An answer that accepts, rejects or modifies the finding on screen and whose stored text
  holds a line or paragraph separator (U+2028, U+2029, NEL) makes the session unreadable: the text
  is written into the row of the finding, and from then on reading the findings raises, at once
  and after any number of further answers, none of which repairs the file.\<close>

theorem separator_in_reply_breaks_findings:
  assumes "cursor_wf (cursor_at w s)" and "queue_of (cursor_at w s) \<noteq> []"
    and "rows_ok (rows_at w s)" and "row_id_is (hd (queue_of (cursor_at w s))) r"
    and "r \<in> set (rows_at w s)"
    and "fst (parse_reply_intent reply ''qa_loop'') \<in> {ACCEPT, REJECT, MODIFY}"
    and "cuts_line (snd (parse_reply_intent reply ''qa_loop''))"
  shows "fst (load_findings s (fold (\<lambda>r w. snd (handle_reply e s r w)) later
      (snd (handle_reply e s reply w)))) = Inl ValueError"
proof -
  obtain i rest where p: "parse_reply_intent reply ''qa_loop'' = (i, rest)"
    by (cases "parse_reply_intent reply ''qa_loop''")
  have i: "i \<in> {ACCEPT, REJECT, MODIFY}" and cut: "cuts_line rest" using assms(6,7) p by simp_all
  then have ans: "is_answer i" by (auto simp: is_answer_def)
  obtain st where st: "status_of_answer i = Some st"
    using i by (auto simp: status_of_answer_def)
  obtain out w' n where run: "handle_reply e s reply w = (Inr out, w')"
    and r': "rows_at w' s = answered_rows i (hd (queue_of (cursor_at w s))) rest (clock e n) (rows_at w s)"
    using handle_reply_answer_run [OF queue_head [OF assms(1,2)] assms(3) p ans, of e] by blast
  have "parse_rows (rows_at w' s) = Inl ValueError"
    using patch_rows_cut [OF assms(5,4) cut] by (simp add: r' answered_rows_def st)
  then show ?thesis using run by (simp add: handle_replies_unreadable)
qed

theorem separator_in_reply_breaks_findings_witness:
  "fst (load_findings demo_session (fold (\<lambda>r w. snd (handle_reply demo_env demo_session r w))
       [asc ''pass'', asc ''b no''] (snd (handle_reply demo_env demo_session (asc ''a one'' @ [8232] @ asc ''two'') demo_world))))
   = Inl ValueError"
proof (rule separator_in_reply_breaks_findings [of demo_world demo_session "demo_row ''p1'' ''BLOCKER'' ''open''"])
  show "row_id_is (hd (queue_of (cursor_at demo_world demo_session))) (demo_row ''p1'' ''BLOCKER'' ''open'')"
    unfolding demo_queue by (simp add: row_id_is_def obj_get_def demo_row_def)
  show "demo_row ''p1'' ''BLOCKER'' ''open'' \<in> set (rows_at demo_world demo_session)"
    by (simp add: demo_rows)
  show "fst (parse_reply_intent (asc ''a one'' @ [8232] @ asc ''two'') ''qa_loop'')
      \<in> {ACCEPT, REJECT, MODIFY}" by code_simp
  show "cuts_line (snd (parse_reply_intent (asc ''a one'' @ [8232] @ asc ''two'') ''qa_loop''))"
    by code_simp
qed (simp_all add: demo_cursor_wf demo_queue demo_rows_ok)

section \<open>Reopening\<close>

lemma reopen_cursor_laws:
  "queue_of (reopen_cursor ids c) =
     (case current_id c of None \<Rightarrow> ids @ pending c | Some i \<Rightarrow> i # ids @ pending c)"
  "deferred (reopen_cursor ids c) = deferred c" "regression_rescan (reopen_cursor ids c)"
  "done_ids (reopen_cursor ids c) = done_ids c"
  by (cases "current_id c"; auto simp: reopen_cursor_def Let_def queue_of_def advance_def
      split: list.splits)+

lemma reopen_cursor_idle:
  "current_id (reopen_cursor ids c) = None \<Longrightarrow> pending (reopen_cursor ids c) = []"
  by (auto simp: reopen_cursor_def Let_def advance_def split: if_splits list.splits)

text \<open>C21: A failed final gate puts the given findings at the head of the queue: right behind the
  finding on screen if there is one. It reopens the session one round later and keeps the rows
  and the deferred findings.\<close>

theorem transition_reopens_queue:
  "transition_after_final_gate_fail s ids w = (Inr c', w') \<Longrightarrow>
     queue_of c' = (case current_id (cursor_at w s) of
         None \<Rightarrow> ids @ pending (cursor_at w s)
       | Some i \<Rightarrow> i # ids @ pending (cursor_at w s))
     \<and> regression_rescan c' \<and> deferred c' = deferred (cursor_at w s)
     \<and> cursor_at w' s = c' \<and> rows_at w' s = rows_at w s
     \<and> sessions w' = sessions (w_update_session (s_id s)
         [Set_stage QA_ACTIVE_REOPENED, Set_round_no (round_no s + 1)] w)"
  by (auto simp: transition_after_final_gate_fail_def run_simps Let_def reopen_cursor_laws
      sessions_w_update)

theorem transition_reopens_queue_witness:
  "\<exists>c' w'. transition_after_final_gate_fail demo_session [asc ''p9''] demo_world = (Inr c', w')
     \<and> queue_of c' = [asc ''p1'', asc ''p9'', asc ''p2'']"
proof -
  obtain c' w' where run: "transition_after_final_gate_fail demo_session [asc ''p9''] demo_world = (Inr c', w')"
    by (simp add: transition_after_final_gate_fail_def run_simps Let_def del: asc_Cons)
  show ?thesis using transition_reopens_queue [OF run] run by (simp add: demo_cursor del: asc_Cons)
qed

text \<open>The queue can come back with a finding in it twice: when a reopened finding is still on
  screen or pending, the cursor is no longer duplicate-free.\<close>

theorem reopen_can_duplicate:
  "cursor_wf c \<Longrightarrow> i \<in> set (queue_of c) \<Longrightarrow> i \<in> set ids \<Longrightarrow> \<not> cursor_wf (reopen_cursor ids c)"
  by (cases "current_id c")
     (auto simp: cursor_wf_def all_ids_def reopen_cursor_laws queue_of_def [of c])

theorem reopen_can_duplicate_witness:
  "\<not> cursor_wf (reopen_cursor [asc ''p2''] (cursor_at demo_world demo_session))"
  by (rule reopen_can_duplicate [of _ "asc ''p2''"]) (use demo_cursor_wf demo_queue in simp_all)

text \<open>Otherwise the queue stays well-formed.\<close>

lemma cursor_wf_reopen:
  "cursor_wf c \<Longrightarrow> distinct ids \<Longrightarrow> [] \<notin> set ids \<Longrightarrow> set ids \<inter> set (all_ids c) = {} \<Longrightarrow>
   cursor_wf (reopen_cursor ids c)"
  by (cases "current_id c")
     (auto simp: cursor_wf_def all_ids_def reopen_cursor_laws reopen_cursor_idle queue_of_def [of c])

end
