(* ===== verification/Stages.thy ===== *)
theory Stages imports Scan ConfirmTopic QaLoop Deliver begin

text \<open>
  The stage helpers of core/dispatcher.py: each runs one pipeline step on a session and turns
  a terminal LLM failure into a failed session. The close chain (\<open>_enqueue_close_chain\<close>) runs
  merge, final gate, summary and delivery, or reopens the Q\&A loop.
\<close>

section \<open>Failure\<close>

text \<open>\<open>try: x = m except LLMTerminalFailure as e: h; return\<close> followed by \<open>k x\<close>.\<close>

definition try_llm :: "'a act \<Rightarrow> ('a \<Rightarrow> unit act) \<Rightarrow> (exn \<Rightarrow> unit act) \<Rightarrow> unit act" where
  "try_llm m k h =
     bnd (catch (bnd m (\<lambda>a. ret (Some a)))
            (\<lambda>x. if is_terminal_failure x then andthen (h x) (ret None) else raise_exn x))
       (\<lambda>r. case r of None \<Rightarrow> ret () | Some a \<Rightarrow> k a)"

definition fail_session :: "env \<Rightarrow> session \<Rightarrow> stage \<Rightarrow> string \<Rightarrow> exn \<Rightarrow> unit act" where
  "fail_session e s st label x =
     andthen (update_session (s_id s) [Set_stage st, Set_status FAILED])
     (safe_dm e (requester_oid s) (if is_terminal_failure x then DmLlmFailed label else DmSessionFailed))"

section \<open>Stages\<close>

definition do_confirm_topic :: "env \<Rightarrow> ustr \<Rightarrow> unit act" where
  "do_confirm_topic e sid =
     with_session AssertionError sid (\<lambda>s.
     bnd (get_user (responder_oid s)) (\<lambda>responder.
     try_llm (propose_topics e s responder)
       (\<lambda>d. safe_dm e (requester_oid s)
          (case map_of d (asc ''im_message'') of None \<Rightarrow> DmTopicsDefault | Some j \<Rightarrow> DmTopics j))
       (fail_session e s SUBJECT_CONFIRMATION ''confirm_topic'')))"

definition row_of_cursor :: "cursor \<Rightarrow> obj list \<Rightarrow> obj option" where
  "row_of_cursor c rows =
     find (\<lambda>r. obj_get r ''id'' = (case current_id c of None \<Rightarrow> JNull | Some i \<Rightarrow> JStr i)) rows"

definition show_finding :: "env \<Rightarrow> session \<Rightarrow> ustr \<Rightarrow> unit act" where
  "show_finding e s body =
     bnd (load_cursor s) (\<lambda>c.
     bnd (load_findings s) (\<lambda>rows.
     case row_of_cursor c rows of
       None \<Rightarrow> safe_dm e (requester_oid s) (DmBody body)
     | Some f \<Rightarrow>
         catch
           (andthen (send_dm_post e (requester_oid s)
              (DmFindingPost f body (round_no s) (length (pending c)) (length (deferred c)))) (ret ()))
           (\<lambda>x. safe_dm e (requester_oid s)
              (DmFindingText f body (round_no s) (length (pending c)) (length (deferred c))))))"

definition emit_next_finding :: "env \<Rightarrow> ustr \<Rightarrow> unit act" where
  "emit_next_finding e sid =
     with_session AssertionError sid (\<lambda>s.
     bnd (get_user (responder_oid s)) (\<lambda>responder.
     try_llm (emit_current e s responder)
       (\<lambda>body. if body = [] then ret () else show_finding e s body)
       (fail_session e s QA_ACTIVE ''qa_loop'')))"

definition do_scan :: "env \<Rightarrow> ustr \<Rightarrow> unit act" where
  "do_scan e sid =
     with_session AssertionError sid (\<lambda>s.
     if s_stage s \<noteq> SCANNING \<and> s_stage s \<noteq> SUBJECT_CONFIRMATION then ret ()
     else
       andthen (update_session (s_id s) [Set_stage SCANNING])
       (bnd (get_user (responder_oid s)) (\<lambda>responder.
       try_llm (scan_run e s responder)
         (\<lambda>c. emit_next_finding e sid)
         (fail_session e s SCANNING ''scan''))))"

definition do_merge :: "env \<Rightarrow> ustr \<Rightarrow> unit act" where
  "do_merge e sid =
     with_session AttributeError sid (\<lambda>s.
     bnd (get_user (responder_oid s)) (\<lambda>responder.
     try_llm (merge_run e s responder) (\<lambda>u. ret ()) (fail_session e s MERGING ''merge_draft'')))"

definition do_final_gate :: "env \<Rightarrow> ustr \<Rightarrow> bool \<Rightarrow> unit act" where
  "do_final_gate e sid forced =
     with_session AttributeError sid (\<lambda>s.
     bnd (get_user (responder_oid s)) (\<lambda>responder.
     try_llm (final_gate_run e s responder forced) (\<lambda>u. ret ())
       (fail_session e s FINAL_GATING ''final_gate'')))"

definition do_build_and_deliver :: "env \<Rightarrow> ustr \<Rightarrow> unit act" where
  "do_build_and_deliver e sid =
     with_session AttributeError sid (\<lambda>s.
     bnd (get_user (responder_oid s)) (\<lambda>responder.
     bnd (get_user (requester_oid s)) (\<lambda>requester.
     try_llm (summary_run e s requester responder)
       (\<lambda>u.
         bnd (load_targets e (requester_oid s) (responder_oid s)) (\<lambda>targets.
         with_session AttributeError sid (\<lambda>s'.
         andthen (deliver_run e s' targets) (ret ()))))
       (fail_session e s CLOSING ''build_summary''))))"

section \<open>The close chain\<close>

definition is_open_blocker :: "obj \<Rightarrow> bool" where
  "is_open_blocker r \<longleftrightarrow> row_has ''status'' ''open'' r
     \<and> (row_has ''severity'' ''BLOCKER'' r \<or> row_has ''severity'' ''REGRESSION'' r)"

definition extract_open_blockers :: "session \<Rightarrow> ustr list act" where
  "extract_open_blockers s =
     bnd (load_findings s) (\<lambda>rows.
     lift_sum (str_list (map (\<lambda>r. obj_get_or r ''id'' (JStr [])) (filter is_open_blocker rows))))"

definition close_and_deliver :: "env \<Rightarrow> ustr \<Rightarrow> unit act" where
  "close_and_deliver e sid =
     andthen (update_session sid [Set_stage CLOSING]) (do_build_and_deliver e sid)"

text \<open>What follows the final gate, by the session as it is then.\<close>

definition after_gate :: "env \<Rightarrow> bool \<Rightarrow> session \<Rightarrow> unit act" where
  "after_gate e forced s =
     (if s_verdict s = Some FAIL \<and> \<not> forced then
        bnd (extract_open_blockers s) (\<lambda>regressions.
        if regressions = [] then
          andthen (update_session (s_id s) [Set_verdict (Some FORCED_PARTIAL), Set_stage CLOSING])
          (andthen (safe_dm e (requester_oid s) DmForcedPartial)
          (close_and_deliver e (s_id s)))
        else if fail_count s < cfg_final_gate_max_fail_count e then
          andthen (transition_after_final_gate_fail s regressions)
          (andthen (safe_dm e (requester_oid s) (DmReopened (length regressions)))
          (emit_next_finding e (s_id s)))
        else
          andthen (update_session (s_id s) [Set_verdict (Some FORCED_PARTIAL)])
          (close_and_deliver e (s_id s)))
      else close_and_deliver e (s_id s))"

definition close_chain :: "env \<Rightarrow> ustr \<Rightarrow> bool \<Rightarrow> unit act" where
  "close_chain e sid forced =
     andthen (do_merge e sid)
     (andthen (do_final_gate e sid forced)
     (with_session AssertionError sid (after_gate e forced)))"

section \<open>Steps\<close>

context call_effects
begin

lemma steps_try_llm:
  "steps R m \<Longrightarrow> (\<And>a. steps R (k a)) \<Longrightarrow> (\<And>x. steps R (h x)) \<Longrightarrow> steps R (try_llm m k h)"
  unfolding try_llm_def by (intro steps_intros)

end

context call_effects
begin

lemma steps_show_finding [step_rules]: "steps R (show_finding e s body)"
  unfolding show_finding_def by (intro steps_intros step_rules)

end

context session_effects
begin

lemma fail_session_steps:
  "own s \<Longrightarrow> allowed [Set_stage st, Set_status FAILED] \<Longrightarrow> steps R (fail_session e s st label x)"
  unfolding fail_session_def by (intro steps_intros step_rules)

lemma emit_next_finding_steps:
  "own s \<Longrightarrow> allowed [Set_stage QA_ACTIVE, Set_status FAILED] \<Longrightarrow> steps R (emit_next_finding e (s_id s))"
  unfolding emit_next_finding_def by (intro steps_intros steps_try_llm fail_session_steps step_rules)

end

text \<open>The stages a close writes, whichever way it ends.\<close>

abbreviation close_stages :: "stage set" where
  "close_stages \<equiv> {MERGING, FINAL_GATING, CLOSING, CLOSED_stage, QA_ACTIVE, QA_ACTIVE_REOPENED}"

context staged_effects
begin

lemma steps_fail_session [step_rules]:
  "own s \<Longrightarrow> st \<in> S \<Longrightarrow> steps R (fail_session e s st label x)"
  unfolding fail_session_def by (intro steps_intros step_rules) simp_all

lemma steps_do_confirm_topic [step_rules]:
  "own s \<Longrightarrow> SUBJECT_CONFIRMATION \<in> S \<Longrightarrow> steps R (do_confirm_topic e (s_id s))"
  unfolding do_confirm_topic_def by (intro steps_intros steps_try_llm step_rules)

lemma steps_emit_next_finding [step_rules]:
  "own s \<Longrightarrow> QA_ACTIVE \<in> S \<Longrightarrow> steps R (emit_next_finding e (s_id s))"
  unfolding emit_next_finding_def by (intro steps_intros steps_try_llm step_rules)

lemma steps_do_scan [step_rules]:
  "own s \<Longrightarrow> {SCANNING, QA_ACTIVE} \<subseteq> S \<Longrightarrow> steps R (do_scan e (s_id s))"
  unfolding do_scan_def by (intro steps_intros steps_try_llm step_rules) simp_all

lemma steps_do_merge [step_rules]:
  "own s \<Longrightarrow> {MERGING, FINAL_GATING} \<subseteq> S \<Longrightarrow> steps R (do_merge e (s_id s))"
  unfolding do_merge_def by (intro steps_intros steps_try_llm step_rules) simp_all

lemma steps_do_final_gate [step_rules]:
  "own s \<Longrightarrow> {FINAL_GATING, CLOSING} \<subseteq> S \<Longrightarrow> steps R (do_final_gate e (s_id s) forced)"
  unfolding do_final_gate_def by (intro steps_intros steps_try_llm step_rules) simp_all

lemma steps_do_build_and_deliver [step_rules]:
  "own s \<Longrightarrow> {CLOSING, CLOSED_stage} \<subseteq> S \<Longrightarrow> steps R (do_build_and_deliver e (s_id s))"
  unfolding do_build_and_deliver_def by (intro steps_intros steps_try_llm step_rules) simp_all

lemma steps_extract_open_blockers [step_rules]: "steps R (extract_open_blockers s)"
  unfolding extract_open_blockers_def by (intro steps_intros step_rules)

lemma steps_close_and_deliver [step_rules]:
  "own s \<Longrightarrow> {CLOSING, CLOSED_stage} \<subseteq> S \<Longrightarrow> steps R (close_and_deliver e (s_id s))"
  unfolding close_and_deliver_def by (intro steps_intros step_rules) simp_all

lemma steps_after_gate [step_rules]:
  "own s \<Longrightarrow> close_stages \<subseteq> S \<Longrightarrow> steps R (after_gate e forced s)"
  unfolding after_gate_def by (intro steps_intros step_rules) simp_all

lemma steps_close_chain [step_rules]:
  "own s \<Longrightarrow> close_stages \<subseteq> S \<Longrightarrow> steps R (close_chain e (s_id s) forced)"
  unfolding close_chain_def by (intro steps_intros step_rules) simp_all

end

end
