(* ===== verification/Material.thy ===== *)
theory Material imports Ingest Stages Demo begin

text \<open>
  The material of a review in core/dispatcher.py: what the first message of a session becomes
  (\<open>_save_and_ingest_multimodal\<close>), what a later message adds to it
  (\<open>_append_supplementary_material\<close>), what replaces it while the subject is being confirmed, and
  the preview the requester sees. The material is \<open>normalized.md\<close> of the session directory;
  attachments are stored under \<open>input/\<close>.
\<close>

section \<open>File names\<close>

definition without_colons :: "ustr \<Rightarrow> ustr" where
  "without_colons stamp = replace_sub stamp (asc '':'') []"

text \<open>\<open>Path(f).suffix\<close>: the suffix of the last component that is not empty or a single dot.\<close>

definition path_name :: "ustr \<Rightarrow> ustr" where
  "path_name f =
     (case rev (filter (\<lambda>c. c \<noteq> [] \<and> c \<noteq> asc ''.'') (split_slash [] f)) of [] \<Rightarrow> [] | c # _ \<Rightarrow> c)"

definition guess_ext_from_content_raw :: "env \<Rightarrow> ustr \<Rightarrow> exn + ustr" where
  "guess_ext_from_content_raw e raw =
     (case json_loads e raw of
        None \<Rightarrow> Inr (asc ''.bin'')
      | Some j \<Rightarrow>
        (case as_obj j of
           Inl x \<Rightarrow> Inl x
         | Inr d \<Rightarrow>
           (let v = obj_get_or d ''file_name'' (JStr []) in
            if \<not> truthy v then Inr (asc ''.bin'')
            else (case v of
                    JStr f \<Rightarrow> Inr (let x = path_suffix (path_name f) in if x \<noteq> [] then x else asc ''.bin'')
                  | _ \<Rightarrow> Inl TypeError))))"

text \<open>The extension of an attachment, from its first bytes and with a fallback.\<close>

definition sniff_ext :: "(int list \<Rightarrow> ustr) \<Rightarrow> ustr \<Rightarrow> int list \<Rightarrow> ustr" where
  "sniff_ext detect fallback raw =
     (let ext = (if raw \<noteq> [] then detect raw else asc ''.bin'') in
      if ext = asc ''.bin'' then fallback else ext)"

text \<open>UTF-8, as \<open>atomic_write\<close> encodes a text. Lone surrogates, which it cannot encode, are not modelled.\<close>

definition utf8_char :: "int \<Rightarrow> int list" where
  "utf8_char c =
     (if c < 128 then [c]
      else if c < 2048 then [192 + c div 64, 128 + c mod 64]
      else if c < 65536 then [224 + c div 4096, 128 + c div 64 mod 64, 128 + c mod 64]
      else [240 + c div 262144, 128 + c div 4096 mod 64, 128 + c div 64 mod 64, 128 + c mod 64])"

definition utf8 :: "ustr \<Rightarrow> int list" where
  "utf8 s = concat (map utf8_char s)"

section \<open>The preview\<close>

definition preview_of :: "ustr \<Rightarrow> ustr" where
  "preview_of body = take 240 body @ (if 240 < length body then [8230] else [])"

definition send_material_confirm_dm :: "env \<Rightarrow> session \<Rightarrow> unit act" where
  "send_material_confirm_dm e s =
     bnd (gets (\<lambda>w. normalized_md (folder_at w (key_of s)))) (\<lambda>t.
     case t of
       None \<Rightarrow> safe_dm e (requester_oid s) (DmMaterialPreview (asc ''('' @ [31354] @ asc '')'') 0)
     | Some x \<Rightarrow>
         (let body = strip (universal_newlines x) in
          safe_dm e (requester_oid s) (DmMaterialPreview (preview_of body) (length body))))"

section \<open>Adding material\<close>

definition supplement_mark :: ustr where
  "supplement_mark = [10, 10] @ asc ''---'' @ [10, 10] @ asc ''['' @ [34917, 20805, 26448, 26009] @ asc '']'' @ [10, 10]"

definition do_append_to_normalized :: "session \<Rightarrow> ustr \<Rightarrow> bool \<Rightarrow> bool act" where
  "do_append_to_normalized s block replace =
     (if strip block = [] then ret False
      else
        bnd (gets (\<lambda>w. normalized_md (folder_at w (key_of s)))) (\<lambda>old.
        case (if replace then None else old) of
          None \<Rightarrow> andthen (set_normalized s block) (ret True)
        | Some t \<Rightarrow>
            (let existing = universal_newlines t in
             if contains (strip block) existing then ret False
             else andthen (set_normalized s (rstrip existing @ supplement_mark @ block)) (ret True))))"

text \<open>The \<open>try\<close> block for an attachment: any failure but \<open>IngestRejected\<close> counts as nothing added.\<close>

definition is_attachment :: "incoming_message \<Rightarrow> bool" where
  "is_attachment m \<longleftrightarrow>
     m_msg_type m \<in> set (map asc [''image'', ''file'', ''audio'']) \<and> m_file_key m \<noteq> []"

definition supplement_ext :: "ustr \<Rightarrow> int list \<Rightarrow> ustr" where
  "supplement_ext kind raw =
     (if kind = asc ''image'' then sniff_ext detect_image_ext (asc ''.png'') raw
      else if kind = asc ''audio'' then sniff_ext detect_audio_ext (asc ''.ogg'') raw
      else sniff_ext detect_file_ext (asc ''.bin'') raw)"

definition kind_name :: "ustr \<Rightarrow> string" where
  "kind_name ty = (if ty = asc ''image'' then ''image'' else if ty = asc ''audio'' then ''audio'' else ''file'')"

definition append_attachment :: "env \<Rightarrow> session \<Rightarrow> incoming_message \<Rightarrow> bool act" where
  "append_attachment e s m =
     bnd (call (\<lambda>n. download_attachment e n (m_message_id m) (m_file_key m) (kind_name (m_msg_type m)))) (\<lambda>raw.
     bnd (now_iso e) (\<lambda>stamp.
     let name = without_colons stamp @ asc ''_supplement'' @ supplement_ext (m_msg_type m) raw in
     andthen (store_input s name raw)
     (andthen (ingest_run e s name)
     (bnd (gets (\<lambda>w. normalized_md (folder_at w (key_of s)))) (\<lambda>t.
      do_append_to_normalized s (case t of None \<Rightarrow> [] | Some x \<Rightarrow> universal_newlines x) False)))))"

definition append_supplementary_material :: "env \<Rightarrow> session \<Rightarrow> incoming_message \<Rightarrow> bool act" where
  "append_supplementary_material e s m =
     (let text = strip (m_content_text m) in
      if text = [] \<and> m_file_key m = [] then ret False
      else if is_attachment m then
        catch (append_attachment e s m)
          (\<lambda>x. if is_ingest_rejected x then raise_exn x else ret False)
      else
        (let lark_urls = extract_lark_urls text; web_urls = extract_urls_simple text in
         if lark_urls \<noteq> [] then
           bnd (fetch_lark_urls e lark_urls) (\<lambda>t. do_append_to_normalized s t False)
         else if web_urls \<noteq> [] then
           bnd (scrape_urls e web_urls) (\<lambda>t. do_append_to_normalized s t False)
         else if 10 \<le> length text then do_append_to_normalized s text False
         else ret False))"

section \<open>The first message\<close>

definition ingest_text :: "env \<Rightarrow> session \<Rightarrow> ustr \<Rightarrow> ustr \<Rightarrow> unit act" where
  "ingest_text e s stamp text =
     (if extract_lark_urls text \<noteq> [] then
        bnd (fetch_lark_urls e (extract_lark_urls text)) (set_normalized s)
      else if extract_bitable_urls text \<noteq> [] then
        bnd (fetch_bitable_urls e (extract_bitable_urls text)) (set_normalized s)
      else if extract_sheet_urls text \<noteq> [] then
        bnd (fetch_sheet_urls e (extract_sheet_urls text)) (set_normalized s)
      else if extract_youtube_urls text \<noteq> [] then
        bnd (fetch_youtube_urls e (extract_youtube_urls text)) (set_normalized s)
      else if extract_urls_simple text \<noteq> [] then
        bnd (scrape_urls e (extract_urls_simple text)) (set_normalized s)
      else
        (let name = stamp @ asc ''_text.md'' in
         andthen (store_input s name (utf8 text)) (ingest_run e s name)))"

definition ingest_attachment ::
  "env \<Rightarrow> session \<Rightarrow> incoming_message \<Rightarrow> ustr \<Rightarrow> string \<Rightarrow> (int list \<Rightarrow> ustr) \<Rightarrow> unit act" where
  "ingest_attachment e s m stamp kind ext =
     bnd (call (\<lambda>n. download_attachment e n (m_message_id m) (m_file_key m) kind)) (\<lambda>raw.
     let name = stamp @ asc (''_'' @ kind) @ ext raw in
     andthen (store_input s name raw) (ingest_run e s name))"

definition ingest_file :: "env \<Rightarrow> session \<Rightarrow> incoming_message \<Rightarrow> ustr \<Rightarrow> bool act" where
  "ingest_file e s m stamp =
     bnd (call (\<lambda>n. download_attachment e n (m_message_id m) (m_file_key m) ''file'')) (\<lambda>raw.
     bnd (lift_sum (guess_ext_from_content_raw e (m_content_raw m))) (\<lambda>guess.
     let ext = (if guess = [] \<or> guess = asc ''.bin''
                then (if raw \<noteq> [] then detect_file_ext raw else asc ''.bin'') else guess);
         name = stamp @ asc ''_file'' @ ext in
     andthen (store_input s name raw)
       (catch (andthen (ingest_run e s name) (ret True))
         (\<lambda>x. andthen (safe_dm e (requester_oid s) (DmFileUnsupported ext)) (ret False)))))"

definition catch_all_types :: "ustr list" where
  "catch_all_types = map asc [''media'', ''video'', ''sticker'', ''interactive'', ''share_chat'',
     ''share_user'', ''system'']"

text \<open>A message type named \<open>_default\<close> would pick the default text as well.\<close>

definition catch_all_key :: "ustr \<Rightarrow> ustr" where
  "catch_all_key ty = (if ty \<in> set catch_all_types then ty else asc ''_default'')"

definition save_and_ingest_multimodal :: "env \<Rightarrow> session \<Rightarrow> incoming_message \<Rightarrow> bool act" where
  "save_and_ingest_multimodal e s m =
     bnd (now_iso e) (\<lambda>ts.
     let stamp = without_colons ts in
     if (m_msg_type m = asc ''text'' \<or> m_msg_type m = asc ''post'') \<and> strip (m_content_text m) \<noteq> [] then
       andthen (ingest_text e s stamp (m_content_text m)) (ret True)
     else if m_msg_type m = asc ''image'' \<and> m_file_key m \<noteq> [] then
       andthen (ingest_attachment e s m stamp ''image'' (sniff_ext detect_image_ext (asc ''.png''))) (ret True)
     else if m_msg_type m = asc ''audio'' \<and> m_file_key m \<noteq> [] then
       andthen (ingest_attachment e s m stamp ''audio'' (sniff_ext detect_audio_ext (asc ''.ogg''))) (ret True)
     else if m_msg_type m = asc ''file'' \<and> m_file_key m \<noteq> [] then
       ingest_file e s m stamp
     else
       andthen (safe_dm e (requester_oid s) (DmCatchAll (catch_all_key (m_msg_type m)))) (ret False))"

section \<open>New material while the subject is confirmed\<close>

definition maybe_reingest_at_subject_confirmation ::
  "env \<Rightarrow> session \<Rightarrow> incoming_message \<Rightarrow> bool act" where
  "maybe_reingest_at_subject_confirmation e s m =
     (let text = m_content_text m;
          lark_urls = extract_lark_urls text;
          web_urls = extract_urls_simple text in
      if lark_urls = [] \<and> web_urls = [] \<and> \<not> 300 < length (strip text) then ret False
      else
        andthen
          (if lark_urls \<noteq> [] then
             bnd (fetch_lark_urls e lark_urls) (\<lambda>t.
             andthen (set_normalized s t)
               (safe_dm e (requester_oid s) (DmReadLarkDocs (length lark_urls))))
           else if web_urls \<noteq> [] then
             bnd (scrape_urls e web_urls) (\<lambda>t.
             andthen (set_normalized s t)
               (safe_dm e (requester_oid s) (DmReadWebPages (length web_urls))))
           else andthen (set_normalized s text) (safe_dm e (requester_oid s) DmReadText))
        (andthen (update_session (s_id s) [Set_subject None, Set_stage SUBJECT_CONFIRMATION])
        (andthen (do_confirm_topic e (s_id s)) (ret True))))"

section \<open>Steps\<close>

context session_effects
begin

lemma steps_send_material_confirm_dm [step_rules]: "steps R (send_material_confirm_dm e s)"
  unfolding send_material_confirm_dm_def by (intro steps_intros step_rules)

lemma steps_do_append [step_rules]: "own s \<Longrightarrow> steps R (do_append_to_normalized s b r)"
  unfolding do_append_to_normalized_def by (intro steps_intros step_rules)

lemma steps_append_attachment [step_rules]: "own s \<Longrightarrow> steps R (append_attachment e s m)"
  unfolding append_attachment_def by (intro steps_intros step_rules)

lemma steps_append_supplementary [step_rules]:
  "own s \<Longrightarrow> steps R (append_supplementary_material e s m)"
  unfolding append_supplementary_material_def Let_def by (intro steps_intros step_rules)

lemma steps_ingest_text [step_rules]: "own s \<Longrightarrow> steps R (ingest_text e s stamp t)"
  unfolding ingest_text_def by (intro steps_intros step_rules)

lemma steps_ingest_attachment [step_rules]:
  "own s \<Longrightarrow> steps R (ingest_attachment e s m stamp kind ext)"
  unfolding ingest_attachment_def by (intro steps_intros step_rules)

lemma steps_ingest_file [step_rules]: "own s \<Longrightarrow> steps R (ingest_file e s m stamp)"
  unfolding ingest_file_def by (intro steps_intros step_rules)

lemma steps_save_and_ingest [step_rules]:
  "own s \<Longrightarrow> steps R (save_and_ingest_multimodal e s m)"
  unfolding save_and_ingest_multimodal_def by (intro steps_intros step_rules)

end

context staged_effects
begin

lemma steps_maybe_reingest [step_rules]:
  "own s \<Longrightarrow> SUBJECT_CONFIRMATION \<in> S \<Longrightarrow> steps R (maybe_reingest_at_subject_confirmation e s m)"
  unfolding maybe_reingest_at_subject_confirmation_def Let_def
  by (intro steps_intros step_rules) simp_all

end

section \<open>What a message does to the material\<close>

definition material_at :: "world \<Rightarrow> session \<Rightarrow> ustr option" where
  "material_at w s = normalized_md (folder_at w (key_of s))"

text \<open>Outside calls and messages leave every session directory alone.\<close>

interpretation directories_kept: call_effects "\<lambda>w w'. folders w' = folders w"
  by unfold_locales (simp_all add: w_sent_def)

lemma material_kept: "steps (\<lambda>w w'. folders w' = folders w) m \<Longrightarrow> m w = (r, w') \<Longrightarrow>
    material_at w' s = material_at w s"
  by (drule (1) stepsE) (simp add: material_at_def folder_at_def)

lemma material_set [simp]:
  "material_at (w_folder (key_of s) (\<lambda>d. d\<lparr>normalized_md := x\<rparr>) w) s = x"
  "material_at (w_folder k (\<lambda>d. d\<lparr>inputs := g d\<rparr>) w) s = material_at w s"
  "material_at (ticked w) s = material_at w s"
  by (auto simp: material_at_def)

lemma set_normalized_run: "set_normalized s t w = (Inr (), w_folder (key_of s) (\<lambda>d. d\<lparr>normalized_md := Some t\<rparr>) w)"
  by (simp add: set_normalized_def folder_act_def modify_def)

lemma store_input_run: "store_input s n raw w = (Inr (), w_folder (key_of s) (\<lambda>d. d\<lparr>inputs := (n, raw) # inputs d\<rparr>) w)"
  by (simp add: store_input_def folder_act_def modify_def)

lemma do_append_run:
  "do_append_to_normalized s block False w =
     (if strip block = [] then (Inr False, w)
      else case material_at w s of
        None \<Rightarrow> (Inr True, w_folder (key_of s) (\<lambda>d. d\<lparr>normalized_md := Some block\<rparr>) w)
      | Some t \<Rightarrow>
          if contains (strip block) (universal_newlines t) then (Inr False, w)
          else (Inr True, w_folder (key_of s) (\<lambda>d. d\<lparr>normalized_md :=
                 Some (rstrip (universal_newlines t) @ supplement_mark @ block)\<rparr>) w))"
  by (simp add: do_append_to_normalized_def gets_bnd material_at_def Let_def run_ret
      bnd_Inr [OF set_normalized_run] split: option.splits)

text \<open>What the first backend that can handle a file reads from it.\<close>

definition file_text :: "env \<Rightarrow> nat \<Rightarrow> ustr \<Rightarrow> int list \<Rightarrow> exn + ustr" where
  "file_text e n name raw =
     (case find (\<lambda>b. can_handle b (guess_mime e name) (lower (path_suffix name))) app_backends of
        None \<Rightarrow> Inl IngestUnsupported
      | Some b \<Rightarrow>
          if b \<noteq> WebBackend \<and> size_cap b < int (length raw)
          then Inl (IngestRejected (too_big_message (int (length raw)) (size_cap b)))
          else backend_ingest e n (backend_name b) name raw)"

lemma ingest_run_material:
  assumes "ingest_run e s name w = (r, w')"
    and "map_of (inputs (folder_at w (key_of s))) name = Some raw"
  shows "(case file_text e (tick w) name raw of
      Inl x \<Rightarrow> r = Inl x \<and> material_at w' s = material_at w s
    | Inr t \<Rightarrow> r = Inr () \<and> material_at w' s = Some t)"
  using assms
  by (auto simp: ingest_run_def file_text_def gets_bnd run_raise run_backend_def validate_size_def
      bnd_Inl bnd_Inr run_simps set_normalized_run run_ret split: option.splits if_splits sum.splits)

lemma ingest_run_missing:
  "map_of (inputs (folder_at w (key_of s))) name = None \<Longrightarrow>
    ingest_run e s name w = (Inl FileNotFoundError, w)"
  by (simp add: ingest_run_def gets_bnd run_raise)

lemma contains_strip: "contains (strip t) t"
proof -
  obtain b where "lstrip t = rstrip (lstrip t) @ b" using rstrip_by_substring by blast
  moreover have "t = takeWhile is_space t @ lstrip t" by (simp add: lstrip_by_def)
  ultimately have "t = takeWhile is_space t @ strip t @ b" by (metis strip_by_def)
  then show ?thesis unfolding contains_iff by blast
qed

lemma do_append_same:
  assumes "material_at w s = Some t"
  shows "do_append_to_normalized s (universal_newlines t) False w = (Inr False, w)"
  using assms by (simp add: do_append_run contains_strip)

text \<open>The text of the attachment of a message: downloaded, stored under a name made of the time and
  the kind of file, and read by the backend for that name.\<close>

definition attachment_name :: "env \<Rightarrow> incoming_message \<Rightarrow> int list \<Rightarrow> nat \<Rightarrow> ustr" where
  "attachment_name e m raw n =
     without_colons (clock e n) @ asc ''_supplement'' @ supplement_ext (m_msg_type m) raw"

definition attachment_text :: "env \<Rightarrow> incoming_message \<Rightarrow> nat \<Rightarrow> exn + ustr" where
  "attachment_text e m n =
     (case download_attachment e n (m_message_id m) (m_file_key m) (kind_name (m_msg_type m)) of
        Inl x \<Rightarrow> Inl x
      | Inr raw \<Rightarrow> file_text e (Suc (Suc n)) (attachment_name e m raw (Suc n)) raw)"

lemma append_attachment_material:
  assumes "append_attachment e s m w = (r, w')"
  shows "(case attachment_text e m (tick w) of
      Inl x \<Rightarrow> r = Inl x \<and> material_at w' s = material_at w s
    | Inr t \<Rightarrow> r = Inr False \<and> material_at w' s = Some t)"
proof -
  let ?dl = "\<lambda>n. download_attachment e n (m_message_id m) (m_file_key m) (kind_name (m_msg_type m))"
  show ?thesis
  proof (cases "?dl (tick w)")
    case (Inl x)
    with assms show ?thesis by (auto simp: append_attachment_def attachment_text_def run_simps)
  next
    case (Inr raw)
    let ?n = "attachment_name e m raw (Suc (tick w))"
    let ?w = "w_folder (key_of s) (\<lambda>d. d\<lparr>inputs := (?n, raw) # inputs d\<rparr>) (ticked (ticked w))"
    let ?t = "file_text e (Suc (Suc (tick w))) ?n raw"
    obtain q v where q: "ingest_run e s ?n ?w = (q, v)" by fastforce
    have run: "bnd (ingest_run e s ?n) (\<lambda>u. bnd (gets (\<lambda>w. normalized_md (folder_at w (key_of s)))) (\<lambda>t.
      do_append_to_normalized s (case t of None \<Rightarrow> [] | Some x \<Rightarrow> universal_newlines x) False)) ?w = (r, w')"
      using assms Inr
      by (simp add: append_attachment_def attachment_name_def run_call run_now_iso Let_def
          bnd_Inr [OF store_input_run])
    have txt_eq: "attachment_text e m (tick w) = ?t" using Inr by (simp add: attachment_text_def)
    have res: "case ?t of Inl x \<Rightarrow> q = Inl x \<and> material_at v s = material_at w s
      | Inr t \<Rightarrow> q = Inr () \<and> material_at v s = Some t"
      using ingest_run_material [OF q, of raw] by (simp split: sum.splits)
    show ?thesis
    proof (cases ?t)
      case (Inl x)
      with res run q txt_eq show ?thesis by (auto simp: bnd_Inl)
    next
      case (Inr t)
      with res have q': "q = Inr ()" and t: "material_at v s = Some t" by auto
      have "do_append_to_normalized s (universal_newlines t) False v = (r, w')"
        using run q q' t by (simp add: bnd_Inr gets_bnd material_at_def)
      with do_append_same [OF t] t txt_eq Inr show ?thesis by auto
    qed
  qed
qed

definition demo_message :: incoming_message where
  "demo_message = \<lparr>m_event_id = asc ''ev1'', m_sender_open_id = asc ''ou_ann'', m_chat_type = asc ''p2p'',
     m_msg_type = asc ''text'', m_content_raw = [], m_content_text = asc ''please review this plan'',
     m_chat_id = asc ''oc_1'', m_create_time = asc ''0'', m_message_id = asc ''om_0'', m_file_key = []\<rparr>"

definition demo_image :: incoming_message where
  "demo_image = demo_message\<lparr>m_msg_type := asc ''image'', m_content_text := [], m_file_key := asc ''k''\<rparr>"

definition image_env :: env where
  "image_env = demo_env\<lparr>download_attachment := (\<lambda>n i k kind. Inr (asc ''page two''))\<rparr>"

text \<open>C25: An attachment sent to complete the material replaces it. When the attachment can be
  downloaded and read, its text is afterwards the whole material, whatever the material was, and
  the handler is told that nothing was added. When it cannot, the material stays as it was: a
  rejection (the file is too large) is raised to the handler, any other failure is again reported
  as nothing added.
\<close>

theorem attachment_replaces_material:
  assumes m: "is_attachment m"
  shows "\<exists>r w'. append_supplementary_material e s m w = (r, w') \<and>
    (case attachment_text e m (tick w) of
       Inr t \<Rightarrow> r = Inr False \<and> material_at w' s = Some t
     | Inl x \<Rightarrow> r = (if is_ingest_rejected x then Inl x else Inr False)
         \<and> material_at w' s = material_at w s)"
proof -
  obtain q v where q: "append_attachment e s m w = (q, v)" by fastforce
  note kept = append_attachment_material [OF q]
  have "append_supplementary_material e s m w
      = catch (append_attachment e s m) (\<lambda>x. if is_ingest_rejected x then raise_exn x else ret False) w"
    using m by (auto simp: append_supplementary_material_def is_attachment_def Let_def)
  with q have "append_supplementary_material e s m w =
      ((case q of Inl x \<Rightarrow> if is_ingest_rejected x then Inl x else Inr False | Inr b \<Rightarrow> Inr b), v)"
    by (simp add: catch_Inl catch_Inr run_raise run_ret split: sum.split)
  with kept show ?thesis by (cases "attachment_text e m (tick w)") simp_all
qed

theorem attachment_replaces_material_witness:
  "is_attachment demo_image \<and> attachment_text image_env demo_image (tick demo_world) = Inr (asc ''page two'')
   \<and> material_at demo_world demo_session = Some (asc ''the draft'')
   \<and> (\<exists>w'. append_supplementary_material image_env demo_session demo_image demo_world = (Inr False, w')
        \<and> material_at w' demo_session = Some (asc ''page two''))"
proof -
  have m: "is_attachment demo_image"
    and t: "attachment_text image_env demo_image (tick demo_world) = Inr (asc ''page two'')"
    and old: "material_at demo_world demo_session = Some (asc ''the draft'')" by code_simp+
  from attachment_replaces_material [OF m, of image_env demo_session demo_world]
  show ?thesis using m t old by (auto simp del: asc_Cons simp: asc_def)
qed

text \<open>The block is appended, or the material stays.\<close>

definition appended :: "ustr \<Rightarrow> exn + bool \<Rightarrow> ustr option \<Rightarrow> bool" where
  "appended t r new \<longleftrightarrow>
     (if r = Inr True then \<exists>block. strip block \<noteq> [] \<and>
        new = Some (rstrip (universal_newlines t) @ supplement_mark @ block)
      else new = Some t)"

lemma do_append_appended:
  assumes "do_append_to_normalized s block False w = (r, w')" and "material_at w s = Some t"
  shows "appended t r (material_at w' s)"
  using assms by (auto simp: do_append_run appended_def split: if_splits)

lemma fetch_append_appended:
  assumes run: "bnd m (\<lambda>b. do_append_to_normalized s b False) w = (r, w')"
    and kept: "steps (\<lambda>w w'. folders w' = folders w) m" and old: "material_at w s = Some t"
  shows "appended t r (material_at w' s)"
proof -
  obtain q v where q: "m w = (q, v)" by fastforce
  with kept old have v: "material_at v s = Some t" by (simp add: material_kept)
  show ?thesis
  proof (cases q)
    case (Inl x)
    with run q v show ?thesis by (auto simp: bnd_Inl appended_def)
  next
    case (Inr b)
    with run q v show ?thesis by (auto simp: bnd_Inr intro: do_append_appended)
  qed
qed

text \<open>A text message never loses material: whatever happens, the earlier material is kept as it is
  or, when the handler reports an addition, as the beginning of the new one, followed by the
  separator and the added text.\<close>

theorem text_supplement_keeps_material:
  assumes run: "append_supplementary_material e s m w = (r, w')" and m: "\<not> is_attachment m"
    and old: "material_at w s = Some t"
  shows "appended t r (material_at w' s)"
proof -
  let ?text = "strip (m_content_text m)"
  consider "?text = [] \<and> m_file_key m = []" "(r, w') = (Inr False, w)"
    | "bnd (fetch_lark_urls e (extract_lark_urls ?text)) (\<lambda>b. do_append_to_normalized s b False) w = (r, w')"
    | "bnd (scrape_urls e (extract_urls_simple ?text)) (\<lambda>b. do_append_to_normalized s b False) w = (r, w')"
    | "do_append_to_normalized s ?text False w = (r, w')"
    | "(r, w') = (Inr False, w)"
    using run m by (auto simp: append_supplementary_material_def Let_def run_ret split: if_splits)
  then show ?thesis
  proof cases
    case 2
    then show ?thesis using directories_kept.steps_fetch_lark_urls old by (rule fetch_append_appended)
  next
    case 3
    then show ?thesis using directories_kept.steps_scrape_urls old by (rule fetch_append_appended)
  next
    case 4
    then show ?thesis using old by (rule do_append_appended)
  qed (use old in \<open>auto simp: appended_def\<close>)
qed

theorem text_supplement_keeps_material_witness:
  "\<exists>w'. append_supplementary_material demo_env demo_session demo_message demo_world = (Inr True, w')
     \<and> appended (asc ''the draft'') (Inr True) (material_at w' demo_session)"
proof -
  let ?run = "append_supplementary_material demo_env demo_session demo_message demo_world"
  have res: "fst ?run = Inr True" "material_at demo_world demo_session = Some (asc ''the draft'')"
      "\<not> is_attachment demo_message" by code_simp+
  then have run: "?run = (Inr True, snd ?run)" by (metis prod.collapse)
  from text_supplement_keeps_material [OF run res(3,2)] run show ?thesis by blast
qed

lemma ingest_run_some:
  assumes "ingest_run e s name w = (Inr u, w')"
  shows "\<exists>t. material_at w' s = Some t"
proof (cases "map_of (inputs (folder_at w (key_of s))) name")
  case None
  with assms show ?thesis by (simp add: ingest_run_missing)
next
  case (Some raw)
  with ingest_run_material [OF assms] show ?thesis by (auto split: sum.splits)
qed

lemma ingest_text_some:
  assumes "ingest_text e s stamp text w = (Inr u, w')"
  shows "\<exists>t. material_at w' s = Some t"
  using assms unfolding ingest_text_def Let_def
  by (auto simp: set_normalized_run split: if_splits elim!: bnd_InrE intro: ingest_run_some)

lemma ingest_attachment_some:
  assumes "ingest_attachment e s m stamp kind ext w = (Inr u, w')"
  shows "\<exists>t. material_at w' s = Some t"
  using assms unfolding ingest_attachment_def Let_def by (auto elim!: bnd_InrE dest: ingest_run_some)

lemma ingest_file_some:
  assumes "ingest_file e s m stamp w = (Inr True, w')"
  shows "\<exists>t. material_at w' s = Some t"
proof -
  have "\<exists>t. material_at w' s = Some t"
    if "catch (andthen (ingest_run e s n) (ret True)) (\<lambda>x. andthen (safe_dm e oid d) (ret False)) v = (Inr True, w')"
    for v n oid d
  proof -
    obtain q v' where q: "ingest_run e s n v = (q, v')" by fastforce
    show ?thesis
    proof (cases q)
      case (Inl x)
      with that q show ?thesis by (auto simp: catch_def bnd_Inl run_safe_dm run_ret)
    next
      case (Inr u)
      with that q ingest_run_some show ?thesis by (auto simp: catch_def bnd_Inr run_ret)
    qed
  qed
  with assms show ?thesis
    unfolding ingest_file_def Let_def by (elim bnd_InrE) blast
qed

text \<open>When the first message of a session is accepted, there is material to review.\<close>

lemma accepted_message_has_material:
  assumes "save_and_ingest_multimodal e s m w = (Inr True, w')"
  shows "\<exists>t. material_at w' s = Some t"
  using assms unfolding save_and_ingest_multimodal_def Let_def
  by (auto elim!: bnd_InrE split: if_splits simp: run_ret)
     (erule ingest_text_some ingest_attachment_some ingest_file_some)+

end
