(* ===== verification/Dispatcher.thy ===== *)
theory Dispatcher imports Material begin

text \<open>
  core/dispatcher.py, the handlers of one inbound message: an unknown sender is registered, a
  requester without an active session opens one, and a message inside a session is interpreted
  by the session's stage. \<open>dispatch\<close> is what the worker calls for a task. Every handler is a
  program on the world, so what it leaves behind when an exception escapes is part of the model.
\<close>

section \<open>Unknown senders\<close>

text \<open>\<open>user.get("name") or user.get("nick_name") or None\<close>; a value that is not a string is
  outside the model.\<close>

definition name_of_lark_user :: "obj \<Rightarrow> exn + ustr option" where
  "name_of_lark_user d =
     (let v = (if truthy (obj_get d ''name'') then obj_get d ''name'' else obj_get d ''nick_name'') in
      if \<not> truthy v then Inr None
      else (case v of JStr t \<Rightarrow> Inr (Some t) | _ \<Rightarrow> Inl outside_model))"

definition lookup_display_name :: "env \<Rightarrow> ustr \<Rightarrow> ustr option act" where
  "lookup_display_name e oid =
     bnd (catch (bnd (call (\<lambda>n. lark_get_user e n oid)) (\<lambda>d. ret (Some d))) (\<lambda>x. ret None)) (\<lambda>r.
     case r of None \<Rightarrow> ret None | Some d \<Rightarrow> lift_sum (name_of_lark_user d))"

definition pick_responder :: "user \<Rightarrow> user list \<Rightarrow> ustr" where
  "pick_responder admin responders =
     (if RESPONDER \<in> set (roles admin) then open_id admin
      else case responders of [] \<Rightarrow> open_id admin | r # _ \<Rightarrow> open_id r)"

definition new_requester :: "ustr \<Rightarrow> ustr \<Rightarrow> ustr \<Rightarrow> user" where
  "new_requester oid name responder = \<lparr>open_id = oid, display_name = name, roles = [REQUESTER],
     pairing_responder_oid = Some responder, u_created_at = [], u_updated_at = []\<rparr>"

definition maybe_auto_register :: "env \<Rightarrow> incoming_message \<Rightarrow> user option act" where
  "maybe_auto_register e m =
     (let oid = m_sender_open_id m in
      if \<not> cfg_auto_register e then andthen (safe_dm e oid DmAutoRegisterDisabled) (ret None)
      else
        bnd (list_users e (Some ADMIN)) (\<lambda>admins.
        case admins of
          [] \<Rightarrow> andthen (safe_dm e oid DmSetupUnfinished) (ret None)
        | admin # _ \<Rightarrow>
            bnd (if RESPONDER \<in> set (roles admin) then ret [] else list_users e (Some RESPONDER)) (\<lambda>responders.
            bnd (lookup_display_name e oid) (\<lambda>found.
            let name = (case found of None \<Rightarrow> asc ''New user'' | Some n \<Rightarrow> n);
                u = new_requester oid name (pick_responder admin responders) in
            andthen (upsert_user e u)
            (andthen (safe_dm e oid (DmWelcome name (display_name admin)))
            (andthen (safe_dm e (open_id admin) (DmAdminNotify name oid))
            (ret (Some u))))))))"

section \<open>A new session\<close>

definition cancel_intake :: "env \<Rightarrow> session \<Rightarrow> unit act" where
  "cancel_intake e s =
     bnd (now_iso e) (\<lambda>ts.
     update_session (s_id s) [Set_status CANCELLED, Set_stage INGEST_FAILED, Set_closed_at (Some ts)])"

text \<open>The part of \<open>_handle_requester_no_session\<close> that follows the creation of the session.\<close>

definition intake :: "env \<Rightarrow> session \<Rightarrow> incoming_message \<Rightarrow> unit act" where
  "intake e s m =
     bnd (catch (bnd (save_and_ingest_multimodal e s m) (\<lambda>b. ret (Some b)))
            (\<lambda>x. case x of
               IngestRejected msg \<Rightarrow>
                 andthen (safe_dm e (requester_oid s) (DmRejected msg)) (andthen (cancel_intake e s) (ret None))
             | _ \<Rightarrow> andthen (fail_session e s INGEST_FAILED ''ingest'' x) (ret None)))
       (\<lambda>r. case r of
          None \<Rightarrow> ret ()
        | Some False \<Rightarrow> cancel_intake e s
        | Some True \<Rightarrow>
            andthen (update_session (s_id s) [Set_stage AWAITING_MATERIAL_CONFIRM])
              (send_material_confirm_dm e s))"

text \<open>The operator's files: \<open>_global_configs\<close> and \<open>_responder_profile_for\<close>.\<close>

definition admin_style_md :: "env \<Rightarrow> nat \<Rightarrow> ustr option" where
  "admin_style_md e n = fs_file e n (fs_root e @ asc ''/config/admin_style.md'')"

definition review_rules_md :: "env \<Rightarrow> nat \<Rightarrow> ustr option" where
  "review_rules_md e n = fs_file e n (fs_root e @ asc ''/config/review_rules.md'')"

definition responder_profile_path :: "ustr \<Rightarrow> ustr \<Rightarrow> ustr" where
  "responder_profile_path fs oid = fs @ asc ''/config/responder_'' @ oid @ asc ''.md''"

definition responder_md :: "env \<Rightarrow> nat \<Rightarrow> ustr \<Rightarrow> ustr option" where
  "responder_md e n oid = fs_file e n (responder_profile_path (fs_root e) oid)"

definition text_or_empty :: "ustr option \<Rightarrow> ustr" where
  "text_or_empty t = (case t of None \<Rightarrow> [] | Some x \<Rightarrow> x)"

definition handle_requester_no_session :: "env \<Rightarrow> user \<Rightarrow> incoming_message \<Rightarrow> unit act" where
  "handle_requester_no_session e u m =
     bnd (case pairing_responder_oid u of
            None \<Rightarrow> ret None
          | Some p \<Rightarrow> if p = [] then ret None else get_user p) (\<lambda>responder.
     case responder of
       None \<Rightarrow> safe_dm e (open_id u) DmNotPaired
     | Some r \<Rightarrow>
         bnd (ask (admin_style_md e)) (\<lambda>style.
         bnd (ask (review_rules_md e)) (\<lambda>rules.
         bnd (ask (\<lambda>n. responder_md e n (open_id r))) (\<lambda>profile.
         bnd (create_session e (open_id u) (open_id r) (text_or_empty style) (text_or_empty rules)
                (text_or_empty profile)) (\<lambda>s.
         intake e s m)))))"

section \<open>Confirming the material\<close>

definition cancel_tokens :: "ustr list" where
  "cancel_tokens = [asc ''cancel'', [21462, 28040], [31639, 20102], asc ''stop'']"

definition start_tokens :: "ustr list" where
  "start_tokens = [asc ''ok'', [24320, 22987], [22909], asc ''go'', asc ''start'', asc ''done'', asc ''yes'',
     asc ''y'', [128077], asc ''ready'']"

definition start_prefixes :: "ustr list" where
  "start_prefixes = [asc ''ok '', [22909] @ asc '' '', asc ''start '']"

definition handle_awaiting_material_confirm :: "env \<Rightarrow> session \<Rightarrow> incoming_message \<Rightarrow> unit act" where
  "handle_awaiting_material_confirm e s m =
     (let oid = requester_oid s; low = lower (strip (m_content_text m)) in
      if low \<in> set cancel_tokens then
        bnd (now_iso e) (\<lambda>ts.
        andthen (update_session (s_id s)
          [Set_status CANCELLED, Set_stage CANCELLED_stage, Set_closed_at (Some ts)])
          (safe_dm e oid DmCancelled))
      else if low \<in> set start_tokens \<or> startswith_any low start_prefixes then
        andthen (safe_dm e oid DmStartingReview)
        (andthen (update_session (s_id s) [Set_stage SUBJECT_CONFIRMATION])
          (do_confirm_topic e (s_id s)))
      else
        bnd (catch (bnd (append_supplementary_material e s m) (\<lambda>b. ret (Some b)))
               (\<lambda>x. case x of
                  IngestRejected msg \<Rightarrow> andthen (safe_dm e oid (DmRejected msg)) (ret None)
                | _ \<Rightarrow> raise_exn x))
          (\<lambda>r. case r of
             None \<Rightarrow> ret ()
           | Some False \<Rightarrow> safe_dm e oid DmMaterialNotUnderstood
           | Some True \<Rightarrow> send_material_confirm_dm e s))"

section \<open>New material during the Q\&A\<close>

definition kickoff_rescan_after_supplement :: "env \<Rightarrow> session \<Rightarrow> unit act" where
  "kickoff_rescan_after_supplement e s =
     andthen (save_cursor s empty_cursor)
     (andthen (update_session (s_id s) [Set_stage SCANNING, Set_round_no (round_no s + 1)])
     (andthen (safe_dm e (requester_oid s) DmRescanning)
       (do_scan e (s_id s))))"

text \<open>The two \<open>try\<close> blocks of \<open>_maybe_supplement_during_qa\<close>.\<close>

definition supplement_and_rescan :: "env \<Rightarrow> session \<Rightarrow> incoming_message \<Rightarrow> bool act" where
  "supplement_and_rescan e s m =
     bnd (catch (bnd (append_supplementary_material e s m) (\<lambda>b. ret (Some b)))
            (\<lambda>x. case x of
               IngestRejected msg \<Rightarrow> andthen (safe_dm e (requester_oid s) (DmRejected msg)) (ret None)
             | _ \<Rightarrow> raise_exn x))
       (\<lambda>r. case r of
          None \<Rightarrow> ret True
        | Some added \<Rightarrow>
            if added then andthen (kickoff_rescan_after_supplement e s) (ret added) else ret added)"

definition looks_like_material :: "ustr \<Rightarrow> bool" where
  "looks_like_material text \<longleftrightarrow>
     extract_lark_urls text \<noteq> [] \<or> extract_urls_simple text \<noteq> [] \<or> 300 < length text"

definition maybe_supplement_during_qa :: "env \<Rightarrow> session \<Rightarrow> incoming_message \<Rightarrow> bool act" where
  "maybe_supplement_during_qa e s m =
     (if is_attachment m then supplement_and_rescan e s m
      else
        (let text = strip (m_content_text m) in
         if text = [] then ret False
         else if \<not> looks_like_material text then ret False
         else supplement_and_rescan e s m))"

section \<open>Confirming the close\<close>

definition handle_close_confirmation :: "env \<Rightarrow> session \<Rightarrow> incoming_message \<Rightarrow> unit act" where
  "handle_close_confirmation e s m =
     (let oid = requester_oid s;
          i = fst (parse_reply_intent (m_content_text m) ''qa_loop'') in
      andthen (log_conversation e s ''requester'' (m_content_text m) i)
      (if i \<in> {ACCEPT, DONE, PICK_A} then
         andthen (update_session (s_id s) [Set_stage MERGING])
         (andthen (safe_dm e oid DmClosing) (close_chain e (s_id s) False))
       else if i \<in> {MORE, PICK_B} then
         bnd (load_cursor s) (\<lambda>c.
         let (moved, c') = pull_deferred (cfg_top_n_findings e) c in
         if moved = 0 then safe_dm e oid DmDeferredEmpty
         else
           andthen (save_cursor s (advance c'))
           (andthen (update_session (s_id s) [Set_stage QA_ACTIVE])
           (andthen (safe_dm e oid (DmPulled moved)) (emit_next_finding e (s_id s)))))
       else if i = FORCE_CLOSE then
         andthen (safe_dm e oid DmForceClosing) (close_chain e (s_id s) True)
       else safe_dm e oid DmCloseMenu))"

section \<open>A message inside a session\<close>

text \<open>\<open>BUSY_STAGES\<close>: the audit row that shows the stage has run, and the restart.\<close>

definition busy_stage :: "env \<Rightarrow> session \<Rightarrow> (string \<times> unit act) option" where
  "busy_stage e s =
     (case s_stage s of
        SCANNING \<Rightarrow> Some (''scan_four_pillar'', do_scan e (s_id s))
      | MERGING \<Rightarrow> Some (''merge_draft'', do_merge e (s_id s))
      | FINAL_GATING \<Rightarrow> Some (''final_gate'', do_final_gate e (s_id s) False)
      | CLOSING \<Rightarrow> Some (''build_summary'', do_build_and_deliver e (s_id s))
      | _ \<Rightarrow> None)"

definition handle_subject_reply :: "env \<Rightarrow> session \<Rightarrow> incoming_message \<Rightarrow> unit act" where
  "handle_subject_reply e s m =
     bnd (if (m_msg_type m = asc ''text'' \<or> m_msg_type m = asc ''post'') \<and> strip (m_content_text m) \<noteq> []
          then maybe_reingest_at_subject_confirmation e s m else ret False) (\<lambda>again.
     if again then ret ()
     else
       bnd (topic_reply e s (m_content_text m)) (\<lambda>(i, chosen).
       case chosen of
         Some t \<Rightarrow> if t = [] then safe_dm e (requester_oid s) DmPickAgain else do_scan e (s_id s)
       | None \<Rightarrow> safe_dm e (requester_oid s) DmPickAgain))"

definition handle_qa_reply :: "env \<Rightarrow> session \<Rightarrow> incoming_message \<Rightarrow> unit act" where
  "handle_qa_reply e s m =
     andthen (update_session (s_id s) [Set_stage QA_ACTIVE])
     (bnd (maybe_supplement_during_qa e s m) (\<lambda>handled.
      if handled then ret ()
      else
        bnd (handle_reply e s (m_content_text m)) (\<lambda>oc.
        case action oc of
          EmitNext \<Rightarrow> emit_next_finding e (s_id s)
        | ProposeClose \<Rightarrow>
            andthen (update_session (s_id s) [Set_stage AWAITING_CLOSE_CONFIRMATION])
              (safe_dm e (requester_oid s)
                (case dm_text oc of None \<Rightarrow> DmBlockersClosedDefault | Some d \<Rightarrow> d))
        | ForceClose \<Rightarrow>
            andthen (safe_dm e (requester_oid s) DmForceClosing) (close_chain e (s_id s) True)
        | NoOp \<Rightarrow> ret ())))"

definition handle_other_stage :: "env \<Rightarrow> session \<Rightarrow> incoming_message \<Rightarrow> unit act" where
  "handle_other_stage e s m =
     (case busy_stage e s of
        Some (key, restart) \<Rightarrow>
          bnd (has_llm_call_for_stage (s_id s) key) (\<lambda>ran.
          if \<not> ran then andthen (safe_dm e (requester_oid s) (DmInterrupted (s_stage s))) restart
          else safe_dm e (requester_oid s) (DmBusy (s_stage s)))
      | None \<Rightarrow>
          (if fst (parse_reply_intent (m_content_text m) ''qa_loop'') \<in> {ACCEPT, DONE}
           then close_chain e (s_id s) False
           else safe_dm e (requester_oid s) (DmNotNow (s_stage s))))"

definition handle_requester_in_session :: "env \<Rightarrow> session \<Rightarrow> incoming_message \<Rightarrow> unit act" where
  "handle_requester_in_session e s m =
     (if s_stage s = AWAITING_MATERIAL_CONFIRM then handle_awaiting_material_confirm e s m
      else if s_stage s = SUBJECT_CONFIRMATION then handle_subject_reply e s m
      else if s_stage s = QA_ACTIVE \<or> s_stage s = QA_ACTIVE_REOPENED then handle_qa_reply e s m
      else if s_stage s = AWAITING_CLOSE_CONFIRMATION then handle_close_confirmation e s m
      else handle_other_stage e s m)"

section \<open>Entry points\<close>

definition serve_sender :: "env \<Rightarrow> user \<Rightarrow> incoming_message \<Rightarrow> unit act" where
  "serve_sender e u m =
     bnd (get_active_session_for e (open_id u)) (\<lambda>active.
     if REQUESTER \<in> set (roles u) then
       (case active of
          Some s \<Rightarrow> handle_requester_in_session e s m
        | None \<Rightarrow> handle_requester_no_session e u m)
     else safe_dm e (open_id u) (DmControlsInCli (display_name u)))"

definition handle_incoming :: "env \<Rightarrow> incoming_message \<Rightarrow> unit act" where
  "handle_incoming e m =
     bnd (get_user (m_sender_open_id m)) (\<lambda>sender.
     case sender of
       Some u \<Rightarrow> serve_sender e u m
     | None \<Rightarrow>
         bnd (maybe_auto_register e m) (\<lambda>r.
         case r of None \<Rightarrow> ret () | Some u \<Rightarrow> serve_sender e u m))"

definition dispatch :: "env \<Rightarrow> task \<Rightarrow> unit act" where
  "dispatch e t =
     (if t_kind t = asc ''incoming_message'' then
        (case t_payload t of MessagePayload m \<Rightarrow> handle_incoming e m | SessionPayload sid f \<Rightarrow> raise_exn TypeError)
      else if t_kind t \<in> set (map asc [''scan'', ''merge_draft'', ''final_gate'', ''build_and_deliver'']) then
        (case t_payload t of
           MessagePayload m \<Rightarrow> raise_exn KeyError
         | SessionPayload sid forced \<Rightarrow>
             if t_kind t = asc ''scan'' then do_scan e sid
             else if t_kind t = asc ''merge_draft'' then do_merge e sid
             else if t_kind t = asc ''final_gate'' then do_final_gate e sid forced
             else do_build_and_deliver e sid)
      else ret ())"

section \<open>The stage diagram\<close>

text \<open>
  The stages one message can take a session to. docs/ARCH.md draws the diagram as a line with one way
  back; the code also starts over when new material arrives during the Q\&A and picks up an interrupted
  stage, and it never enters \<open>AWAITING_FINAL_DRAFT\<close> and \<open>FAILED\<close>.
\<close>

fun next_stages :: "stage \<Rightarrow> stage set" where
  "next_stages AWAITING_MATERIAL_CONFIRM = {SUBJECT_CONFIRMATION, CANCELLED_stage}"
| "next_stages SUBJECT_CONFIRMATION = {SUBJECT_CONFIRMATION, SCANNING, QA_ACTIVE}"
| "next_stages QA_ACTIVE = {SCANNING, AWAITING_CLOSE_CONFIRMATION} \<union> close_stages"
| "next_stages QA_ACTIVE_REOPENED = {SCANNING, AWAITING_CLOSE_CONFIRMATION} \<union> close_stages"
| "next_stages SCANNING = {SCANNING, QA_ACTIVE}"
| "next_stages MERGING = {MERGING, FINAL_GATING}"
| "next_stages FINAL_GATING = {FINAL_GATING, CLOSING}"
| "next_stages CLOSING = {CLOSING, CLOSED_stage}"
| "next_stages st = close_stages"

text \<open>The stages of a session that was just opened.\<close>

abbreviation opening_stages :: "stage set" where
  "opening_stages \<equiv> {INTAKE, AWAITING_MATERIAL_CONFIRM, INGEST_FAILED}"

section \<open>Steps\<close>

context staged_effects
begin

lemma steps_cancel_intake [step_rules]: "own s \<Longrightarrow> INGEST_FAILED \<in> S \<Longrightarrow> steps R (cancel_intake e s)"
  unfolding cancel_intake_def by (intro steps_intros step_rules) simp_all

lemma steps_intake [step_rules]: "own s \<Longrightarrow> opening_stages \<subseteq> S \<Longrightarrow> steps R (intake e s m)"
  unfolding intake_def
  by (intro steps_intros step_rules) (auto split: exn.splits bool.splits intro!: steps_intros step_rules)

lemma steps_handle_awaiting [step_rules]:
  "own s \<Longrightarrow> {SUBJECT_CONFIRMATION, CANCELLED_stage} \<subseteq> S \<Longrightarrow> steps R (handle_awaiting_material_confirm e s m)"
  unfolding handle_awaiting_material_confirm_def Let_def
  by (intro steps_intros step_rules) (auto split: exn.splits bool.splits intro!: steps_intros step_rules)

lemma steps_kickoff [step_rules]:
  "own s \<Longrightarrow> {SCANNING, QA_ACTIVE} \<subseteq> S \<Longrightarrow> steps R (kickoff_rescan_after_supplement e s)"
  unfolding kickoff_rescan_after_supplement_def by (intro steps_intros step_rules) simp_all

lemma steps_supplement_and_rescan [step_rules]:
  "own s \<Longrightarrow> {SCANNING, QA_ACTIVE} \<subseteq> S \<Longrightarrow> steps R (supplement_and_rescan e s m)"
  unfolding supplement_and_rescan_def
  by (intro steps_intros step_rules) (auto split: exn.splits intro!: steps_intros step_rules)

lemma steps_maybe_supplement [step_rules]:
  "own s \<Longrightarrow> {SCANNING, QA_ACTIVE} \<subseteq> S \<Longrightarrow> steps R (maybe_supplement_during_qa e s m)"
  unfolding maybe_supplement_during_qa_def Let_def by (intro steps_intros step_rules)

lemma steps_close_confirmation [step_rules]:
  "own s \<Longrightarrow> close_stages \<subseteq> S \<Longrightarrow> steps R (handle_close_confirmation e s m)"
  unfolding handle_close_confirmation_def Let_def
  by (intro steps_intros step_rules) simp_all

lemma steps_handle_subject_reply [step_rules]:
  "own s \<Longrightarrow> {SUBJECT_CONFIRMATION, SCANNING, QA_ACTIVE} \<subseteq> S \<Longrightarrow> steps R (handle_subject_reply e s m)"
  unfolding handle_subject_reply_def by (intro steps_intros step_rules) simp_all

lemma steps_handle_qa_reply [step_rules]:
  "own s \<Longrightarrow> {SCANNING, AWAITING_CLOSE_CONFIRMATION} \<union> close_stages \<subseteq> S \<Longrightarrow> steps R (handle_qa_reply e s m)"
  unfolding handle_qa_reply_def
  by (intro steps_intros step_rules) (auto split: turn_action.splits intro!: steps_intros step_rules)

lemma steps_handle_other_stage:
  "own s \<Longrightarrow> next_stages (s_stage s) \<subseteq> S \<Longrightarrow> s_stage s \<notin> {AWAITING_MATERIAL_CONFIRM, SUBJECT_CONFIRMATION} \<Longrightarrow>
   steps R (handle_other_stage e s m)"
  unfolding handle_other_stage_def busy_stage_def
  by (auto split: stage.splits intro!: steps_intros step_rules)

lemma steps_handle_in_session [step_rules]:
  assumes "own s" and "next_stages (s_stage s) \<subseteq> S"
  shows "steps R (handle_requester_in_session e s m)"
  using assms steps_handle_other_stage [OF assms, of e m]
  unfolding handle_requester_in_session_def by (auto intro!: steps_if step_rules)

end

end
