(* ===== verification/Safety.thy ===== *)
theory Safety imports Dispatcher begin

text \<open>
  What a whole message may change. The steps of every handler are composed here into steps of
  \<open>handle_incoming\<close> and \<open>dispatch\<close>, and the interface \<open>quiet_effects\<close> is interpreted on
  concrete relations between worlds: the tables keep their keys and their history, a closed
  session is never active again, a requester has at most one active session, and the sessions
  of other requesters are not touched.
\<close>

section \<open>Steps of the entry points\<close>

context user_effects
begin

lemma steps_lookup_display_name [step_rules]: "steps R (lookup_display_name e oid)"
  unfolding lookup_display_name_def by (intro steps_intros step_rules)

lemma steps_maybe_auto_register [step_rules]: "steps R (maybe_auto_register e m)"
  unfolding maybe_auto_register_def Let_def
  by (auto split: list.splits intro!: steps_intros step_rules)

end

context quiet_effects
begin

lemma steps_on_id:
  assumes "\<And>s :: session. steps R (f (s_id s))"
  shows "steps R (f sid)"
proof -
  have "s_id (undefined\<lparr>s_id := sid\<rparr> :: session) = sid" by simp
  then show ?thesis using assms [of "undefined\<lparr>s_id := sid\<rparr>"] by simp
qed

text \<open>The tasks that name a session by its id.\<close>

lemma steps_session_tasks:
  assumes "\<And>s. own s"
  shows "steps R (do_scan e sid)" and "steps R (do_merge e sid)" and "steps R (do_final_gate e sid f)"
    and "steps R (do_build_and_deliver e sid)"
  by (rule steps_on_id, rule step_rules, rule assms, rule subset_UNIV)+

end

context store_effects
begin

lemma steps_no_session [step_rules]: "steps R (handle_requester_no_session e u m)"
  unfolding handle_requester_no_session_def by (intro steps_intros step_rules TrueI)

lemma steps_serve_sender [step_rules]: "steps R (serve_sender e u m)"
  unfolding serve_sender_def by (intro steps_intros step_rules TrueI)

lemma steps_handle_incoming [step_rules]: "steps R (handle_incoming e m)"
  unfolding handle_incoming_def by (intro steps_intros step_rules)

lemma steps_dispatch: "steps R (dispatch e t)"
  unfolding dispatch_def
  by (auto split: payload.splits intro!: steps_intros steps_handle_incoming steps_session_tasks)

end

section \<open>History\<close>

text \<open>A session row keeps its identity and never becomes active again.\<close>

definition evolves :: "session \<Rightarrow> session \<Rightarrow> bool" where
  "evolves s s' \<longleftrightarrow> same_identity s s' \<and> (s_status s \<noteq> ACTIVE \<longrightarrow> s_status s' \<noteq> ACTIVE)"

definition rows_evolve :: "session list \<Rightarrow> session list \<Rightarrow> bool" where
  "rows_evolve ss ss' \<longleftrightarrow> (\<exists>old new. ss' = old @ new \<and> list_all2 evolves ss old)"

definition history :: "world \<Rightarrow> world \<Rightarrow> bool" where
  "history w w' \<longleftrightarrow>
     prefix (llm_calls w) (llm_calls w') \<and> prefix (outbounds w) (outbounds w')
     \<and> prefix (sent w) (sent w') \<and> events w' = events w \<and> tasks w' = tasks w
     \<and> prefix (user_ids w) (user_ids w') \<and> rows_evolve (sessions w) (sessions w')"

lemma evolves_refl [simp]: "evolves s s"
  by (simp add: evolves_def)

lemma evolves_trans: "evolves s t \<Longrightarrow> evolves t u \<Longrightarrow> evolves s u"
  unfolding evolves_def using same_identity_trans by blast

lemma rows_evolve_refl [simp]: "rows_evolve ss ss"
  unfolding rows_evolve_def by (intro exI [of _ ss] exI [of _ "[]"]) (simp add: list_all2_refl)

lemma rows_evolve_trans:
  assumes "rows_evolve ss ts" and "rows_evolve ts us"
  shows "rows_evolve ss us"
proof -
  obtain old new where t: "ts = old @ new" "list_all2 evolves ss old"
    using assms(1) by (auto simp: rows_evolve_def)
  obtain old' new' where u: "us = old' @ new'" "list_all2 evolves (old @ new) old'"
    using assms(2) t(1) by (auto simp: rows_evolve_def)
  then obtain a b where "old' = a @ b" "list_all2 evolves old a"
    by (auto simp: list_all2_append1)
  moreover have "list_all2 evolves ss a"
    using evolves_trans t(2) \<open>list_all2 evolves old a\<close> by (rule list_all2_trans)
  ultimately show ?thesis unfolding rows_evolve_def using u(1) by force
qed

lemma rows_evolve_update:
  "never_active fs \<Longrightarrow> rows_evolve ss (map (\<lambda>s. if s_id s = i then set_fields fs s else s) ss)"
  unfolding rows_evolve_def
  by (intro exI [of _ "map (\<lambda>s. if s_id s = i then set_fields fs s else s) ss"] exI [of _ "[]"])
     (auto simp: list_all2_conv_all_nth evolves_def set_fields_status)

lemma rows_evolve_insert: "rows_evolve ss (ss @ [s])"
  unfolding rows_evolve_def by (intro exI [of _ ss] exI [of _ "[s]"]) (simp add: list_all2_refl)

lemma user_ids_upsert: "prefix (user_ids w) (user_ids (w_users (upsert_rows u (users w)) w))"
  by (simp add: user_ids_def w_users_def upsert_rows_ids)

interpretation history: store_effects history
proof
  show "history w w" for w by (simp add: history_def)
  show "history u v \<Longrightarrow> history v w \<Longrightarrow> history u w" for u v w
    unfolding history_def using rows_evolve_trans prefix_order.trans by metis
  show "history w (w\<lparr>tick := n\<rparr>)" for w n by (simp add: history_def user_ids_def)
  show "history w (w_sent m w)" for w m by (simp add: history_def user_ids_def w_sent_def)
  show "quiet UNIV fs \<Longrightarrow> history w (w_update_session (s_id s) fs w)" for s fs w
    by (simp add: history_def user_ids_def w_update_session_def rows_evolve_update)
  show "history w (w_folder (key_of s) g w)" for s g w
    by (simp add: history_def user_ids_def w_folder_def)
  show "history w (w_llm_call c w)" for c w by (simp add: history_def user_ids_def w_llm_call_def)
  show "history w (w_outbound ob w)" for ob w by (simp add: history_def user_ids_def w_outbound_def)
  show "history w (w_insert_session s w)" for s w
    by (simp add: history_def user_ids_def w_insert_session_def rows_evolve_insert)
  show "history w (w_users (upsert_rows u (users w)) w)" for u w
    using user_ids_upsert [of w u] by (simp add: history_def w_users_def)
qed simp

text \<open>C6: A message only adds to the history: LLM calls, deliveries and sent messages are appended
  to the audit tables, no user and no session disappears, a session keeps its id, requester,
  responder, directory and start time, and a session that is closed, failed or cancelled is
  never active again. The event and task tables are not touched.\<close>

theorem handle_incoming_history:
  "history w (snd (handle_incoming e m w))"
  by (rule stepsD) (rule history.steps_handle_incoming)

section \<open>Table integrity\<close>

lemma db_wf_w_sent [simp]: "db_wf (w_sent m w) \<longleftrightarrow> db_wf w"
  by (simp add: db_wf_def user_ids_def session_ids_def event_ids_def w_sent_def)

interpretation integrity: store_effects "\<lambda>w w'. db_wf w \<longrightarrow> db_wf w'"
  by unfold_locales
     (auto intro!: db_wf_w_llm_call db_wf_w_outbound db_wf_w_insert_session db_wf_w_users
       distinct_upsert_rows db_wf_parts)

text \<open>Whatever task the worker dispatches and however it ends, the tables keep their primary keys
  unique and every audit row refers to an existing session.\<close>

theorem dispatch_preserves_db:
  "db_wf w \<Longrightarrow> db_wf (snd (dispatch e t w))"
  using stepsD [OF integrity.steps_dispatch] by blast

definition demo_task :: task where
  "demo_task = \<lparr>t_id = 1, t_kind = asc ''incoming_message'', t_payload = MessagePayload demo_message,
     t_requester_oid = Some (asc ''ou_ann''), t_status = Running, t_attempts = 1, t_last_error = None,
     t_scheduled_at = asc ''t'', t_picked_at = None, t_finished_at = None\<rparr>"

lemma demo_db_wf: "db_wf demo_world"
  by (simp add: db_wf_def demo_world_def empty_world_def user_ids_def session_ids_def event_ids_def
      demo_responder_def demo_requester_def)

theorem dispatch_preserves_db_witness:
  "db_wf demo_world \<and> db_wf (snd (dispatch demo_env demo_task demo_world))"
  using dispatch_preserves_db [OF demo_db_wf] demo_db_wf by blast

section \<open>One active session per requester\<close>

definition active_count :: "world \<Rightarrow> ustr \<Rightarrow> nat" where
  "active_count w oid = length (filter (active_of oid) (sessions w))"

text \<open>Inside a session no handler makes a session active.\<close>

lemma active_count_update:
  assumes "never_active fs"
  shows "active_count (w_update_session i fs w) oid \<le> active_count w oid"
proof -
  have "length (filter (active_of oid) (map (\<lambda>s. if s_id s = i then set_fields fs s else s) ss))
      \<le> length (filter (active_of oid) ss)" for ss
    using assms by (induction ss) (auto simp: active_of_def set_fields_status)
  then show ?thesis by (simp add: active_count_def w_update_session_def)
qed

interpretation no_new_active: quiet_effects "\<lambda>w w'. \<forall>oid. active_count w' oid \<le> active_count w oid" "\<lambda>_. True"
  by unfold_locales
     (simp_all add: active_count_update,
      auto simp: active_count_def w_sent_def w_folder_def w_llm_call_def w_outbound_def intro: order_trans)

interpretation no_new_active: user_effects "\<lambda>w w'. \<forall>oid. active_count w' oid \<le> active_count w oid"
  by unfold_locales (simp add: active_count_def w_users_def)

lemma active_count_create:
  "active_count (snd (create_session e req resp style rules prof w)) oid
     \<le> active_count w oid + (if oid = req then 1 else 0)"
  by (simp add: create_session_def Let_def prog_simps active_count_def w_insert_session_def w_folder_def
      active_of_def new_session_def session_ids_def user_ids_def)

lemma find_active_None:
  assumes "scans_ok e"
  shows "find_active e w oid = None \<longleftrightarrow> active_count w oid = 0"
proof -
  let ?a = "filter (active_of oid) (sessions w)"
  have "mset (session_scan e ?a) = mset ?a" using assms by (simp add: scans_ok_def)
  then have "length (order_by_desc started_at (session_scan e ?a)) = length ?a"
    by (simp add: order_by_desc_def mset_eq_length)
  then show ?thesis
    by (auto simp: find_active_def active_count_def split: list.splits)
qed

definition paired_responder :: "world \<Rightarrow> user \<Rightarrow> user option" where
  "paired_responder w u =
     (case pairing_responder_oid u of None \<Rightarrow> None | Some p \<Rightarrow> if p = [] then None else find_user w p)"

lemma no_session_run:
  "handle_requester_no_session e u m w =
     (case paired_responder w u of
        None \<Rightarrow> safe_dm e (open_id u) DmNotPaired w
      | Some r \<Rightarrow>
          bnd (create_session e (open_id u) (open_id r) (text_or_empty (admin_style_md e (tick w)))
                 (text_or_empty (review_rules_md e (Suc (tick w))))
                 (text_or_empty (responder_md e (Suc (Suc (tick w))) (open_id r))))
            (\<lambda>s. intake e s m) (ticked (ticked (ticked w))))"
  by (auto simp: handle_requester_no_session_def paired_responder_def run_ask run_get_user
      split: option.splits)

abbreviation single_active :: "world \<Rightarrow> bool" where
  "single_active w \<equiv> \<forall>oid. active_count w oid \<le> 1"

lemma active_count_ticked [simp]: "active_count (ticked w) oid = active_count w oid"
  by (simp add: active_count_def)

text \<open>What may depend on the state: a session is only opened for a requester who has no active one.\<close>

locale guarded_effects = quiet_effects R "\<lambda>_. True" + user_effects R for R +
  assumes open_R: "s_id s \<notin> set (session_ids w) \<Longrightarrow> requester_oid s \<in> set (user_ids w) \<Longrightarrow>
      responder_oid s \<in> set (user_ids w) \<Longrightarrow> s_status s = ACTIVE \<Longrightarrow> active_count w (requester_oid s) = 0 \<Longrightarrow>
      R w (w_insert_session s w)"
begin

lemma create_R:
  assumes "active_count w req = 0"
  shows "R w (snd (create_session e req resp style rules prof w))"
proof -
  let ?files = "\<lambda>f. f\<lparr>frozen_admin_style := style, frozen_review_rules := rules, frozen_profile := prof,
         annotations := [], conversation := [], dissent := [], cursor_file := Some empty_cursor\<rparr>"
  let ?w = "ticked (w_folder (req, fresh_id e (tick w)) ?files (ticked w))"
  have "R w ?w"
    using stepsD [OF steps_ask, of w "fresh_id e"] stepsD [OF steps_any_folder, of "ticked w"]
      stepsD [OF steps_now_iso, of "w_folder (req, fresh_id e (tick w)) ?files (ticked w)" e] trans_R
    by (simp add: ask_def now_iso_def modify_def ticked_def [symmetric]) blast
  moreover have "active_count ?w req = 0" using assms by (simp add: active_count_def)
  then have "R ?w (snd (bnd (gets (\<lambda>w. fresh_id e (tick w0) \<notin> set (session_ids w) \<and> req \<in> set (user_ids w)
                    \<and> resp \<in> set (user_ids w))) (\<lambda>ok.
       if ok then andthen (modify (w_insert_session s)) (ret s) else raise_exn IntegrityError) ?w))"
    if "s = new_session e (fresh_id e (tick w0)) req resp ts" for s ts w0
    using that open_R [of s ?w] by (auto simp: prog_simps refl_R new_session_def)
  ultimately show ?thesis
    unfolding create_session_def Let_def run_ask modify_bnd run_now_iso using trans_R by blast
qed

lemma no_session_R:
  assumes "active_count w (open_id u) = 0"
  shows "R w (snd (handle_requester_no_session e u m w))"
proof (cases "paired_responder w u")
  case None
  then show ?thesis using stepsD [OF steps_safe_dm] by (simp add: no_session_run)
next
  case (Some r)
  let ?create = "create_session e (open_id u) (open_id r) (text_or_empty (admin_style_md e (tick w)))
     (text_or_empty (review_rules_md e (Suc (tick w))))
     (text_or_empty (responder_md e (Suc (Suc (tick w))) (open_id r)))"
  let ?w = "ticked (ticked (ticked w))"
  have start: "R w ?w" using tick_R trans_R unfolding ticked_def by metis
  have "R ?w (snd (?create ?w))" using assms by (intro create_R) simp
  with start have made: "R w (snd (?create ?w))" by (rule trans_R)
  have "R w (snd (bnd ?create (\<lambda>s. intake e s m) ?w))"
  proof (rule bnd_snd_cases)
    show "R w v" if "?create ?w = (Inl x, v)" for x v using made that by simp
    show "R w (snd (intake e s m v))" if "?create ?w = (Inr s, v)" for s v
      using made that trans_R stepsD [OF steps_intake [OF TrueI subset_UNIV]] by fastforce
  qed
  with Some show ?thesis by (simp add: no_session_run)
qed

lemma serve_R:
  assumes "scans_ok e"
  shows "R w (snd (serve_sender e u m w))"
proof (cases "find_active e w (open_id u)")
  case None
  then have "active_count w (open_id u) = 0" using find_active_None [OF assms] by simp
  with None show ?thesis
    using no_session_R stepsD [OF steps_safe_dm]
    by (simp add: serve_sender_def get_active_session_for_def gets_bnd)
next
  case (Some s)
  then show ?thesis
    using stepsD [OF steps_handle_in_session [OF TrueI subset_UNIV]] stepsD [OF steps_safe_dm]
    by (simp add: serve_sender_def get_active_session_for_def gets_bnd)
qed

lemma incoming_R:
  assumes "scans_ok e"
  shows "R w (snd (handle_incoming e m w))"
proof -
  have "R w (snd (bnd (maybe_auto_register e m)
      (\<lambda>r. case r of None \<Rightarrow> ret () | Some u \<Rightarrow> serve_sender e u m) w))"
  proof (rule bnd_snd_cases)
    note registered = stepsD [OF steps_maybe_auto_register, of w e m]
    show "R w v" if "maybe_auto_register e m w = (Inl x, v)" for x v using registered that by simp
    show "R w (snd ((case r of None \<Rightarrow> ret () | Some u \<Rightarrow> serve_sender e u m) v))"
      if "maybe_auto_register e m w = (Inr r, v)" for r v
    proof -
      have "R w v" using registered that by simp
      from trans_R [OF this serve_R [OF assms]] this show ?thesis by (cases r) (simp_all add: run_ret)
    qed
  qed
  then show ?thesis
    using serve_R [OF assms] by (simp add: handle_incoming_def run_get_user split: option.splits)
qed

lemma dispatch_R:
  assumes "scans_ok e"
  shows "R w (snd (dispatch e t w))"
  using incoming_R [OF assms] stepsD [OF steps_session_tasks(1) [OF TrueI]] stepsD [OF steps_session_tasks(2) [OF TrueI]]
    stepsD [OF steps_session_tasks(3) [OF TrueI]] stepsD [OF steps_session_tasks(4) [OF TrueI]]
  unfolding dispatch_def by (auto simp: run_ret raise_exn_def refl_R split: payload.splits)

end

text \<open>One active session per requester is such a relation.\<close>

interpretation one_active: guarded_effects "\<lambda>w w'. single_active w \<longrightarrow> single_active w'"
proof unfold_locales
  have down: "single_active w \<longrightarrow> single_active w'" if "\<forall>oid. active_count w' oid \<le> active_count w oid" for w w'
    using that order_trans by blast
  show "single_active w \<longrightarrow> single_active (w\<lparr>tick := n\<rparr>)" for w n by (rule down [OF no_new_active.tick_R])
  show "single_active w \<longrightarrow> single_active (w_sent m w)" for w m by (rule down [OF no_new_active.sent_R])
  show "single_active w \<longrightarrow> single_active (w_update_session (s_id s) fs w)" if "quiet UNIV fs" for s fs w
    using that by (intro down) (simp add: active_count_update)
  show "single_active w \<longrightarrow> single_active (w_folder (key_of s) g w)" for s w g
    by (intro down) (simp add: active_count_def)
  show "single_active w \<longrightarrow> single_active (w_llm_call c w)"
    if "lc_session_id c = s_id s" "s_id s \<in> set (session_ids w)" for s c w
    by (intro down) (simp add: active_count_def)
  show "single_active w \<longrightarrow> single_active (w_outbound ob w)"
    if "ob_session_id ob = s_id s" "s_id s \<in> set (session_ids w)" for s ob w
    by (intro down) (simp add: active_count_def)
  show "single_active w \<longrightarrow> single_active (w_users (upsert_rows u (users w)) w)" for w u
    by (rule down [OF no_new_active.upsert_R])
  show "single_active w \<longrightarrow> single_active (w_insert_session s w)" if "s_status s = ACTIVE" "active_count w (requester_oid s) = 0" for s w
  proof (intro impI allI)
    fix oid assume "single_active w"
    then have "active_count w oid \<le> 1" by blast
    with that(2) show "active_count (w_insert_session s w) oid \<le> 1"
      by (auto simp: active_count_def w_insert_session_def active_of_def)
  qed
qed simp

text \<open>C5: A requester never gets a second active session: if every requester has at most one, this
  still holds after any message, whoever sent it and whatever fails on the way.\<close>

theorem at_most_one_active_session:
  assumes "scans_ok e" and "\<forall>oid. active_count w oid \<le> 1"
  shows "\<forall>oid. active_count (snd (handle_incoming e m w)) oid \<le> 1"
  using one_active.incoming_R [OF assms(1)] assms(2) by blast

sublocale store_effects \<subseteq> guarded_effects R
  by unfold_locales (rule insert_R)

theorem at_most_one_active_session_witness:
  "\<forall>oid. active_count (snd (handle_incoming demo_env demo_message demo_world)) oid \<le> 1"
  by (rule at_most_one_active_session)
     (simp_all add: active_count_def demo_world_def)

section \<open>Other requesters\<close>

definition others_of :: "ustr \<Rightarrow> session list \<Rightarrow> session list" where
  "others_of oid ss = filter (\<lambda>s. requester_oid s \<noteq> oid) ss"

definition others_kept :: "ustr \<Rightarrow> world \<Rightarrow> world \<Rightarrow> bool" where
  "others_kept oid w w' \<longleftrightarrow>
     others_of oid (sessions w') = others_of oid (sessions w)
     \<and> (\<forall>k. fst k \<noteq> oid \<longrightarrow> folders w' k = folders w k)"

definition owns :: "ustr \<Rightarrow> ustr \<Rightarrow> world \<Rightarrow> bool" where
  "owns oid sid w \<longleftrightarrow> (\<forall>r \<in> set (sessions w). s_id r = sid \<longrightarrow> requester_oid r = oid)"

text \<open>While session \<open>sid\<close> belongs to \<open>oid\<close>, its handlers keep the others' sessions.\<close>

definition isolated :: "ustr \<Rightarrow> ustr \<Rightarrow> world \<Rightarrow> world \<Rightarrow> bool" where
  "isolated oid sid w w' \<longleftrightarrow> (owns oid sid w \<longrightarrow> owns oid sid w' \<and> others_kept oid w w')"

lemma others_kept_trans: "others_kept oid u v \<Longrightarrow> others_kept oid v w \<Longrightarrow> others_kept oid u w"
  by (simp add: others_kept_def)

lemma others_of_update:
  "(\<forall>r \<in> set ss. s_id r = sid \<longrightarrow> requester_oid r = oid) \<Longrightarrow>
   others_of oid (map (\<lambda>s. if s_id s = sid then set_fields fs s else s) ss) = others_of oid ss"
  unfolding others_of_def by (induction ss) auto

lemma find_session_row: "find_session w sid = Some s \<Longrightarrow>
    \<exists>r \<in> set (sessions w). s_id r = sid \<and> s_id s = sid \<and> requester_oid r = requester_oid s"
  by (force simp: find_session_def row_to_session_def Let_def dest!: find_SomeD)

interpretation isolation: quiet_effects "isolated oid sid" "\<lambda>s. requester_oid s = oid \<and> s_id s = sid"
  for oid sid
proof
  show "isolated oid sid w w" for w by (simp add: isolated_def others_kept_def)
  show "isolated oid sid u v \<Longrightarrow> isolated oid sid v w \<Longrightarrow> isolated oid sid u w" for u v w
    unfolding isolated_def using others_kept_trans by blast
  show "isolated oid sid w (w\<lparr>tick := n\<rparr>)" for w n
    by (simp add: isolated_def others_kept_def owns_def)
  show "isolated oid sid w (w_sent m w)" for w m
    by (simp add: isolated_def others_kept_def owns_def)
  show "isolated oid sid w (w_update_session (s_id s) fs w)"
    if "requester_oid s = oid \<and> s_id s = sid" for s fs w
    using that by (auto simp: isolated_def others_kept_def owns_def sessions_w_update others_of_update)
  show "isolated oid sid w (w_folder (key_of s) g w)"
    if "requester_oid s = oid \<and> s_id s = sid" for s g w
    using that by (auto simp: isolated_def others_kept_def owns_def w_folder_def key_of_def)
  show "isolated oid sid w (w_llm_call c w)" for c w
    by (simp add: isolated_def others_kept_def owns_def)
  show "isolated oid sid w (w_outbound ob w)" for ob w
    by (simp add: isolated_def others_kept_def owns_def)
  show "isolated oid sid w w'"
    if "requester_oid s = oid \<and> s_id s = sid" "find_session w (s_id s) = Some s'"
      "\<not> (requester_oid s' = oid \<and> s_id s' = sid)" for s w s' w'
    using that find_session_row [of w sid s'] by (auto simp: isolated_def owns_def)
qed

interpretation registration: user_effects "\<lambda>w w'. sessions w' = sessions w \<and> folders w' = folders w"
  by unfold_locales (simp_all add: w_sent_def w_users_def)

lemma isolatedD: "isolated oid sid w w' \<Longrightarrow> owns oid sid w \<Longrightarrow> others_kept oid w w'"
  by (simp add: isolated_def)

lemma find_active_Some:
  assumes "scans_ok e" and "find_active e w oid = Some s"
  shows "\<exists>r \<in> set (sessions w). active_of oid r \<and> s = row_to_session w r"
proof -
  let ?a = "filter (active_of oid) (sessions w)"
  have "mset (session_scan e ?a) = mset ?a" using assms by (simp add: scans_ok_def)
  then have "set (session_scan e ?a) = set ?a" by (rule mset_eq_setD)
  then have same: "set (order_by_desc started_at (session_scan e ?a)) = set ?a"
    by (simp add: order_by_desc_def)
  obtain r rs where rs: "order_by_desc started_at (session_scan e ?a) = r # rs" "s = row_to_session w r"
    using assms(2) by (auto simp: find_active_def split: list.splits)
  then have "r \<in> set ?a" using same by (metis list.set_intros(1))
  with rs(2) show ?thesis by auto
qed

lemma find_active_row:
  assumes "scans_ok e" and "find_active e w oid = Some s"
  shows "\<exists>r \<in> set (sessions w). s_id r = s_id s \<and> requester_oid r = oid" and "requester_oid s = oid"
  using find_active_Some [OF assms] by (auto simp: active_of_def row_to_session_def Let_def)

lemma owns_row:
  assumes "db_wf w" and "r \<in> set (sessions w)"
  shows "owns (requester_oid r) (s_id r) w"
  using db_wf_parts(2) [OF assms(1)] assms(2) unfolding owns_def
  by (metis (mono_tags, lifting) inj_on_contraD distinct_map)

lemma create_session_result:
  assumes "create_session e req resp style rules prof w = (r, w')"
  shows "others_kept req w w' \<and> (\<forall>s. r = Inr s \<longrightarrow> requester_oid s = req \<and> owns req (s_id s) w')"
  using assms
  by (auto simp: create_session_def Let_def prog_simps others_kept_def others_of_def owns_def
      w_insert_session_def w_folder_def new_session_def session_ids_def split: if_splits)
     (metis image_eqI)

lemma others_kept_ticked [simp]: "others_kept oid (ticked w) v = others_kept oid w v"
  by (simp add: others_kept_def)

lemma others_kept_dm: "others_kept oid w (snd (safe_dm e oid' d w))"
  using stepsD [OF registration.steps_safe_dm, of e oid' d w] by (simp add: others_kept_def)

lemma others_kept_no_session:
  "others_kept (open_id u) w (snd (handle_requester_no_session e u m w))"
proof (cases "paired_responder w u")
  case None
  then show ?thesis by (simp add: no_session_run others_kept_dm)
next
  case (Some r)
  let ?create = "create_session e (open_id u) (open_id r) (text_or_empty (admin_style_md e (tick w)))
     (text_or_empty (review_rules_md e (Suc (tick w))))
     (text_or_empty (responder_md e (Suc (Suc (tick w))) (open_id r)))"
  let ?w = "ticked (ticked (ticked w))"
  have "others_kept (open_id u) ?w (snd (bnd ?create (\<lambda>s. intake e s m) ?w))"
  proof (rule bnd_snd_cases)
    show "others_kept (open_id u) ?w v" if "?create ?w = (Inl x, v)" for x v
      using create_session_result [OF that] by blast
    show "others_kept (open_id u) ?w (snd (intake e s m v))" if "?create ?w = (Inr s, v)" for s v
    proof -
      have "others_kept (open_id u) ?w v" "requester_oid s = open_id u" "owns (open_id u) (s_id s) v"
        using create_session_result [OF that] by auto
      moreover have "isolated (open_id u) (s_id s) v (snd (intake e s m v))"
        using \<open>requester_oid s = open_id u\<close> by (simp add: stepsD isolation.steps_intake)
      ultimately show ?thesis using isolatedD others_kept_trans by blast
    qed
  qed
  then show ?thesis using Some by (simp add: no_session_run)
qed

lemma others_kept_serve:
  assumes "scans_ok e" and "db_wf w"
  shows "others_kept (open_id u) w (snd (serve_sender e u m w))"
proof -
  have "others_kept (open_id u) w (snd (handle_requester_in_session e s m w))"
    if s: "find_active e w (open_id u) = Some s" for s
  proof -
    have "owns (open_id u) (s_id s) w"
      using find_active_row [OF assms(1) s] owns_row [OF assms(2)] by metis
    moreover have "isolated (open_id u) (s_id s) w (snd (handle_requester_in_session e s m w))"
      using find_active_row(2) [OF assms(1) s] by (simp add: stepsD isolation.steps_handle_in_session)
    ultimately show ?thesis by (simp add: isolatedD)
  qed
  then show ?thesis
    using others_kept_no_session
    by (auto simp: others_kept_dm serve_sender_def get_active_session_for_def gets_bnd split: option.splits)
qed

lemma registered_id: "maybe_auto_register e m w = (Inr (Some u), w') \<Longrightarrow> open_id u = m_sender_open_id m"
  by (auto simp: maybe_auto_register_def Let_def new_requester_def run_ret run_safe_dm
      elim!: bnd_InrE split: if_splits list.splits)

text \<open>C2: A message changes nothing that belongs to another requester: their session rows and their
  session directories are the same after it, whatever the handler does and whatever fails.\<close>

theorem other_requesters_untouched:
  assumes "db_wf w" and "scans_ok e"
  shows "others_kept (m_sender_open_id m) w (snd (handle_incoming e m w))"
proof (cases "find_user w (m_sender_open_id m)")
  case (Some u)
  then have "open_id u = m_sender_open_id m" by (auto simp: find_user_def dest: find_SomeD)
  with Some others_kept_serve [OF assms(2,1), of u] show ?thesis
    by (simp add: handle_incoming_def run_get_user)
next
  case None
  have "others_kept (m_sender_open_id m) w (snd (bnd (maybe_auto_register e m)
      (\<lambda>r. case r of None \<Rightarrow> ret () | Some u \<Rightarrow> serve_sender e u m) w))"
  proof (rule bnd_snd_cases)
    have reg: "others_kept (m_sender_open_id m) w v" if "maybe_auto_register e m w = (r, v)" for r v
      using stepsE [OF registration.steps_maybe_auto_register that] by (simp add: others_kept_def)
    then show "others_kept (m_sender_open_id m) w v" if "maybe_auto_register e m w = (Inl x, v)" for x v
      using that by blast
    show "others_kept (m_sender_open_id m) w (snd ((case r of None \<Rightarrow> ret () | Some u \<Rightarrow> serve_sender e u m) v))"
      if run: "maybe_auto_register e m w = (Inr r, v)" for r v
    proof (cases r)
      case None
      with reg [OF run] show ?thesis by (simp add: run_ret)
    next
      case (Some u)
      have "db_wf v" using stepsE [OF integrity.steps_maybe_auto_register run] assms(1) by blast
      then have "others_kept (open_id u) v (snd (serve_sender e u m v))"
        by (rule others_kept_serve [OF assms(2)])
      with reg [OF run] registered_id [of e m w u v] run Some show ?thesis
        by (auto intro: others_kept_trans)
    qed
  qed
  with None show ?thesis by (simp add: handle_incoming_def run_get_user)
qed

theorem other_requesters_untouched_witness:
  "db_wf demo_world \<and>
   others_kept (m_sender_open_id demo_message) demo_world (snd (handle_incoming demo_env demo_message demo_world))"
  using other_requesters_untouched [OF demo_db_wf demo_scans_ok] demo_db_wf by blast

end
