(* ===== verification/TaskQueue.thy ===== *)
theory TaskQueue imports Safety begin

text \<open>
  tasks/queue.py and tasks/worker.py: one queue of task ids per requester, in memory, over the
  persisted \<open>tasks\<close> table, and the single worker that serves them. The state of the process is
  the store and the queues in the order of their creation (the insertion order of the
  \<open>defaultdict\<close>). \<open>next\<close> waits when every queue is empty; the model returns \<open>None\<close> there. With
  one worker the lock per requester is never contended.
\<close>

section \<open>Operations\<close>

record qstate =
  store :: world
  queues :: "(ustr \<times> nat list) list"

type_synonym 'a qact = "(qstate, 'a) prog"

definition on_store :: "'a act \<Rightarrow> 'a qact" where
  "on_store m = (\<lambda>q. case m (store q) of (r, w) \<Rightarrow> (r, q\<lparr>store := w\<rparr>))"

definition queue_key :: "ustr option \<Rightarrow> ustr" where
  "queue_key oid = (case oid of None \<Rightarrow> asc ''_global'' | Some o' \<Rightarrow> if o' = [] then asc ''_global'' else o')"

fun q_put :: "ustr \<Rightarrow> nat \<Rightarrow> (ustr \<times> nat list) list \<Rightarrow> (ustr \<times> nat list) list" where
  "q_put k t [] = [(k, [t])]"
| "q_put k t ((k', ts) # qs) = (if k' = k then (k, ts @ [t]) # qs else (k', ts) # q_put k t qs)"

definition enqueue :: "env \<Rightarrow> ustr \<Rightarrow> payload \<Rightarrow> ustr option \<Rightarrow> nat qact" where
  "enqueue e kind p oid =
     bnd (on_store (insert_task e kind p oid)) (\<lambda>tid.
     andthen (modify (\<lambda>q. q\<lparr>queues := q_put (queue_key oid) tid (queues q)\<rparr>)) (ret tid))"

definition put_tasks :: "task list \<Rightarrow> (ustr \<times> nat list) list \<Rightarrow> (ustr \<times> nat list) list" where
  "put_tasks ts qs = fold (\<lambda>t. q_put (queue_key (t_requester_oid t)) (t_id t)) ts qs"

definition replay_pending :: "env \<Rightarrow> nat qact" where
  "replay_pending e =
     bnd (on_store recover_running_tasks) (\<lambda>recovered.
     bnd (on_store (list_pending_tasks e)) (\<lambda>ts.
     andthen (modify (\<lambda>q. q\<lparr>queues := put_tasks ts (queues q)\<rparr>)) (ret (recovered + length ts))))"

text \<open>The \<open>for\<close> loop of \<open>next\<close>: the first queue that is not empty gives its head.\<close>

fun take_first :: "(ustr \<times> nat list) list \<Rightarrow> (nat \<times> (ustr \<times> nat list) list) option" where
  "take_first [] = None"
| "take_first ((k, []) # qs) = map_option (\<lambda>(t, qs'). (t, (k, []) # qs')) (take_first qs)"
| "take_first ((k, t # ts) # qs) = Some (t, (k, ts) # qs)"

definition next_task :: "env \<Rightarrow> (nat \<times> task option) option qact" where
  "next_task e =
     bnd (gets queues) (\<lambda>qs.
     case take_first qs of
       None \<Rightarrow> ret None
     | Some (tid, qs') \<Rightarrow>
         andthen (modify (\<lambda>q. q\<lparr>queues := qs'\<rparr>))
         (andthen (on_store (mark_task_running e tid))
         (bnd (on_store (fetch_task tid)) (\<lambda>t. ret (Some (tid, t))))))"

text \<open>The \<open>try\<close> of \<open>worker.run\<close>. Both \<open>except\<close> clauses fail the task for good.\<close>

definition finish_task :: "env \<Rightarrow> nat \<Rightarrow> task \<Rightarrow> unit qact" where
  "finish_task e tid t =
     catch (andthen (on_store (dispatch e t)) (on_store (mark_task_done e tid)))
       (\<lambda>x. on_store (mark_task_failed e tid (exn_text e x) True))"

text \<open>One turn of \<open>worker.run\<close>; \<open>False\<close> when it waits.\<close>

definition worker_step :: "env \<Rightarrow> bool qact" where
  "worker_step e =
     bnd (next_task e) (\<lambda>item.
     case item of
       None \<Rightarrow> ret False
     | Some (tid, None) \<Rightarrow> raise_exn AttributeError
     | Some (tid, Some t) \<Rightarrow> andthen (finish_task e tid t) (ret True))"

section \<open>Queues per requester\<close>

text \<open>
  The contract of the queues, over the view that gives each requester the list of waiting
  tasks: putting appends to one list, taking removes the head of one list and leaves the
  others, and only empty queues give nothing.
\<close>

locale task_queues =
  fixes put :: "ustr \<Rightarrow> nat \<Rightarrow> 'q \<Rightarrow> 'q"
    and take1 :: "'q \<Rightarrow> (nat \<times> 'q) option"
    and view :: "'q \<Rightarrow> ustr \<Rightarrow> nat list"
    and good :: "'q \<Rightarrow> bool"
  assumes good_put: "good q \<Longrightarrow> good (put k t q)"
    and view_put: "good q \<Longrightarrow> view (put k t q) = (view q)(k := view q k @ [t])"
    and good_take: "good q \<Longrightarrow> take1 q = Some (t, q') \<Longrightarrow> good q'"
    and view_take: "good q \<Longrightarrow> take1 q = Some (t, q') \<Longrightarrow>
       \<exists>k. view q k = t # view q' k \<and> (\<forall>k'. k' \<noteq> k \<longrightarrow> view q' k' = view q k')"
    and take_None: "good q \<Longrightarrow> take1 q = None \<longleftrightarrow> (\<forall>k. view q k = [])"
begin

text \<open>Putting a list of tasks and then taking: what waits for a requester is served in order.\<close>

lemma put_all:
  assumes "good q"
  shows "good (fold (\<lambda>(k, t). put k t) kts q)
    \<and> view (fold (\<lambda>(k, t). put k t) kts q) k = view q k @ map snd (filter (\<lambda>x. fst x = k) kts)"
  using assms
proof (induction kts arbitrary: q)
  case Nil
  then show ?case by simp
next
  case (Cons x kts)
  obtain k' t where x: "x = (k', t)" by fastforce
  have "good (put k' t q)" using Cons.prems by (rule good_put)
  from Cons.IH [OF this] show ?case using Cons.prems by (simp add: x view_put)
qed

text \<open>\<open>serves q ts q'\<close>: taking as often as \<open>ts\<close> is long gives \<open>ts\<close>.\<close>

inductive serves :: "'q \<Rightarrow> nat list \<Rightarrow> 'q \<Rightarrow> bool" where
  done0: "serves q [] q"
| take: "take1 q = Some (t, q') \<Longrightarrow> serves q' ts q'' \<Longrightarrow> serves q (t # ts) q''"

lemma serves_in_order:
  "serves q ts q' \<Longrightarrow> good q \<Longrightarrow> \<exists>sub. view q k = sub @ view q' k \<and> subseq sub ts"
proof (induction rule: serves.induct)
  case (done0 q)
  then show ?case by simp
next
  case (take q t q' ts q'')
  obtain k' where k': "view q k' = t # view q' k'" "\<forall>j. j \<noteq> k' \<longrightarrow> view q' j = view q j"
    using view_take [OF take.prems take.hyps(1)] by blast
  obtain sub where sub: "view q' k = sub @ view q'' k" "subseq sub ts"
    using take.IH good_take [OF take.prems take.hyps(1)] by blast
  show ?case
  proof (cases "k = k'")
    case True
    then show ?thesis using k' sub by (intro exI [of _ "t # sub"]) simp
  next
    case False
    then show ?thesis using k' sub by (intro exI [of _ sub]) auto
  qed
qed

end

definition queue_view :: "(ustr \<times> nat list) list \<Rightarrow> ustr \<Rightarrow> nat list" where
  "queue_view qs k = (case map_of qs k of None \<Rightarrow> [] | Some ts \<Rightarrow> ts)"

definition keys_distinct :: "(ustr \<times> nat list) list \<Rightarrow> bool" where
  "keys_distinct qs \<longleftrightarrow> distinct (map fst qs)"

lemma q_put_keys: "set (map fst (q_put k t qs)) = insert k (set (map fst qs))"
  by (induction k t qs rule: q_put.induct) auto

lemma q_put_distinct: "keys_distinct qs \<Longrightarrow> keys_distinct (q_put k t qs)"
  unfolding keys_distinct_def
proof (induction k t qs rule: q_put.induct)
  case (2 k t k' ts qs)
  then show ?case using q_put_keys [of k t qs] by auto
qed simp

lemma map_of_q_put: "map_of (q_put k t qs) = (map_of qs)(k \<mapsto> queue_view qs k @ [t])"
  by (induction k t qs rule: q_put.induct) (auto simp: queue_view_def)

lemma take_first_keys: "take_first qs = Some (t, qs') \<Longrightarrow> map fst qs' = map fst qs"
  by (induction qs arbitrary: qs' rule: take_first.induct) auto

lemma take_first_view:
  assumes "take_first qs = Some (t, qs')" and "keys_distinct qs"
  shows "\<exists>k. queue_view qs k = t # queue_view qs' k \<and> (\<forall>k'. k' \<noteq> k \<longrightarrow> queue_view qs' k' = queue_view qs k')"
  using assms
proof (induction qs arbitrary: qs' rule: take_first.induct)
  case 1
  then show ?case by simp
next
  case (2 k qs)
  then obtain r where r: "take_first qs = Some (t, r)" "qs' = (k, []) # r" by auto
  obtain j where j: "queue_view qs j = t # queue_view r j"
      "\<forall>k'. k' \<noteq> j \<longrightarrow> queue_view r k' = queue_view qs k'"
    using 2 r by (auto simp: keys_distinct_def)
  have "j \<in> fst ` set qs"
    using j(1) map_of_SomeD by (force simp: queue_view_def split: option.splits)
  with 2 have "j \<noteq> k" by (auto simp: keys_distinct_def)
  with j r show ?case by (intro exI [of _ j]) (auto simp: queue_view_def)
next
  case (3 k t' ts qs)
  then show ?case by (intro exI [of _ k]) (auto simp: queue_view_def)
qed

lemma take_first_None: "take_first qs = None \<longleftrightarrow> list_all (\<lambda>(k, ts). ts = []) qs"
  by (induction qs rule: take_first.induct) auto

lemma queue_view_empty:
  assumes "keys_distinct qs"
  shows "list_all (\<lambda>(k, ts). ts = []) qs \<longleftrightarrow> (\<forall>k. queue_view qs k = [])"
proof
  assume "list_all (\<lambda>(k, ts). ts = []) qs"
  then show "\<forall>k. queue_view qs k = []"
    by (auto simp: queue_view_def list_all_iff split: option.splits dest: map_of_SomeD)
next
  assume empty: "\<forall>k. queue_view qs k = []"
  have "ts = []" if "(k, ts) \<in> set qs" for k ts
    using empty [rule_format, of k] assms that by (simp add: queue_view_def keys_distinct_def)
  then show "list_all (\<lambda>(k, ts). ts = []) qs" by (auto simp: list_all_iff)
qed

interpretation tq: task_queues q_put take_first queue_view keys_distinct
proof
  fix q q' :: "(ustr \<times> nat list) list" and t
  assume q: "keys_distinct q"
  show "keys_distinct (q_put k t q)" for k using q by (rule q_put_distinct)
  show "queue_view (q_put k t q) = (queue_view q)(k := queue_view q k @ [t])" for k
    by (rule ext) (simp add: queue_view_def map_of_q_put)
  show "take_first q = None \<longleftrightarrow> (\<forall>k. queue_view q k = [])"
    using queue_view_empty [OF q] by (simp add: take_first_None)
  assume t: "take_first q = Some (t, q')"
  show "keys_distinct q'" using take_first_keys [OF t] q by (simp add: keys_distinct_def)
  show "\<exists>k. queue_view q k = t # queue_view q' k \<and> (\<forall>k'. k' \<noteq> k \<longrightarrow> queue_view q' k' = queue_view q k')"
    using t q by (rule take_first_view)
qed

section \<open>A turn of the worker\<close>

definition queued_ids :: "(ustr \<times> nat list) list \<Rightarrow> nat list" where
  "queued_ids qs = concat (map snd qs)"

definition finished :: "world \<Rightarrow> nat \<Rightarrow> bool" where
  "finished w tid \<longleftrightarrow> list_all (\<lambda>t. t_id t = tid \<longrightarrow> t_status t = Done \<or> t_status t = Failed) (tasks w)"

definition known_ids :: "qstate \<Rightarrow> bool" where
  "known_ids q \<longleftrightarrow> list_all (\<lambda>tid. tid \<in> set (map t_id (tasks (store q)))) (queued_ids (queues q))"

text \<open>A turn rewrites the rows with the task's id and no others.\<close>

definition finishes :: "nat \<Rightarrow> (task \<Rightarrow> task) \<Rightarrow> bool" where
  "finishes tid g \<longleftrightarrow> (\<forall>t. t_id (g t) = t_id t \<and> (t_id t \<noteq> tid \<longrightarrow> g t = t)
     \<and> (t_id t = tid \<longrightarrow> t_status (g t) = Done \<or> t_status (g t) = Failed))"

lemma take_first_mset: "take_first qs = Some (t, qs') \<Longrightarrow> mset (queued_ids qs) = add_mset t (mset (queued_ids qs'))"
  by (induction qs arbitrary: qs' rule: take_first.induct) (auto simp: queued_ids_def)

lemma take_first_waiting: "take_first qs = None \<Longrightarrow> queued_ids qs = []"
  by (induction qs rule: take_first.induct) (auto simp: queued_ids_def)

lemma on_store_run: "m (store q) = (r, w) \<Longrightarrow> on_store m q = (r, q\<lparr>store := w\<rparr>)"
  by (simp add: on_store_def)

lemma update_task_run: "update_task tid g w =
    (Inr (), w\<lparr>tasks := map (\<lambda>t. if t_id t = tid then g t else t) (tasks w)\<rparr>)"
  by (simp add: update_task_def modify_def w_tasks_def)

lemma running_run: "mark_task_running e tid w = (Inr (),
    (ticked w)\<lparr>tasks := map (\<lambda>t. if t_id t = tid then t\<lparr>t_status := Running, t_picked_at := Some (clock e (tick w)),
        t_attempts := Suc (t_attempts t)\<rparr> else t) (tasks w)\<rparr>)"
  by (simp add: mark_task_running_def run_now_iso update_task_run)

lemma fetch_run: "fetch_task tid w = (Inr (find (\<lambda>t. t_id t = tid) (tasks w)), w)"
  by (simp add: fetch_task_def gets_def)

lemma done_run: "mark_task_done e tid w = (Inr (),
    (ticked w)\<lparr>tasks := map (\<lambda>t. if t_id t = tid then t\<lparr>t_status := Done, t_finished_at := Some (clock e (tick w))\<rparr>
       else t) (tasks w)\<rparr>)"
  by (simp add: mark_task_done_def run_now_iso update_task_run)

lemma failed_run: "mark_task_failed e tid err True w = (Inr (),
    (ticked w)\<lparr>tasks := map (\<lambda>t. if t_id t = tid then t\<lparr>t_status := Failed, t_last_error := Some (take 1000 err),
       t_finished_at := Some (clock e (tick w))\<rparr> else t) (tasks w)\<rparr>)"
  by (simp add: mark_task_failed_def run_now_iso update_task_run)

lemma dispatch_tasks: "dispatch e t w = (r, w') \<Longrightarrow> tasks w' = tasks w"
  using stepsE [OF history.steps_dispatch] by (simp add: history_def)

lemma next_task_run:
  assumes "take_first (queues q) = Some (tid, qs')"
  shows "next_task e q = (Inr (Some (tid, find (\<lambda>t. t_id t = tid) (tasks (snd (mark_task_running e tid (store q)))))),
    q\<lparr>queues := qs', store := snd (mark_task_running e tid (store q))\<rparr>)"
  using assms
  by (simp add: next_task_def gets_bnd modify_bnd bnd_Inr [OF on_store_run [OF running_run]]
      bnd_Inr [OF on_store_run [OF fetch_run]] running_run run_ret cong: if_cong)

lemma next_task_waits: "take_first (queues q) = None \<Longrightarrow> next_task e q = (Inr None, q)"
  by (simp add: next_task_def gets_bnd run_ret)

text \<open>Whatever the handler does, the task ends done or failed, and the queues stay.\<close>

lemma finish_task_run:
  "\<exists>g v. finish_task e tid t q = (Inr (), q\<lparr>store := v\<lparr>tasks := map g (tasks (store q))\<rparr>\<rparr>)
     \<and> finishes tid g \<and> (\<exists>n. v = (snd (dispatch e t (store q)))\<lparr>tick := n\<rparr>)
     \<and> (\<forall>t'. queue_key (t_requester_oid (g t')) = queue_key (t_requester_oid t'))"
proof -
  obtain r v where d: "dispatch e t (store q) = (r, v)" by fastforce
  have v: "tasks v = tasks (store q)" using dispatch_tasks [OF d] .
  show ?thesis
  proof (cases r)
    case (Inl x)
    let ?f = "\<lambda>t. if t_id t = tid then t\<lparr>t_status := Failed, t_last_error := Some (take 1000 (exn_text e x)),
       t_finished_at := Some (clock e (tick v))\<rparr> else t"
    have "finish_task e tid t q = (Inr (), q\<lparr>store := (ticked v)\<lparr>tasks := map ?f (tasks (store q))\<rparr>\<rparr>)"
      using d Inl v by (simp add: finish_task_def catch_def bnd_Inl [OF on_store_run] on_store_run [OF failed_run])
    then show ?thesis using d
      by (intro exI [of _ ?f] exI [of _ "ticked v"]) (auto simp: finishes_def ticked_def)
  next
    case (Inr u)
    let ?f = "\<lambda>t. if t_id t = tid then t\<lparr>t_status := Done, t_finished_at := Some (clock e (tick v))\<rparr> else t"
    have "finish_task e tid t q = (Inr (), q\<lparr>store := (ticked v)\<lparr>tasks := map ?f (tasks (store q))\<rparr>\<rparr>)"
      using d Inr v by (simp add: finish_task_def catch_def bnd_Inr [OF on_store_run] on_store_run [OF done_run])
    then show ?thesis using d
      by (intro exI [of _ ?f] exI [of _ "ticked v"]) (auto simp: finishes_def ticked_def)
  qed
qed

lemma worker_step_takes:
  assumes "take_first (queues q) = Some (tid, qs')" and "tid \<in> set (map t_id (tasks (store q)))"
  shows "\<exists>q' g. worker_step e q = (Inr True, q') \<and> queues q' = qs'
    \<and> tasks (store q') = map g (tasks (store q)) \<and> finishes tid g"
proof -
  let ?run = "\<lambda>t. if t_id t = tid then t\<lparr>t_status := Running, t_picked_at := Some (clock e (tick (store q))),
        t_attempts := Suc (t_attempts t)\<rparr> else t"
  let ?q = "q\<lparr>queues := qs', store := snd (mark_task_running e tid (store q))\<rparr>"
  have run: "tasks (store ?q) = map ?run (tasks (store q))" by (simp add: running_run)
  have "find (\<lambda>t. t_id t = tid) (tasks (store q)) \<noteq> None"
    using assms(2) by (auto simp: find_None_iff_all)
  then have "find (\<lambda>t. t_id t = tid) (tasks (store ?q)) \<noteq> None"
    unfolding run using find_map_same_key [of t_id ?run tid "tasks (store q)"] by simp
  then obtain t where t: "next_task e q = (Inr (Some (tid, Some t)), ?q)"
    using next_task_run [OF assms(1)] by auto
  obtain g v where fin: "finish_task e tid t ?q = (Inr (), ?q\<lparr>store := v\<lparr>tasks := map g (tasks (store ?q))\<rparr>\<rparr>)"
    "finishes tid g" using finish_task_run by blast
  have "worker_step e q = (Inr True, ?q\<lparr>store := v\<lparr>tasks := map g (tasks (store ?q))\<rparr>\<rparr>)"
    by (simp add: worker_step_def bnd_Inr [where m = "next_task e", OF t] bnd_Inr [where m = "finish_task e tid t", OF fin(1)] run_ret)
  moreover have "finishes tid (g \<circ> ?run)" using fin(2) by (auto simp: finishes_def)
  moreover have "map g (tasks (store ?q)) = map (g \<circ> ?run) (tasks (store q))" unfolding run by simp
  ultimately show ?thesis
    by (intro exI [of _ "?q\<lparr>store := v\<lparr>tasks := map g (tasks (store ?q))\<rparr>\<rparr>"] exI [of _ "g \<circ> ?run"]) simp
qed

section \<open>Properties\<close>

lemma finishes_ids: "finishes tid g \<Longrightarrow> map t_id (map g ts) = map t_id ts"
  by (simp add: finishes_def)

lemma finishes_finished:
  assumes "finishes tid g" and "tasks w' = map g (tasks w)"
  shows "finished w' tid" and "finished w i \<Longrightarrow> finished w' i"
  using assms by (auto simp: finished_def finishes_def list_all_iff) metis+

text \<open>C7: The worker serves one requester's oldest waiting task per turn: it takes the head of one
  queue and leaves every other queue as it was, the task ends done or failed and never pending
  or running, whatever exception its handler raises, and no other task row changes.\<close>

theorem worker_serves_head:
  assumes "take_first (queues q) \<noteq> None" and "known_ids q" and "keys_distinct (queues q)"
  shows "\<exists>k tid q'. worker_step e q = (Inr True, q')
    \<and> queue_view (queues q) k = tid # queue_view (queues q') k
    \<and> (\<forall>k'. k' \<noteq> k \<longrightarrow> queue_view (queues q') k' = queue_view (queues q) k')
    \<and> finished (store q') tid
    \<and> filter (\<lambda>t. t_id t \<noteq> tid) (tasks (store q')) = filter (\<lambda>t. t_id t \<noteq> tid) (tasks (store q))"
proof -
  obtain tid qs' where t: "take_first (queues q) = Some (tid, qs')" using assms(1) by auto
  have "tid \<in> set (queued_ids (queues q))" using take_first_mset [OF t] by (metis union_single_eq_member set_mset_mset)
  then have "tid \<in> set (map t_id (tasks (store q)))" using assms(2) by (auto simp: known_ids_def list_all_iff)
  from worker_step_takes [OF t this] obtain q' g where q': "worker_step e q = (Inr True, q')" "queues q' = qs'"
    "tasks (store q') = map g (tasks (store q))" "finishes tid g" by blast
  have "filter (\<lambda>t. t_id t \<noteq> tid) (map g ts) = filter (\<lambda>t. t_id t \<noteq> tid) ts" for ts
    using q'(4) by (induction ts) (auto simp: finishes_def)
  with take_first_view [OF t assms(3)] q' finishes_finished [OF q'(4,3)] show ?thesis by metis
qed

fun worker_turns :: "env \<Rightarrow> nat \<Rightarrow> qstate \<Rightarrow> qstate" where
  "worker_turns e 0 q = q"
| "worker_turns e (Suc n) q = worker_turns e n (snd (worker_step e q))"

lemma turns_finish:
  assumes "known_ids q"
  shows "queued_ids (queues (worker_turns e (length (queued_ids (queues q))) q)) = []
    \<and> list_all (finished (store (worker_turns e (length (queued_ids (queues q))) q))) (queued_ids (queues q))
    \<and> (\<forall>i. finished (store q) i \<longrightarrow> finished (store (worker_turns e (length (queued_ids (queues q))) q)) i)"
  using assms
proof (induction "length (queued_ids (queues q))" arbitrary: q)
  case 0
  then show ?case by simp
next
  case (Suc n)
  have "take_first (queues q) \<noteq> None"
    using Suc.hyps(2) take_first_waiting [of "queues q"] by (metis list.size(3) nat.distinct(1))
  then obtain tid qs' where t: "take_first (queues q) = Some (tid, qs')" by auto
  note m = take_first_mset [OF t]
  have "tid \<in> set (queued_ids (queues q))" using m by (metis union_single_eq_member set_mset_mset)
  then have "tid \<in> set (map t_id (tasks (store q)))" using Suc.prems by (auto simp: known_ids_def list_all_iff)
  from worker_step_takes [OF t this] obtain q' g where q': "worker_step e q = (Inr True, q')" "queues q' = qs'"
    "tasks (store q') = map g (tasks (store q))" "finishes tid g" by blast
  have len: "n = length (queued_ids (queues q'))"
    using Suc.hyps(2) arg_cong [OF m, of size] q'(2) by simp
  have ids: "set (queued_ids (queues q)) = insert tid (set (queued_ids (queues q')))"
    using arg_cong [OF m, of set_mset] q'(2) by simp
  have "known_ids q'"
    using Suc.prems ids finishes_ids [OF q'(4)] q'(3) by (auto simp: known_ids_def list_all_iff)
  from Suc.hyps(1) [OF len this] finishes_finished [OF q'(4,3)] ids show ?case
    by (simp add: q'(1) len [symmetric] Suc.hyps(2) [symmetric] list_all_iff)
qed

text \<open>The backlog is worked off: as many turns as tasks are waiting empty every queue, and each
  of these tasks has then been dispatched and marked done or failed.\<close>

theorem worker_drains:
  "known_ids q \<Longrightarrow>
   queued_ids (queues (worker_turns e (length (queued_ids (queues q))) q)) = []
   \<and> list_all (finished (store (worker_turns e (length (queued_ids (queues q))) q))) (queued_ids (queues q))"
  using turns_finish by blast

section \<open>Starvation\<close>

lemma enqueue_queues: "queues (snd (enqueue e kind p oid q)) = q_put (queue_key oid) (next_task_id (ticked (store q))) (queues q)"
  by (simp add: enqueue_def insert_task_def bnd_def on_store_def now_iso_def ask_def gets_def modify_def ret_def ticked_def
      split: prod.splits)

interpretation same_queues: state_relation "\<lambda>q q'. queues q' = queues q"
  by unfold_locales simp_all

lemma worker_queues:
  assumes "take_first (queues q) = Some (tid, qs')"
  shows "queues (snd (worker_step e q)) = qs'"
proof -
  let ?R = "\<lambda>q q' :: qstate. queues q' = queues q"
  have st: "steps ?R (on_store m)" for m :: "'a act"
    by (auto simp: steps_def on_store_def split: prod.splits)
  have "steps ?R (bnd (andthen (on_store (mark_task_running e tid))
      (bnd (on_store (fetch_task tid)) (\<lambda>t. ret (Some (tid, t))))) (\<lambda>item.
     case item of
       None \<Rightarrow> ret False
     | Some (tid, None) \<Rightarrow> raise_exn AttributeError
     | Some (tid, Some t) \<Rightarrow> andthen (finish_task e tid t) (ret True)))"
    unfolding finish_task_def by (intro same_queues.steps_intros st)
  then show ?thesis using stepsD [of ?R _ "q\<lparr>queues := qs'\<rparr>"]
    by (fastforce simp: worker_step_def next_task_def bnd_assoc gets_bnd modify_bnd assms)
qed

text \<open>Rounds in which one requester sends a message and the worker takes a turn.\<close>

fun busy_rounds :: "env \<Rightarrow> ustr \<Rightarrow> incoming_message \<Rightarrow> nat \<Rightarrow> qstate \<Rightarrow> qstate" where
  "busy_rounds e oid m 0 q = q"
| "busy_rounds e oid m (Suc n) q = busy_rounds e oid m n
     (snd (worker_step e (snd (enqueue e (asc ''incoming_message'') (MessagePayload m) (Some oid) q))))"

text \<open>C26: One requester's backlog starves the others: while the requester whose queue was created
  first keeps sending a message per turn, the worker never serves anybody else, for any number
  of rounds.\<close>

theorem first_requester_starves_others:
  "oid \<noteq> [] \<Longrightarrow> queues q = (oid, ts) # rest \<Longrightarrow>
   \<exists>ts'. queues (busy_rounds e oid m n q) = (oid, ts') # rest"
proof (induction n arbitrary: q ts)
  case 0
  then show ?case by simp
next
  case (Suc n)
  let ?q = "snd (enqueue e (asc ''incoming_message'') (MessagePayload m) (Some oid) q)"
  let ?tid = "next_task_id (ticked (store q))"
  have "queues ?q = (oid, ts @ [?tid]) # rest"
    using Suc.prems by (simp add: enqueue_queues queue_key_def)
  then have "take_first (queues ?q) = Some (hd (ts @ [?tid]), (oid, tl (ts @ [?tid])) # rest)"
    by (cases ts) simp_all
  then have "queues (snd (worker_step e ?q)) = (oid, tl (ts @ [?tid])) # rest" by (rule worker_queues)
  with Suc show ?case by simp
qed

section \<open>Restart\<close>

lemma put_mset: "mset (queued_ids (q_put k t qs)) = add_mset t (mset (queued_ids qs))"
  by (induction k t qs rule: q_put.induct) (auto simp: queued_ids_def)

definition unfinished :: "task \<Rightarrow> bool" where
  "unfinished t \<longleftrightarrow> t_status t = Pending \<or> t_status t = Running"

lemma replay_pending_run:
  assumes "scans_ok e" and "queues q = []"
  shows "\<exists>q'. replay_pending e q =
      (Inr (length (filter (\<lambda>t. t_status t = Running) (tasks (store q))) + length (filter unfinished (tasks (store q)))), q')
    \<and> store q' = (store q)\<lparr>tasks := map recover_task (tasks (store q))\<rparr> \<and> keys_distinct (queues q')
    \<and> mset (queued_ids (queues q')) = mset (map t_id (filter unfinished (tasks (store q))))
    \<and> list_all (\<lambda>t. t_status t \<noteq> Running) (tasks (store q'))
    \<and> (\<forall>k. queue_view (queues q') k =
         map t_id (filter (\<lambda>t. queue_key (t_requester_oid t) = k) (pending_tasks e (store q'))))
    \<and> sorted (map t_scheduled_at (pending_tasks e (store q')))"
proof -
  let ?ts = "tasks (store q)" and ?rec = "map recover_task (tasks (store q))"
  let ?w = "(store q)\<lparr>tasks := ?rec\<rparr>"
  let ?p = "pending_tasks e ?w"
  let ?q = "q\<lparr>store := ?w, queues := put_tasks ?p []\<rparr>"
  have still: "filter (\<lambda>t. t_status t = Pending) ?rec = map recover_task (filter unfinished ?ts)"
    unfolding filter_map_same by (rule arg_cong [of _ _ "map recover_task"], rule filter_cong)
      (auto simp: recover_task_def unfinished_def)
  have "mset ?p = mset (filter (\<lambda>t. t_status t = Pending) ?rec)"
    using assms(1) by (simp add: pending_tasks_def scans_ok_def)
  then have p: "mset ?p = mset (map recover_task (filter unfinished ?ts))" unfolding still .
  have ids: "map t_id (map recover_task ts) = map t_id ts" for ts
    by (simp add: recover_task_def)
  have "mset (map t_id ?p) = mset (map t_id (map recover_task (filter unfinished ?ts)))"
    using p by (metis mset_map)
  then have pid: "mset (map t_id ?p) = mset (map t_id (filter unfinished ?ts))" unfolding ids .
  have len: "length ?p = length (filter unfinished ?ts)"
    using mset_eq_length [OF pid] by simp
  have run: "replay_pending e q = (Inr (length (filter (\<lambda>t. t_status t = Running) ?ts) + length ?p), ?q)"
    using assms(2)
    by (simp add: replay_pending_def bnd_def on_store_def recover_running_tasks_def list_pending_tasks_def
        gets_def modify_def ret_def w_tasks_def)
  have put: "put_tasks ts qs = fold (\<lambda>(k, t). q_put k t) (map (\<lambda>t. (queue_key (t_requester_oid t), t_id t)) ts) qs"
    for ts qs by (simp add: put_tasks_def fold_map comp_def)
  have "queue_view (put_tasks ?p []) k = map t_id (filter (\<lambda>t. queue_key (t_requester_oid t) = k) ?p)" for k
    using tq.put_all [of "[]" "map (\<lambda>t. (queue_key (t_requester_oid t), t_id t)) ?p" k]
    by (simp add: put keys_distinct_def queue_view_def filter_map_same comp_def)
  moreover have "keys_distinct (put_tasks ?p [])"
    using tq.put_all [of "[]"] by (simp add: put keys_distinct_def)
  moreover have "mset (queued_ids (put_tasks ts qs)) = mset (map t_id ts) + mset (queued_ids qs)" for ts qs
    by (induction ts arbitrary: qs) (simp_all add: put_tasks_def put_mset)
  then have "mset (queued_ids (put_tasks ?p [])) = mset (map t_id ?p)" by (simp add: queued_ids_def)
  moreover have "list_all (\<lambda>t. t_status t \<noteq> Running) ?rec"
    by (auto simp: list_all_iff recover_task_def)
  moreover have "sorted (map t_scheduled_at ?p)" by (simp add: pending_tasks_def)
  ultimately show ?thesis using run pid len by (intro exI [of _ ?q]) simp
qed

text \<open>C14: After a restart no unfinished task is lost and none is queued twice: every task that was
  pending or running waits in the queue of its requester exactly once, in the order of
  \<open>scheduled_at\<close>, and all of them are pending again. The number returned counts the recovered
  tasks twice.\<close>

theorem replay_recovers:
  assumes "scans_ok e" and "queues q = []"
  shows "\<exists>q'. replay_pending e q =
      (Inr (length (filter (\<lambda>t. t_status t = Running) (tasks (store q))) + length (filter unfinished (tasks (store q)))), q')
    \<and> mset (queued_ids (queues q')) = mset (map t_id (filter unfinished (tasks (store q))))
    \<and> list_all (\<lambda>t. t_status t \<noteq> Running) (tasks (store q'))
    \<and> (\<forall>k. queue_view (queues q') k =
         map t_id (filter (\<lambda>t. queue_key (t_requester_oid t) = k) (pending_tasks e (store q'))))
    \<and> sorted (map t_scheduled_at (pending_tasks e (store q')))"
  using replay_pending_run [OF assms] by blast

section \<open>Witnesses\<close>

definition waiting_task :: "nat \<Rightarrow> string \<Rightarrow> task_status \<Rightarrow> task" where
  "waiting_task i oid st = demo_task\<lparr>t_id := i, t_requester_oid := Some (asc oid), t_status := st\<rparr>"

definition demo_queues :: qstate where
  "demo_queues = \<lparr>store = demo_world\<lparr>tasks := [waiting_task 1 ''ou_ann'' Pending, waiting_task 2 ''ou_bob'' Pending]\<rparr>,
     queues = [(asc ''ou_ann'', [1]), (asc ''ou_bob'', [2])]\<rparr>"

lemma demo_queues_ok: "known_ids demo_queues" "keys_distinct (queues demo_queues)"
    "take_first (queues demo_queues) \<noteq> None"
  by (simp_all add: demo_queues_def known_ids_def queued_ids_def keys_distinct_def waiting_task_def)

theorem worker_serves_head_witness:
  "\<exists>k tid q'. worker_step demo_env demo_queues = (Inr True, q')
    \<and> queue_view (queues demo_queues) k = tid # queue_view (queues q') k
    \<and> (\<forall>k'. k' \<noteq> k \<longrightarrow> queue_view (queues q') k' = queue_view (queues demo_queues) k')
    \<and> finished (store q') tid
    \<and> filter (\<lambda>t. t_id t \<noteq> tid) (tasks (store q')) = filter (\<lambda>t. t_id t \<noteq> tid) (tasks (store demo_queues))"
  by (rule worker_serves_head [OF demo_queues_ok(3,1,2)])

theorem worker_drains_witness:
  "queued_ids (queues (worker_turns demo_env 2 demo_queues)) = []
   \<and> finished (store (worker_turns demo_env 2 demo_queues)) 1
   \<and> finished (store (worker_turns demo_env 2 demo_queues)) 2"
proof -
  have ids: "queued_ids (queues demo_queues) = [1, 2]" by (simp add: demo_queues_def queued_ids_def)
  show ?thesis
    using worker_drains [OF demo_queues_ok(1), of demo_env] unfolding ids by (simp del: worker_turns.simps add: numeral_2_eq_2)
qed

theorem first_requester_starves_others_witness:
  "\<exists>ts'. queues (busy_rounds demo_env (asc ''ou_ann'') demo_message 100 demo_queues)
     = (asc ''ou_ann'', ts') # [(asc ''ou_bob'', [2])]"
  by (rule first_requester_starves_others [where ts = "[1]"]) (simp_all add: demo_queues_def)

definition crashed_queues :: qstate where
  "crashed_queues = \<lparr>store = demo_world\<lparr>tasks := [waiting_task 1 ''ou_ann'' Running, waiting_task 2 ''ou_bob'' Pending]\<rparr>,
     queues = []\<rparr>"

theorem replay_recovers_witness:
  "\<exists>q'. replay_pending demo_env crashed_queues = (Inr 3, q') \<and> mset (queued_ids (queues q')) = {#1, 2#}"
proof -
  have "filter (\<lambda>t. t_status t = Running) (tasks (store crashed_queues)) = [waiting_task 1 ''ou_ann'' Running]"
    "filter unfinished (tasks (store crashed_queues)) = tasks (store crashed_queues)"
    "map t_id (tasks (store crashed_queues)) = [1, 2]" "length (tasks (store crashed_queues)) = 2"
    "queues crashed_queues = []"
    by (simp_all add: crashed_queues_def unfinished_def waiting_task_def)
  with replay_recovers [OF demo_scans_ok this(5)] show ?thesis by auto
qed

end
