(* ===== verification/Webhook.thy ===== *)
theory Webhook imports TaskQueue begin

text \<open>
  The inbound side: routers/lark\_webhook.py and lark/webhook.py. A request is its header lookup
  and its raw body; the handler checks the signature, decrypts the envelope, drops events it has
  seen, records the event and queues the message for its sender. The hash, the cipher, base64,
  UTF-8 decoding and the parser of the request body are the standard library's and
  \<open>cryptography\<close>'s, and come in the record \<open>crypto\<close>. \<open>body_json\<close> is \<open>json.loads\<close> on bytes: \<open>ValueError\<close> stands for
  its \<open>JSONDecodeError\<close>, and any other exception (the body is no UTF-8 text) is raised as it is.
\<close>

unbundle bit_operations_syntax

section \<open>Signatures and decryption (lark/webhook.py)\<close>

record crypto =
  sha256_hex :: "int list \<Rightarrow> ustr"
  sha256_digest :: "int list \<Rightarrow> int list"
  b64_decode :: "ustr \<Rightarrow> exn + int list"
  aes_cbc :: "int list \<Rightarrow> int list \<Rightarrow> int list \<Rightarrow> exn + int list"
  utf8_decode :: "int list \<Rightarrow> exn + ustr"
  body_json :: "int list \<Rightarrow> exn + json"

type_synonym headers = "ustr \<Rightarrow> ustr option"

text \<open>The loop of \<open>_consttime_eq\<close> collects the differing bits of all positions.\<close>

fun diff_bits :: "int \<Rightarrow> ustr \<Rightarrow> ustr \<Rightarrow> int" where
  "diff_bits acc (x # a) (y # b) = diff_bits (acc OR (x XOR y)) a b"
| "diff_bits acc _ _ = acc"

definition consttime_eq :: "ustr \<Rightarrow> ustr \<Rightarrow> bool" where
  "consttime_eq a b = (if length a \<noteq> length b then False else diff_bits 0 a b = 0)"

text \<open>\<open>headers.get(name) or headers.get(lower-case name)\<close>; absent and empty are both false.\<close>

definition header_or :: "headers \<Rightarrow> string \<Rightarrow> string \<Rightarrow> ustr" where
  "header_or h name low =
     (case h (asc name) of
        Some v \<Rightarrow> if v \<noteq> [] then v else (case h (asc low) of None \<Rightarrow> [] | Some v' \<Rightarrow> v')
      | None \<Rightarrow> (case h (asc low) of None \<Rightarrow> [] | Some v' \<Rightarrow> v'))"

definition verify_v2_signature :: "crypto \<Rightarrow> headers \<Rightarrow> int list \<Rightarrow> ustr \<Rightarrow> bool" where
  "verify_v2_signature cr h raw key =
     (let timestamp = header_or h ''X-Lark-Request-Timestamp'' ''x-lark-request-timestamp'';
          nonce = header_or h ''X-Lark-Request-Nonce'' ''x-lark-request-nonce'';
          sig = header_or h ''X-Lark-Signature'' ''x-lark-signature'' in
      if timestamp = [] \<or> nonce = [] \<or> sig = [] \<or> key = [] then False
      else consttime_eq (sha256_hex cr (utf8 timestamp @ utf8 nonce @ utf8 key @ raw)) sig)"

text \<open>\<open>plain[:-pad]\<close>; a pad of 0 is \<open>plain[:0]\<close>.\<close>

definition unpad :: "int list \<Rightarrow> exn + int list" where
  "unpad plain =
     (if plain = [] then Inl IndexError
      else if last plain = 0 then Inr []
      else Inr (take (length plain - nat (last plain)) plain))"

definition decrypt_aes :: "env \<Rightarrow> crypto \<Rightarrow> ustr \<Rightarrow> ustr \<Rightarrow> exn + json" where
  "decrypt_aes e cr encrypted key =
     (case b64_decode cr encrypted of Inl x \<Rightarrow> Inl x
      | Inr bytes \<Rightarrow>
     (case aes_cbc cr (sha256_digest cr (utf8 key)) (take 16 bytes) (drop 16 bytes) of Inl x \<Rightarrow> Inl x
      | Inr plain \<Rightarrow>
     (case unpad plain of Inl x \<Rightarrow> Inl x
      | Inr p \<Rightarrow>
     (case utf8_decode cr p of Inl x \<Rightarrow> Inl x
      | Inr text \<Rightarrow>
     (case json_loads e text of None \<Rightarrow> Inl ValueError | Some j \<Rightarrow> Inr j)))))"

section \<open>Rich text\<close>

text \<open>\<open>_extract_post_text\<close>\<close>

definition post_element :: "env \<Rightarrow> json \<Rightarrow> exn + ustr list" where
  "post_element e j =
     (case j of
        JObj el \<Rightarrow>
          (let tag = obj_get_or el ''tag'' (JStr []) in
           if tag \<in> set (map (\<lambda>t. JStr (asc t)) [''text'', ''a'', ''code_inline'', ''emotion'']) then
             map_sum id (\<lambda>s. [s]) (need_str (obj_get_or el ''text'' (JStr [])))
           else if tag = JStr (asc ''at'') then
             Inr [asc ''@'' @ fmt e (if truthy (obj_get el ''user_name'') then obj_get el ''user_name''
                                    else obj_get_or el ''user_id'' (JStr []))]
           else if tag = JStr (asc ''img'') then Inr [asc ''['' @ [22270, 29255] @ asc '']'']
           else if tag = JStr (asc ''media'') then Inr [asc ''['' @ [23186, 20307] @ asc '']'']
           else Inr [])
      | _ \<Rightarrow> Inr [])"

fun post_line :: "env \<Rightarrow> json list \<Rightarrow> exn + ustr list" where
  "post_line e [] = Inr []"
| "post_line e (j # js) =
     (case post_element e j of Inl x \<Rightarrow> Inl x
      | Inr s \<Rightarrow> (case post_line e js of Inl x \<Rightarrow> Inl x | Inr ss \<Rightarrow> Inr (s @ ss)))"

fun post_lines :: "env \<Rightarrow> json list \<Rightarrow> exn + ustr list" where
  "post_lines e [] = Inr []"
| "post_lines e (JArr p # js) =
     (case post_line e p of Inl x \<Rightarrow> Inl x
      | Inr l \<Rightarrow> (case post_lines e js of Inl x \<Rightarrow> Inl x
                  | Inr ls \<Rightarrow> Inr (if l = [] then ls else concat l # ls)))"
| "post_lines e (_ # js) = post_lines e js"

definition join_nonempty :: "ustr list \<Rightarrow> ustr" where
  "join_nonempty parts = join [10] (filter (\<lambda>p. p \<noteq> []) parts)"

definition extract_post_text :: "env \<Rightarrow> obj \<Rightarrow> exn + ustr" where
  "extract_post_text e parsed =
     (let title = obj_get_or parsed ''title'' (JStr []) in
      case (if truthy title then map_sum id (\<lambda>s. [s]) (need_str title) else Inr []) of
        Inl x \<Rightarrow> Inl x
      | Inr head_line \<Rightarrow>
          (case (if truthy (obj_get parsed ''content'') then obj_get parsed ''content'' else JArr []) of
             JArr paragraphs \<Rightarrow>
               (case post_lines e paragraphs of Inl x \<Rightarrow> Inl x
                | Inr ls \<Rightarrow> Inr (join_nonempty (head_line @ ls)))
           | _ \<Rightarrow> Inr (join [10] head_line)))"

section \<open>The handler\<close>

datatype http_reply = HttpError nat | Challenge json | Status string

text \<open>\<open>d.get(k) or {}\<close>, used as a dict.\<close>

definition sub_obj :: "obj \<Rightarrow> string \<Rightarrow> exn + obj" where
  "sub_obj d k = (if truthy (obj_get d k) then as_obj (obj_get d k) else Inr [])"

text \<open>The text and the file key of a message content.\<close>

definition content_of :: "env \<Rightarrow> ustr \<Rightarrow> ustr \<Rightarrow> exn + ustr \<times> ustr" where
  "content_of e msg_type raw =
     (case json_loads e raw of
        None \<Rightarrow> Inr (raw, [])
      | Some j \<Rightarrow>
          if msg_type = asc ''text'' then
            (case as_obj j of Inl x \<Rightarrow> Inl x
             | Inr d \<Rightarrow> map_sum id (\<lambda>t. (t, [])) (str_or_outside (obj_get_or d ''text'' (JStr []))))
          else if msg_type = asc ''post'' then
            (case as_obj j of Inl x \<Rightarrow> Inl x
             | Inr d \<Rightarrow> map_sum id (\<lambda>t. (t, [])) (extract_post_text e d))
          else if msg_type \<in> set (map asc [''file'', ''image'', ''audio'']) then
            (case as_obj j of Inl x \<Rightarrow> Inl x
             | Inr d \<Rightarrow> map_sum id (\<lambda>k. ([], k))
                 (str_or_outside (obj_get_or d ''image_key'' (obj_get_or d ''file_key'' (JStr [])))))
          else Inr ([], []))"

text \<open>Steps 1 and 2: signature, then the envelope. The \<open>in\<close> test and the index on a body that is
  not an object raise.\<close>

definition encrypted_body :: "json \<Rightarrow> exn + json option" where
  "encrypted_body j =
     (case j of
        JObj d \<Rightarrow> Inr (map_of d (asc ''encrypt''))
      | JArr js \<Rightarrow> if JStr (asc ''encrypt'') \<in> set js then Inr (Some JNull) else Inr None
      | JStr s \<Rightarrow> if contains (asc ''encrypt'') s then Inr (Some JNull) else Inr None
      | _ \<Rightarrow> Inl TypeError)"

definition open_envelope :: "env \<Rightarrow> crypto \<Rightarrow> ustr \<Rightarrow> json \<Rightarrow> exn + (nat + json)" where
  "open_envelope e cr key j =
     (case encrypted_body j of
        Inl x \<Rightarrow> Inl x
      | Inr None \<Rightarrow> Inr (Inr j)
      | Inr (Some c) \<Rightarrow>
          if key = [] then Inr (Inl 401)
          else (case (case j of JObj d \<Rightarrow> c | _ \<Rightarrow> JNull) of
                  JStr t \<Rightarrow> map_sum id Inr (decrypt_aes e cr t key)
                | _ \<Rightarrow> Inl TypeError))"

text \<open>What follows the recording of the event.\<close>

definition queue_event ::
  "env \<Rightarrow> obj \<Rightarrow> ustr \<Rightarrow> ustr \<Rightarrow> ustr \<Rightarrow> ustr \<Rightarrow> ustr \<Rightarrow> ustr \<Rightarrow> ustr \<Rightarrow> http_reply qact" where
  "queue_event e msg event_id sender_oid event_type msg_type content_raw content_text file_key =
     (if event_type \<noteq> asc ''im.message.receive_v1'' then
        andthen (on_store (mark_event_handled event_id)) (ret (Status ''ignored''))
      else
        bnd (lift_sum (str_or_outside (obj_get_or msg ''chat_type'' (JStr (asc ''p2p''))))) (\<lambda>chat_type.
        bnd (lift_sum (str_or_outside (obj_get_or msg ''chat_id'' (JStr [])))) (\<lambda>chat_id.
        bnd (lift_sum (str_or_outside (obj_get_or msg ''create_time'' (JStr [])))) (\<lambda>create_time.
        bnd (lift_sum (str_or_outside (obj_get_or msg ''message_id'' (JStr [])))) (\<lambda>message_id.
        andthen (enqueue e (asc ''incoming_message'')
          (MessagePayload \<lparr>m_event_id = event_id, m_sender_open_id = sender_oid,
             m_chat_type = chat_type, m_msg_type = msg_type, m_content_raw = content_raw,
             m_content_text = content_text, m_chat_id = chat_id, m_create_time = create_time,
             m_message_id = message_id, m_file_key = file_key\<rparr>) (Some sender_oid))
        (andthen (on_store (mark_event_handled event_id)) (ret (Status ''ok''))))))))"

text \<open>What follows the duplicate check.\<close>

definition accept_event ::
  "env \<Rightarrow> int list \<Rightarrow> obj \<Rightarrow> obj \<Rightarrow> ustr \<Rightarrow> http_reply qact" where
  "accept_event e raw obj0 header event_id =
     bnd (lift_sum (str_or_outside (obj_get_or header ''event_type'' (JStr [])))) (\<lambda>event_type.
     bnd (lift_sum (sub_obj obj0 ''event'')) (\<lambda>event.
     bnd (lift_sum (sub_obj event ''message'')) (\<lambda>msg.
     bnd (lift_sum (sub_obj event ''sender'')) (\<lambda>sender.
     bnd (lift_sum (as_obj (obj_get_or sender ''sender_id'' (JObj [])))) (\<lambda>sender_id.
     bnd (lift_sum (str_or_outside (obj_get_or sender_id ''open_id'' (JStr [])))) (\<lambda>sender_oid.
     bnd (lift_sum (str_or_outside (obj_get_or msg ''message_type'' (JStr [])))) (\<lambda>msg_type.
     bnd (lift_sum (str_or_outside (obj_get_or msg ''content'' (JStr [])))) (\<lambda>content_raw.
     bnd (lift_sum (content_of e msg_type content_raw)) (\<lambda>(content_text, file_key).
     andthen (on_store (record_event e event_id sender_oid event_type msg_type (length raw)
                (text_hash e content_raw) (take 30 content_text)))
     (queue_event e msg event_id sender_oid event_type msg_type content_raw content_text file_key))))))))))"

text \<open>Steps 3 and following, on the decrypted object.\<close>

definition handle_event :: "env \<Rightarrow> ustr \<Rightarrow> int list \<Rightarrow> obj \<Rightarrow> http_reply qact" where
  "handle_event e token raw obj0 =
     (if obj_get obj0 ''type'' = JStr (asc ''url_verification'') then
        ret (Challenge (obj_get_or obj0 ''challenge'' (JStr [])))
      else if truthy (obj_get obj0 ''token'') \<and> token \<noteq> [] \<and> obj_get obj0 ''token'' \<noteq> JStr token then
        ret (HttpError 401)
      else
        bnd (lift_sum (sub_obj obj0 ''header'')) (\<lambda>header.
        let eid = obj_get_or header ''event_id'' (JStr []) in
        if \<not> truthy eid then ret (Status ''no_event_id'')
        else
          bnd (lift_sum (str_or_outside eid)) (\<lambda>event_id.
          bnd (on_store (event_seen event_id)) (\<lambda>seen.
          if seen then ret (Status ''dup'') else accept_event e raw obj0 header event_id))))"

definition lark_webhook ::
  "env \<Rightarrow> crypto \<Rightarrow> ustr \<Rightarrow> ustr \<Rightarrow> headers \<Rightarrow> int list \<Rightarrow> http_reply qact" where
  "lark_webhook e cr key token h raw =
     (case (if raw = [] then Inr (JObj []) else body_json cr raw) of
        Inl x \<Rightarrow> if x = ValueError then ret (HttpError 400) else raise_exn x
      | Inr j \<Rightarrow>
          if key \<noteq> [] \<and> h (asc ''X-Lark-Signature'') \<noteq> None \<and> h (asc ''X-Lark-Signature'') \<noteq> Some []
             \<and> \<not> verify_v2_signature cr h raw key then ret (HttpError 401)
          else
            bnd (lift_sum (open_envelope e cr key j)) (\<lambda>r.
            case r of
              Inl code \<Rightarrow> ret (HttpError code)
            | Inr body \<Rightarrow> bnd (lift_sum (as_obj body)) (handle_event e token raw)))"

section \<open>Properties\<close>

lemma xor_zero: "(x XOR y = 0) = (x = y)" for x y :: int
  by (metis xor.assoc xor.left_neutral xor_self_eq)

lemma diff_bits_zero: "length a = length b \<Longrightarrow> diff_bits acc a b = 0 \<longleftrightarrow> acc = 0 \<and> a = b"
  by (induction acc a b rule: diff_bits.induct) (auto simp: or_eq_0_iff xor_zero)

text \<open>The constant-time comparison is equality, although it never stops at the first difference.\<close>

theorem consttime_eq_iff: "consttime_eq a b = (a = b)"
  by (auto simp: consttime_eq_def diff_bits_zero)

text \<open>C29: With an encryption key configured, a request that carries a signature is only processed if
  the signature is the digest of time stamp, nonce, key and the raw body, byte for byte; an
  accepted event therefore cannot have been altered.\<close>

theorem signature_authenticates_body:
  assumes "lark_webhook e cr key token h raw q = (Inr (Status st), q')"
    and "key \<noteq> []" and "h (asc ''X-Lark-Signature'') = Some sig" and "sig \<noteq> []"
  shows "sha256_hex cr (utf8 (header_or h ''X-Lark-Request-Timestamp'' ''x-lark-request-timestamp'')
     @ utf8 (header_or h ''X-Lark-Request-Nonce'' ''x-lark-request-nonce'') @ utf8 key @ raw) = sig"
proof -
  have "verify_v2_signature cr h raw key"
  proof (rule ccontr)
    assume "\<not> verify_v2_signature cr h raw key"
    with assms show False
      by (auto simp: lark_webhook_def run_ret run_raise split: sum.splits if_splits)
  qed
  then show ?thesis
    using assms(3,4) by (auto simp: verify_v2_signature_def Let_def consttime_eq_iff header_or_def split: if_splits)
qed

section \<open>Duplicate deliveries\<close>

lemma record_event_seen:
  "event_id \<in> set (event_ids (snd (record_event e event_id sd ty mt n hs sm w)))"
  by (auto simp: record_event_def run_now_iso modify_def event_ids_def w_events_def)

text \<open>Recorded events are never forgotten.\<close>

definition keeps_seen :: "ustr \<Rightarrow> qstate \<Rightarrow> qstate \<Rightarrow> bool" where
  "keeps_seen i q q' \<longleftrightarrow> (i \<in> set (event_ids (store q)) \<longrightarrow> i \<in> set (event_ids (store q')))"

interpretation keep_seen: state_relation "keeps_seen i" for i
  by unfold_locales (auto simp: keeps_seen_def)

lemma keeps_enqueue: "steps (keeps_seen i) (enqueue e kind p oid)"
  unfolding enqueue_def insert_task_def
  by (auto simp: keeps_seen_def steps_def on_store_def bnd_def now_iso_def ask_def gets_def modify_def
      ret_def w_tasks_def event_ids_def split: prod.splits)

lemma keeps_handled: "steps (keeps_seen i) (on_store (mark_event_handled j))"
  by (auto simp: keeps_seen_def steps_def on_store_def mark_event_handled_def modify_def w_events_def
      event_ids_def comp_def if_distrib cong: if_cong)

lemma keeps_queue_event: "steps (keeps_seen i) (queue_event e msg j a b c d t k)"
  unfolding queue_event_def
  by (intro keep_seen.steps_bnd keep_seen.steps_ret keep_seen.steps_if keep_seen.steps_lift
      keeps_enqueue keeps_handled)

lemma bnd_lift_Inr: "bnd (lift_sum r) f q = (Inr b, q') \<longleftrightarrow> (\<exists>a. r = Inr a \<and> f a q = (Inr b, q'))"
  by (cases r) (auto simp: lift_sum_def bnd_def)

lemma bnd_event_seen: "bnd (on_store (event_seen i)) f q = f (i \<in> set (event_ids (store q))) q"
  by (simp add: bnd_def on_store_def event_seen_def gets_def)

lemma accept_event_seen:
  assumes "accept_event e raw d header event_id q = (Inr r, q')"
  shows "event_id \<in> set (event_ids (store q'))"
proof -
  from assms obtain sd ty mt cr ct fk msg n hs sm v
    where v: "on_store (record_event e event_id sd ty mt n hs sm) q = (Inr (), v)"
    and rest: "queue_event e msg event_id sd ty mt cr ct fk v = (Inr r, q')"
    unfolding accept_event_def bnd_lift_Inr
    by (auto elim!: bnd_InrE)
  have "event_id \<in> set (event_ids (store v))"
    using v record_event_seen [of event_id e sd ty mt n hs sm "store q"]
    by (auto simp: on_store_def split: prod.splits)
  with stepsE [OF keeps_queue_event rest] show ?thesis by (simp add: keeps_seen_def)
qed

text \<open>A run of the handler that ends in \<open>ok\<close> or \<open>ignored\<close> went through all the checks.\<close>

lemma handle_event_accepted:
  assumes "handle_event e token raw d q = (Inr (Status st), q')" and "st \<noteq> ''dup''" "st \<noteq> ''no_event_id''"
  obtains header eid where "obj_get d ''type'' \<noteq> JStr (asc ''url_verification'')"
    and "\<not> (truthy (obj_get d ''token'') \<and> token \<noteq> [] \<and> obj_get d ''token'' \<noteq> JStr token)"
    and "sub_obj d ''header'' = Inr header" and "truthy (obj_get_or header ''event_id'' (JStr []))"
    and "str_or_outside (obj_get_or header ''event_id'' (JStr [])) = Inr eid"
    and "accept_event e raw d header eid q = (Inr (Status st), q')"
  using assms unfolding handle_event_def Let_def
  by (auto simp: run_ret bnd_lift_Inr bnd_event_seen simp del: asc_Cons split: if_splits)

lemma lark_webhook_accepted:
  assumes "lark_webhook e cr key token h raw q = (Inr (Status st), q')"
  obtains d where "\<And>v. lark_webhook e cr key token h raw v = handle_event e token raw d v"
    and "handle_event e token raw d q = (Inr (Status st), q')"
proof -
  let ?j = "if raw = [] then Inr (JObj []) else body_json cr raw"
  let ?bad = "key \<noteq> [] \<and> h (asc ''X-Lark-Signature'') \<noteq> None \<and> h (asc ''X-Lark-Signature'') \<noteq> Some []
             \<and> \<not> verify_v2_signature cr h raw key"
  obtain j where j: "?j = Inr j"
    using assms by (cases ?j) (auto simp: lark_webhook_def run_ret run_raise split: if_splits)
  have sig: "\<not> ?bad"
  proof
    assume "?bad"
    with assms show False unfolding lark_webhook_def j sum.case if_P [OF \<open>?bad\<close>] by (simp add: run_ret)
  qed
  have run: "lark_webhook e cr key token h raw v = bnd (lift_sum (open_envelope e cr key j)) (\<lambda>r.
      case r of Inl code \<Rightarrow> ret (HttpError code)
      | Inr body \<Rightarrow> bnd (lift_sum (as_obj body)) (handle_event e token raw)) v" for v
    unfolding lark_webhook_def j sum.case if_not_P [OF sig] ..
  obtain r where r: "open_envelope e cr key j = Inr r"
    using assms by (auto simp: run bnd_lift_Inr)
  obtain body where body: "r = Inr body"
    using assms by (cases r) (auto simp: run bnd_lift_Inr r run_ret)
  obtain d where d: "as_obj body = Inr d"
    using assms by (auto simp: run bnd_lift_Inr r body)
  have run: "lark_webhook e cr key token h raw v = handle_event e token raw d v" for v
    by (simp add: run r body d lift_sum_def bnd_def)
  show ?thesis by (rule that [of d]) (use assms run in auto)
qed

text \<open>C30: An event is processed once: when a request has been accepted or ignored, delivering the same
  request again answers \<open>dup\<close> and changes nothing, so no task is queued twice.\<close>

theorem redelivery_is_dropped:
  assumes "lark_webhook e cr key token h raw q = (Inr (Status st), q')"
    and "st = ''ok'' \<or> st = ''ignored''"
  shows "lark_webhook e cr key token h raw q' = (Inr (Status ''dup''), q')"
proof -
  obtain d where d: "\<And>v. lark_webhook e cr key token h raw v = handle_event e token raw d v"
    and run: "handle_event e token raw d q = (Inr (Status st), q')"
    using lark_webhook_accepted [OF assms(1)] by blast
  from assms(2) have st: "st \<noteq> ''dup''" "st \<noteq> ''no_event_id''" by auto
  from run st obtain header eid where
    hd: "obj_get d ''type'' \<noteq> JStr (asc ''url_verification'')"
      "\<not> (truthy (obj_get d ''token'') \<and> token \<noteq> [] \<and> obj_get d ''token'' \<noteq> JStr token)"
      "sub_obj d ''header'' = Inr header" "truthy (obj_get_or header ''event_id'' (JStr []))"
      "str_or_outside (obj_get_or header ''event_id'' (JStr [])) = Inr eid"
    and acc: "accept_event e raw d header eid q = (Inr (Status st), q')"
    by (rule handle_event_accepted)
  have "eid \<in> set (event_ids (store q'))" using acc by (rule accept_event_seen)
  then show ?thesis
    using hd by (simp add: d handle_event_def Let_def bnd_lift_Inr run_ret bnd_event_seen del: asc_Cons)
qed

text \<open>Although an encryption key is configured, a request without a signature header and without
  an encrypted body is treated exactly as if there were no key: nothing is verified.\<close>

theorem unsigned_request_unverified:
  assumes "h (asc ''X-Lark-Signature'') = None" and "raw \<noteq> []" and "body_json cr raw = Inr (JObj d)"
    and "map_of d (asc ''encrypt'') = None"
  shows "lark_webhook e cr key token h raw = lark_webhook e cr [] token h raw"
  using assms unfolding lark_webhook_def
  by (simp add: open_envelope_def encrypted_body_def del: asc_Cons)

section \<open>A concrete request\<close>

definition demo_crypto :: crypto where
  "demo_crypto = \<lparr>sha256_hex = (\<lambda>bs. bs), sha256_digest = (\<lambda>bs. take 16 bs), b64_decode = Inr,
     aes_cbc = (\<lambda>k iv bs. Inr bs), utf8_decode = Inr,
     body_json = (\<lambda>bs. Inr (JObj
       [(asc ''header'', JObj [(asc ''event_id'', JStr (asc ''ev1'')),
                               (asc ''event_type'', JStr (asc ''im.message.receive_v1''))]),
        (asc ''event'', JObj
          [(asc ''message'', JObj [(asc ''message_type'', JStr (asc ''text'')),
                                   (asc ''content'', JStr (asc ''hello''))]),
           (asc ''sender'', JObj [(asc ''sender_id'', JObj [(asc ''open_id'', JStr (asc ''ou_ann''))])])])]))\<rparr>"

definition signed_headers :: headers where
  "signed_headers = [asc ''X-Lark-Request-Timestamp'' \<mapsto> asc ''1'', asc ''X-Lark-Request-Nonce'' \<mapsto> asc ''2'',
     asc ''X-Lark-Signature'' \<mapsto> asc ''12kb'']"

definition no_queues :: qstate where
  "no_queues = \<lparr>store = demo_world, queues = []\<rparr>"

abbreviation demo_request :: "headers \<Rightarrow> qstate \<Rightarrow> (exn + http_reply) \<times> qstate" where
  "demo_request h \<equiv> lark_webhook demo_env demo_crypto (asc ''k'') [] h (asc ''b'')"

lemma demo_request_signed: "fst (demo_request signed_headers no_queues) = Inr (Status ''ok'')"
  by code_simp

theorem signature_authenticates_body_witness:
  "sha256_hex demo_crypto (utf8 (asc ''1'') @ utf8 (asc ''2'') @ utf8 (asc ''k'') @ asc ''b'') = asc ''12kb''"
proof -
  obtain q' where run: "demo_request signed_headers no_queues = (Inr (Status ''ok''), q')"
    using demo_request_signed by (metis prod.collapse)
  have h: "signed_headers (asc ''X-Lark-Signature'') = Some (asc ''12kb'')" by code_simp
  have "header_or signed_headers ''X-Lark-Request-Timestamp'' ''x-lark-request-timestamp'' = asc ''1''"
    "header_or signed_headers ''X-Lark-Request-Nonce'' ''x-lark-request-nonce'' = asc ''2''" by code_simp+
  then show ?thesis using signature_authenticates_body [OF run _ h] by simp
qed

theorem redelivery_is_dropped_witness:
  "\<exists>q'. demo_request signed_headers no_queues = (Inr (Status ''ok''), q')
     \<and> demo_request signed_headers q' = (Inr (Status ''dup''), q')"
proof -
  obtain q' where run: "demo_request signed_headers no_queues = (Inr (Status ''ok''), q')"
    using demo_request_signed by (metis prod.collapse)
  from redelivery_is_dropped [OF run] run show ?thesis by blast
qed

theorem unsigned_request_unverified_witness:
  "\<exists>q'. demo_request (\<lambda>_. None) no_queues = (Inr (Status ''ok''), q')
     \<and> queues q' = [(asc ''ou_ann'', [1])]"
proof -
  have "\<exists>d. body_json demo_crypto (asc ''b'') = Inr (JObj d) \<and> map_of d (asc ''encrypt'') = None"
    by (simp add: demo_crypto_def)
  then obtain d where d: "body_json demo_crypto (asc ''b'') = Inr (JObj d)" "map_of d (asc ''encrypt'') = None"
    by blast
  have eq: "demo_request (\<lambda>_. None) = lark_webhook demo_env demo_crypto [] [] (\<lambda>_. None) (asc ''b'')"
    by (rule unsigned_request_unverified [OF _ _ d]) simp_all
  have "fst (lark_webhook demo_env demo_crypto [] [] (\<lambda>_. None) (asc ''b'') no_queues) = Inr (Status ''ok'')"
    "queues (snd (lark_webhook demo_env demo_crypto [] [] (\<lambda>_. None) (asc ''b'') no_queues)) = [(asc ''ou_ann'', [1])]"
    by code_simp+
  then show ?thesis unfolding eq by (metis prod.collapse)
qed

end
