(* ===== verification/Mrkdwn.thy ===== *)
theory Mrkdwn imports Urls begin

text \<open>
  slack/mrkdwn.py: Markdown to Slack's dialect by a chain of substitutions. Each one replaces its
  matches by numbered placeholders and keeps their texts aside; at the end the placeholders are
  resolved, the last first. Word and digit characters are Python's \<open>\w\<close> and \<open>\d\<close>, a parameter.
\<close>

record charset =
  word_char :: "int \<Rightarrow> bool"
  digit_char :: "int \<Rightarrow> bool"

section \<open>Substitution with placeholders\<close>

text \<open>A pattern sees the character before the position and the rest of the text, and gives the length of
  its match, never 0, and the text to keep.\<close>

type_synonym matcher = "int option \<Rightarrow> ustr \<Rightarrow> (nat \<times> ustr) option"

definition placeholder :: "nat \<Rightarrow> ustr" where
  "placeholder n = [0] @ asc ''PH'' @ nat_digits n @ [0]"

text \<open>\<open>re.sub\<close>: the text with placeholders numbered from \<open>n\<close>, and the kept texts; \<open>skip\<close>
  characters belong to the last match.\<close>

fun sub_ph :: "matcher \<Rightarrow> nat \<Rightarrow> nat \<Rightarrow> int option \<Rightarrow> ustr \<Rightarrow> ustr \<times> ustr list" where
  "sub_ph m skip n prev [] = ([], [])"
| "sub_ph m skip n prev (c # s) =
     (if 0 < skip then sub_ph m (skip - 1) n (Some c) s
      else case m prev (c # s) of
        None \<Rightarrow> (case sub_ph m 0 n (Some c) s of (t, ps) \<Rightarrow> (c # t, ps))
      | Some (k, r) \<Rightarrow> (case sub_ph m (k - 1) (Suc n) (Some c) s of (t, ps) \<Rightarrow> (placeholder n @ t, r # ps)))"

definition sub_step :: "matcher \<Rightarrow> ustr \<times> ustr list \<Rightarrow> ustr \<times> ustr list" where
  "sub_step m st = (case sub_ph m 0 (length (snd st)) None (fst st) of (t, ps) \<Rightarrow> (t, snd st @ ps))"

text \<open>A pattern without anchors, with the text made from its groups.\<close>

definition rx_matcher :: "rx \<Rightarrow> ((string \<times> ustr) list \<Rightarrow> ustr) \<Rightarrow> matcher" where
  "rx_matcher r f = (\<lambda>prev s. case rx_match r s of [] \<Rightarrow> None | (k, g) # _ \<Rightarrow> Some (k, f g))"

text \<open>\<open>(?m)^\<close>: at the start of the text or behind a line feed.\<close>

definition at_line_start :: "matcher \<Rightarrow> matcher" where
  "at_line_start m = (\<lambda>prev s. if prev = None \<or> prev = Some 10 then m prev s else None)"

definition not_newline :: "int \<Rightarrow> bool" where
  "not_newline c \<longleftrightarrow> c \<noteq> 10"

section \<open>The patterns, in order\<close>

definition lazy_some :: "(int \<Rightarrow> bool) \<Rightarrow> rx" where
  "lazy_some P = Cat (Exactly 1 P) (Lazy P)"

definition fence :: ustr where
  "fence = [96, 96, 96]"

definition code_block_m :: "charset \<Rightarrow> matcher" where
  "code_block_m cs = rx_matcher
     (cats [Lit fence, Maybe (Cat (Maybe (Many (word_char cs))) (Lit [10])), Group ''t'' (lazy_some (\<lambda>c. True)), Lit fence])
     (\<lambda>g. fence @ rstrip (group ''t'' g) @ [10] @ fence)"

definition inline_code_m :: matcher where
  "inline_code_m = rx_matcher (cats [Lit [96], Group ''t'' (Many (\<lambda>c. c \<noteq> 96)), Lit [96]])
     (\<lambda>g. [96] @ group ''t'' g @ [96])"

definition link_m :: matcher where
  "link_m = rx_matcher (cats [Lit (asc ''[''), Group ''t'' (Many (\<lambda>c. c \<noteq> 93)), Lit (asc ''](''),
       Group ''u'' (Many (\<lambda>c. c \<noteq> 41)), Lit (asc '')'')])
     (\<lambda>g. asc ''<'' @ group ''u'' g @ asc ''|'' @ group ''t'' g @ asc ''>'')"

definition bare_url_m :: matcher where
  "bare_url_m = rx_matcher (Group ''t'' (Cat rx_http (Many (\<lambda>c. \<not> is_space c)))) (group ''t'')"

definition quote_m :: matcher where
  "quote_m = at_line_start (rx_matcher (Lit (asc ''> '')) (\<lambda>g. asc ''> ''))"

text \<open>\<open>(.+)$\<close> takes the rest of the line.\<close>

definition heading_m :: matcher where
  "heading_m = at_line_start (rx_matcher
     (cats [Or (Exactly 6 (\<lambda>c. c = 35)) (Or (Exactly 5 (\<lambda>c. c = 35)) (Or (Exactly 4 (\<lambda>c. c = 35))
        (Or (Exactly 3 (\<lambda>c. c = 35)) (Or (Exactly 2 (\<lambda>c. c = 35)) (Exactly 1 (\<lambda>c. c = 35)))))),
        Lit [32], Group ''t'' (Many not_newline)])
     (\<lambda>g. asc ''*'' @ group ''t'' g @ asc ''*''))"

definition rule_m :: matcher where
  "rule_m = at_line_start (\<lambda>prev s.
     let n = length (takeWhile (\<lambda>c. c = 45 \<or> c = 42) s) in
     if 3 \<le> n \<and> (drop n s = [] \<or> hd (drop n s) = 10) then Some (n, replicate 32 9472) else None)"

definition bullet_m :: matcher where
  "bullet_m = at_line_start (rx_matcher
     (cats [Exactly 1 (\<lambda>c. c = 45 \<or> c = 42), Lit [32], Group ''t'' (Many not_newline)])
     (\<lambda>g. [8226, 32] @ group ''t'' g))"

definition ordered_m :: "charset \<Rightarrow> matcher" where
  "ordered_m cs = at_line_start (rx_matcher
     (cats [Group ''n'' (Many (digit_char cs)), Lit (asc ''. ''), Group ''t'' (Many not_newline)])
     (\<lambda>g. group ''n'' g @ asc ''. '' @ group ''t'' g))"

definition bold_m :: matcher where
  "bold_m = rx_matcher (cats [Lit (asc ''**''), Group ''t'' (lazy_some not_newline), Lit (asc ''**'')])
     (\<lambda>g. asc ''*'' @ group ''t'' g @ asc ''*'')"

definition italic_m :: matcher where
  "italic_m = (\<lambda>prev s.
     if prev = Some 42 then None
     else case rx_match (cats [Lit (asc ''*''), Group ''t'' (Many (\<lambda>c. c \<noteq> 42 \<and> c \<noteq> 10)), Lit (asc ''*'')]) s of
       [] \<Rightarrow> None
     | (k, g) # _ \<Rightarrow>
         if startswith (drop k s) (asc ''*'') then None else Some (k, asc ''_'' @ group ''t'' g @ asc ''_''))"

definition strike_m :: matcher where
  "strike_m = rx_matcher (cats [Lit (asc ''~~''), Group ''t'' (lazy_some not_newline), Lit (asc ''~~'')])
     (\<lambda>g. asc ''~'' @ group ''t'' g @ asc ''~'')"

definition all_matchers :: "charset \<Rightarrow> matcher list" where
  "all_matchers cs = [code_block_m cs, inline_code_m, link_m, bare_url_m, quote_m, heading_m, rule_m,
     bullet_m, ordered_m cs, bold_m, italic_m, strike_m]"

text \<open>\<open>str.replace\<close> of a pattern that is not empty.\<close>

fun replace_all :: "nat \<Rightarrow> ustr \<Rightarrow> ustr \<Rightarrow> ustr \<Rightarrow> ustr" where
  "replace_all skip p r [] = []"
| "replace_all skip p r (c # s) =
     (if 0 < skip then replace_all (skip - 1) p r s
      else if startswith (c # s) p then r @ replace_all (length p - 1) p r s
      else c # replace_all 0 p r s)"

definition str_replace :: "ustr \<Rightarrow> ustr \<Rightarrow> ustr \<Rightarrow> ustr" where
  "str_replace p r s = replace_all 0 p r s"

definition restore :: "ustr list \<Rightarrow> ustr \<Rightarrow> ustr" where
  "restore ps t = foldl (\<lambda>t (i, p). str_replace (placeholder i) p t) t (rev (enumerate 0 ps))"

definition markdown_to_slack :: "charset \<Rightarrow> ustr \<Rightarrow> ustr" where
  "markdown_to_slack cs t =
     (if t = [] then t
      else case foldl (\<lambda>st m. sub_step m st) (t, []) (all_matchers cs) of (u, ps) \<Rightarrow> restore ps u)"

section \<open>Limits and escapes\<close>

definition MAX_MESSAGE_LENGTH :: nat where
  "MAX_MESSAGE_LENGTH = 39000"

definition truncate_suffix :: ustr where
  "truncate_suffix = [10, 8230] @ asc ''(truncated for Slack length limit)''"

text \<open>\<open>text[: max_len - len(suffix)]\<close> counts from the end when the number is negative.\<close>

definition truncate_for_slack :: "ustr \<Rightarrow> nat \<Rightarrow> ustr" where
  "truncate_for_slack t n =
     (if length t \<le> n then t
      else (if length truncate_suffix \<le> n then take (n - length truncate_suffix) t
            else take (length t - (length truncate_suffix - n)) t) @ truncate_suffix)"

definition escape_slack_special :: "ustr \<Rightarrow> ustr" where
  "escape_slack_special t =
     str_replace (asc ''>'') (asc ''&gt;'') (str_replace (asc ''<'') (asc ''&lt;'') (str_replace (asc ''&'') (asc ''&amp;'') t))"

section \<open>Plain text\<close>

text \<open>A character that can start a match of some pattern, the address of a link aside.\<close>

definition markup_char :: "charset \<Rightarrow> int \<Rightarrow> bool" where
  "markup_char cs c \<longleftrightarrow> c \<in> {96, 91, 62, 35, 45, 42, 126} \<or> digit_char cs c"

lemma no_link: "\<not> startswith s (asc ''http'') \<Longrightarrow> bare_url_m prev s = None"
  by (simp add: bare_url_m_def rx_matcher_def rx_http_def del: asc_Cons)

lemma no_match:
  assumes "\<not> markup_char cs c" and "\<not> startswith (c # s) (asc ''http'')"
  shows "list_all (\<lambda>m. m prev (c # s) = None) (all_matchers cs)"
proof -
  have "list_all (\<lambda>m. m prev (c # s) = None) [code_block_m cs, inline_code_m, link_m, quote_m, heading_m, rule_m,
     bullet_m, ordered_m cs, bold_m, italic_m, strike_m]"
    using assms(1)
    by (simp add: markup_char_def code_block_m_def inline_code_m_def link_m_def quote_m_def
      heading_m_def rule_m_def bullet_m_def ordered_m_def bold_m_def italic_m_def strike_m_def rx_matcher_def
      at_line_start_def fence_def startswith_def)
  with no_link [OF assms(2)] show ?thesis by (simp add: all_matchers_def)
qed

lemma sub_ph_id:
  assumes "\<And>prev c u. suffix (c # u) s \<Longrightarrow> m prev (c # u) = None"
  shows "sub_ph m 0 n prev s = (s, [])"
  using assms
proof (induction s arbitrary: prev)
  case (Cons c s)
  have "sub_ph m 0 n (Some c) s = (s, [])" by (intro Cons.IH Cons.prems suffix_ConsI)
  with Cons.prems [of c s] show ?case by simp
qed simp

text \<open>A text without markup characters, digits and links reaches Slack unchanged.\<close>

lemma plain_text_unchanged:
  assumes "list_all (\<lambda>c. \<not> markup_char cs c) t" and "\<not> contains (asc ''http'') t"
  shows "markdown_to_slack cs t = t"
proof -
  have none: "m prev (c # u) = None" if m: "m \<in> set (all_matchers cs)" and suf: "suffix (c # u) t" for m prev c u
  proof -
    obtain a where t: "t = a @ c # u" using suf by (auto simp: suffix_def)
    have "\<not> startswith (c # u) (asc ''http'')"
      using assms(2) t unfolding contains_iff startswith_prefix prefix_def by (metis append.assoc)
    moreover have "\<not> markup_char cs c" using assms(1) t by simp
    ultimately show ?thesis using no_match m by (fastforce simp: list_all_iff)
  qed
  have "sub_step m (t, []) = (t, [])" if "m \<in> set (all_matchers cs)" for m
    using none [OF that] by (simp add: sub_step_def sub_ph_id)
  then have "foldl (\<lambda>st m. sub_step m st) (t, []) ms = (t, [])" if "set ms \<subseteq> set (all_matchers cs)" for ms
    using that by (induction ms) auto
  then show ?thesis by (simp add: markdown_to_slack_def restore_def)
qed

text \<open>A message cut for Slack fits the limit.\<close>

lemma truncate_fits:
  assumes "length truncate_suffix \<le> n"
  shows "length (truncate_for_slack t n) \<le> n"
  using assms by (auto simp: truncate_for_slack_def)

text \<open>Emphasis inside a list item is not converted: the item was put aside before.\<close>

lemma bold_in_list_item:
  "markdown_to_slack \<lparr>word_char = (\<lambda>c. False), digit_char = (\<lambda>c. False)\<rparr> (asc ''- **now**'') = [8226] @ asc '' **now**''"
  by code_simp

end
