(* ===== verification/Slack.thy ===== *)
theory Slack imports Webhook Mrkdwn begin

text \<open>
  slack/types.py and the message path of slack/adapter.py: the redelivery cache, the gates a message
  event passes, the context built from it, and what is queued and posted. Slack's web client, the
  clocks and \<open>json.dumps\<close> are outside; connecting and reconnecting the socket is not modelled.
\<close>

record slack_env =
  se_charset :: charset
  se_monotonic :: "nat \<Rightarrow> int"
  se_unix_ms :: "nat \<Rightarrow> int"
  se_dumps :: "json \<Rightarrow> ustr"
  se_open :: "nat \<Rightarrow> ustr \<Rightarrow> exn + ustr"
  se_post :: "nat \<Rightarrow> ustr \<Rightarrow> ustr option \<Rightarrow> ustr \<Rightarrow> exn + ustr"
  se_auth :: "nat \<Rightarrow> exn + ustr"
  se_loads :: "ustr \<Rightarrow> exn + json"
  se_order :: "ustr list \<Rightarrow> ustr list"

section \<open>The redelivery cache\<close>

text \<open>A dict from key to expiry, in insertion order.\<close>

type_synonym dedup = "(ustr \<times> int) list"

definition dedup_put :: "ustr \<Rightarrow> int \<Rightarrow> dedup \<Rightarrow> dedup" where
  "dedup_put k v c =
     (if k \<in> set (map fst c) then map (\<lambda>(k', v'). (k', if k' = k then v else v')) c else c @ [(k, v)])"

definition evict :: "nat \<Rightarrow> dedup \<Rightarrow> dedup" where
  "evict n c = (let old = map fst (take n (sort_key snd c)) in filter (\<lambda>kv. fst kv \<notin> set old) c)"

definition seen_at :: "nat \<Rightarrow> int \<Rightarrow> ustr \<Rightarrow> int \<Rightarrow> dedup \<Rightarrow> bool \<times> dedup" where
  "seen_at max_size ttl key now c =
     (if (case map_of c key of None \<Rightarrow> False | Some t \<Rightarrow> t > now) then (True, c)
      else
        (let c' = dedup_put key (now + ttl) c in
         (False, if length c' > max_size then evict (max_size div 10) c' else c')))"

section \<open>Event context (types.py)\<close>

record slack_context =
  cx_user_id :: ustr
  cx_channel_id :: ustr
  cx_team_id :: json
  cx_thread_ts :: json
  cx_msg_ts :: json
  cx_text :: ustr
  cx_is_dm :: bool
  cx_is_mentioned :: bool
  cx_msg_type :: string
  cx_file_url :: ustr
  cx_file_name :: json
  cx_file_mimetype :: ustr
  cx_event_id :: ustr

definition not_gt :: "int \<Rightarrow> bool" where
  "not_gt c \<longleftrightarrow> c \<noteq> 62"

definition not_bar_gt :: "int \<Rightarrow> bool" where
  "not_bar_gt c \<longleftrightarrow> c \<noteq> 124 \<and> c \<noteq> 62"

definition clean_slack_text :: "charset \<Rightarrow> ustr \<Rightarrow> ustr" where
  "clean_slack_text cs t0 =
     (let t1 = rx_sub 0 (cats [Lit (asc ''<#C''), Many (word_char cs), Lit (asc ''|''), Group ''g'' (Many not_gt), Lit (asc ''>'')])
                 (\<lambda>g. asc ''#'' @ group ''g'' g) t0;
          t2 = rx_sub 0 (cats [Lit (asc ''<@''), Group ''g'' (Many (word_char cs)), Lit (asc ''>'')])
                 (\<lambda>g. asc ''@'' @ group ''g'' g) t1;
          t3 = str_replace (asc ''<!channel>'') (asc ''@channel'') t2;
          t4 = str_replace (asc ''<!everyone>'') (asc ''@everyone'') t3;
          t5 = str_replace (asc ''<!here>'') (asc ''@here'') t4;
          t6 = rx_sub 0 (cats [Lit (asc ''<mailto:''), Group ''g'' (Many not_bar_gt), Lit (asc ''|''), Many not_gt, Lit (asc ''>'')])
                 (group ''g'') t5;
          t7 = rx_sub 0 (cats [Lit (asc ''<mailto:''), Group ''g'' (Many not_gt), Lit (asc ''>'')]) (group ''g'') t6;
          t8 = rx_sub 0 (cats [Lit (asc ''<''), Many not_bar_gt, Lit (asc ''|''), Group ''g'' (Many not_gt), Lit (asc ''>'')])
                 (group ''g'') t7
      in rx_sub 0 (cats [Lit (asc ''<''), Group ''g'' (Many not_gt), Lit (asc ''>'')]) (group ''g'') t8)"

definition mention_of :: "ustr \<Rightarrow> ustr" where
  "mention_of uid = asc ''<@'' @ uid @ asc ''>''"

text \<open>The channel type, from the event or from the first letter of the channel.\<close>

definition channel_kind :: "obj \<Rightarrow> exn + json" where
  "channel_kind event =
     (let t = obj_get_or event ''channel_type'' (JStr []) in
      if truthy t then Inr t
      else (case str_or_outside (obj_get_or event ''channel'' (JStr [])) of Inl x \<Rightarrow> Inl x
            | Inr ch \<Rightarrow> Inr (if startswith ch (asc ''D'') then JStr (asc ''im'')
                            else if startswith ch (asc ''C'') then JStr (asc ''channel'') else t)))"

text \<open>The first file of the event: message type, URL, name and MIME type.\<close>

definition file_info :: "obj \<Rightarrow> exn + (string \<times> ustr \<times> json \<times> ustr)" where
  "file_info event =
     (let files = obj_get_or event ''files'' (JArr []) in
      if \<not> truthy files then Inr (''text'', [], JStr [], [])
      else
        (case files of
           JArr (JObj f # _) \<Rightarrow>
             (case str_or_outside (obj_get_or f ''mimetype'' (JStr [])) of Inl x \<Rightarrow> Inl x | Inr mime \<Rightarrow>
             (case str_or_outside (obj_get_or f ''url_private_download'' (obj_get_or f ''url_private'' (JStr []))) of
                Inl x \<Rightarrow> Inl x | Inr url \<Rightarrow>
              Inr (if startswith mime (asc ''image/'') then ''image''
                   else if startswith mime (asc ''audio/'') then ''audio'' else ''file'',
                   url, obj_get_or f ''name'' (JStr []), mime)))
         | _ \<Rightarrow> Inl (OtherError (asc ''outside the model''))))"

definition extract_context :: "env \<Rightarrow> charset \<Rightarrow> obj \<Rightarrow> ustr \<Rightarrow> exn + slack_context" where
  "extract_context e cs event bid =
     (case str_or_outside (obj_get_or event ''user'' (JStr [])) of Inl x \<Rightarrow> Inl x | Inr user \<Rightarrow>
     (case str_or_outside (obj_get_or event ''channel'' (JStr [])) of Inl x \<Rightarrow> Inl x | Inr channel \<Rightarrow>
     (case str_or_outside (obj_get_or event ''text'' (JStr [])) of Inl x \<Rightarrow> Inl x | Inr text_raw \<Rightarrow>
     (case channel_kind event of Inl x \<Rightarrow> Inl x | Inr kind \<Rightarrow>
     (let is_dm = (kind = JStr (asc ''im''));
          msg_ts = obj_get_or event ''ts'' (JStr []);
          thread = obj_get_or event ''thread_ts'' (JStr []);
          mentioned = (bid \<noteq> [] \<and> contains (mention_of bid) text_raw);
          t = (if mentioned then strip (str_replace (mention_of bid) [] text_raw) else text_raw) in
      case file_info event of Inl x \<Rightarrow> Inl x | Inr (msg_type, url, name, mime) \<Rightarrow>
        Inr \<lparr>cx_user_id = user, cx_channel_id = channel,
             cx_team_id = obj_get_or event ''team'' (obj_get_or event ''team_id'' (JStr [])),
             cx_thread_ts = (if truthy thread then thread else if is_dm then JStr [] else msg_ts),
             cx_msg_ts = msg_ts, cx_text = clean_slack_text cs t, cx_is_dm = is_dm,
             cx_is_mentioned = mentioned, cx_msg_type = msg_type, cx_file_url = url,
             cx_file_name = name, cx_file_mimetype = mime,
             cx_event_id = channel @ asc '':'' @ fmt e msg_ts\<rparr>)))))"

text \<open>\<open>_build_context\<close> as the dict that is dumped, and \<open>slack_to_incoming\<close>.\<close>

definition context_json :: "slack_context \<Rightarrow> json" where
  "context_json c = JObj
     [(asc ''event_id'', JStr (cx_event_id c)), (asc ''user_id'', JStr (cx_user_id c)), (asc ''user_name'', JStr []),
      (asc ''channel_id'', JStr (cx_channel_id c)), (asc ''team_id'', cx_team_id c), (asc ''thread_ts'', cx_thread_ts c),
      (asc ''msg_ts'', cx_msg_ts c), (asc ''text'', JStr (cx_text c)), (asc ''is_dm'', JBool (cx_is_dm c)),
      (asc ''is_mentioned'', JBool (cx_is_mentioned c)), (asc ''msg_type'', JStr (asc (cx_msg_type c))),
      (asc ''file_url'', JStr (cx_file_url c)), (asc ''file_name'', cx_file_name c),
      (asc ''file_mimetype'', JStr (cx_file_mimetype c))]"

definition slack_to_incoming :: "slack_env \<Rightarrow> int \<Rightarrow> slack_context \<Rightarrow> incoming_message" where
  "slack_to_incoming se ms c =
     \<lparr>m_event_id = cx_event_id c, m_sender_open_id = cx_user_id c,
      m_chat_type = (if cx_is_dm c then asc ''p2p'' else asc ''group''), m_msg_type = asc (cx_msg_type c),
      m_content_raw = se_dumps se (context_json c), m_content_text = cx_text c, m_chat_id = cx_channel_id c,
      m_create_time = int_digits ms, m_message_id = cx_event_id c, m_file_key = cx_file_url c\<rparr>"

section \<open>The adapter\<close>

record slack_state =
  sq :: qstate
  sl_dedup :: dedup
  sl_tick :: nat
  sl_posted :: "(ustr \<times> ustr option \<times> ustr) list"
  sl_threads :: "(ustr \<times> ustr list) list"
  sl_bot_id :: ustr
  sl_file :: "ustr option"

type_synonym 'a sact = "(slack_state, 'a) prog"

definition on_queue :: "'a qact \<Rightarrow> 'a sact" where
  "on_queue m = (\<lambda>s. case m (sq s) of (r, q) \<Rightarrow> (r, s\<lparr>sq := q\<rparr>))"

definition s_look :: "(nat \<Rightarrow> 'a) \<Rightarrow> 'a sact" where
  "s_look f = (\<lambda>s. (Inr (f (sl_tick s)), s\<lparr>sl_tick := Suc (sl_tick s)\<rparr>))"

definition DEDUP_MAX :: nat where
  "DEDUP_MAX = 2000"

definition DEDUP_TTL :: int where
  "DEDUP_TTL = 300 * 1000"

definition dedup_seen :: "slack_env \<Rightarrow> ustr \<Rightarrow> bool sact" where
  "dedup_seen se key =
     bnd (s_look (se_monotonic se)) (\<lambda>now.
     bnd (gets (\<lambda>s. seen_at DEDUP_MAX DEDUP_TTL key now (sl_dedup s))) (\<lambda>(seen, c).
     andthen (modify (\<lambda>s. s\<lparr>sl_dedup := c\<rparr>)) (ret seen)))"

text \<open>Steps 4 and 5: the message is recorded and queued. \<open>event_seen\<close> is called, its answer is not used.\<close>

definition queue_slack_message :: "env \<Rightarrow> slack_env \<Rightarrow> obj \<Rightarrow> slack_context \<Rightarrow> unit sact" where
  "queue_slack_message e se event c =
     bnd (s_look (se_unix_ms se)) (\<lambda>ms.
     let m = slack_to_incoming se ms c in
     andthen
       (catch
         (on_queue (on_store
           (andthen (event_seen (cx_event_id c))
              (record_event e (cx_event_id c) (m_sender_open_id m) (asc ''slack_message'') (m_msg_type m)
                 (length (se_dumps se (JObj event))) [] (take 30 (m_content_text m))))))
         (\<lambda>x. ret ()))
       (andthen (on_queue (enqueue e (asc ''incoming_message'') (MessagePayload m) (Some (m_sender_open_id m)))) (ret ())))"

text \<open>Steps 2 to 5.\<close>

definition accept_slack_event :: "env \<Rightarrow> slack_env \<Rightarrow> ustr \<Rightarrow> obj \<Rightarrow> unit sact" where
  "accept_slack_event e se bid event =
     (if truthy (obj_get event ''bot_id'') \<or> obj_get event ''subtype'' = JStr (asc ''bot_message'') then ret ()
      else if obj_get event ''user'' = JStr bid then ret ()
      else
        bnd (lift_sum (channel_kind event)) (\<lambda>kind.
        bnd (if kind = JStr (asc ''im'') then ret True
             else bnd (lift_sum (str_or_outside (obj_get_or event ''text'' (JStr [])))) (\<lambda>t.
                  ret (contains (mention_of bid) t))) (\<lambda>addressed.
        if \<not> addressed then ret ()
        else bnd (lift_sum (extract_context e (se_charset se) event bid)) (queue_slack_message e se event))))"

definition handle_slack_message :: "env \<Rightarrow> slack_env \<Rightarrow> ustr \<Rightarrow> obj \<Rightarrow> unit sact" where
  "handle_slack_message e se bid event =
     bnd (dedup_seen se (fmt e (obj_get_or event ''channel'' (JStr [])) @ asc '':'' @ fmt e (obj_get_or event ''ts'' (JStr [])))) (\<lambda>dup.
     if dup then ret ()
     else
       (let eid = obj_get_or event ''event_id'' (JStr []) in
        bnd (if truthy eid then bnd (lift_sum (str_or_outside eid)) (dedup_seen se) else ret False) (\<lambda>dup2.
        if dup2 then ret () else accept_slack_event e se bid event)))"

text \<open>\<open>send_dm\<close>: the text of the post is cut to 100 characters.\<close>

definition post_message :: "slack_env \<Rightarrow> ustr \<Rightarrow> ustr option \<Rightarrow> ustr \<Rightarrow> ustr sact" where
  "post_message se channel thread t =
     (\<lambda>s. (se_post se (sl_tick s) channel thread t,
           s\<lparr>sl_tick := Suc (sl_tick s), sl_posted := sl_posted s @ [(channel, thread, t)]\<rparr>))"

definition slack_text :: "slack_env \<Rightarrow> ustr \<Rightarrow> ustr" where
  "slack_text se t = truncate_for_slack (markdown_to_slack (se_charset se) t) MAX_MESSAGE_LENGTH"

definition api_slack_send_dm :: "slack_env \<Rightarrow> ustr \<Rightarrow> ustr \<Rightarrow> ustr sact" where
  "api_slack_send_dm se user_id t =
     bnd (s_look (\<lambda>n. se_open se n user_id)) (\<lambda>r.
     bnd (lift_sum r) (\<lambda>channel. post_message se channel None (take 100 (slack_text se t))))"

text \<open>A dict from channel to a set of threads.\<close>

definition threads_of :: "ustr \<Rightarrow> (ustr \<times> ustr list) list \<Rightarrow> ustr list" where
  "threads_of ch ths = (case map_of ths ch of None \<Rightarrow> [] | Some l \<Rightarrow> l)"

definition set_threads :: "ustr \<Rightarrow> ustr list \<Rightarrow> (ustr \<times> ustr list) list \<Rightarrow> (ustr \<times> ustr list) list" where
  "set_threads ch l ths =
     (if ch \<in> set (map fst ths) then map (\<lambda>(c, l'). (c, if c = ch then l else l')) ths else ths @ [(ch, l)])"

definition track_thread :: "ustr \<Rightarrow> ustr \<Rightarrow> slack_state \<Rightarrow> slack_state" where
  "track_thread ch ts s = s\<lparr>sl_threads := set_threads ch (List.insert ts (threads_of ch (sl_threads s))) (sl_threads s)\<rparr>"

definition send_reply_to_thread :: "slack_env \<Rightarrow> ustr \<Rightarrow> ustr \<Rightarrow> ustr \<Rightarrow> ustr sact" where
  "send_reply_to_thread se ch ts t =
     bnd (post_message se ch (Some ts) (slack_text se t)) (\<lambda>msg_ts.
     andthen (modify (track_thread ch ts)) (ret msg_ts))"

section \<open>Start, stop and the thread file\<close>

text \<open>\<open>start\<close>, up to the socket task: whether it is created. A failed lookup of the bot's id is logged only.\<close>

definition resolve_bot_user_id :: "slack_env \<Rightarrow> unit sact" where
  "resolve_bot_user_id se =
     bnd (s_look (se_auth se)) (\<lambda>r. case r of Inl x \<Rightarrow> ret () | Inr uid \<Rightarrow> modify (\<lambda>s. s\<lparr>sl_bot_id := uid\<rparr>))"

definition slack_start :: "slack_env \<Rightarrow> ustr \<Rightarrow> ustr \<Rightarrow> bool sact" where
  "slack_start se bot_token app_token =
     (if bot_token = [] \<or> app_token = [] then ret False
      else bnd (gets sl_bot_id) (\<lambda>bid.
        andthen (if bid = [] then resolve_bot_user_id se else ret ()) (ret True)))"

text \<open>\<open>list(threads)\<close> lists a set in an order of Python's choice.\<close>

definition threads_json :: "slack_env \<Rightarrow> (ustr \<times> ustr list) list \<Rightarrow> json" where
  "threads_json se ths = JObj (map (\<lambda>(ch, l). (ch, JArr (map JStr (se_order se l)))) ths)"

definition save_thread_participation :: "slack_env \<Rightarrow> unit sact" where
  "save_thread_participation se =
     modify (\<lambda>s. if sl_threads s = [] then s else s\<lparr>sl_file := Some (se_dumps se (threads_json se (sl_threads s)))\<rparr>)"

text \<open>Reading stops at the first value that is no list of strings (sets of other values do not come from the
  program), and keeps what came before.\<close>

fun load_threads :: "obj \<Rightarrow> (ustr \<times> ustr list) list \<Rightarrow> (ustr \<times> ustr list) list" where
  "load_threads [] ths = ths"
| "load_threads ((ch, v) # kvs) ths =
     (case v of
        JArr js \<Rightarrow>
          (if list_all (\<lambda>j. case j of JStr t \<Rightarrow> True | _ \<Rightarrow> False) js
           then load_threads kvs (set_threads ch (remdups (map (\<lambda>j. case j of JStr t \<Rightarrow> t | _ \<Rightarrow> []) js)) ths)
           else ths)
      | _ \<Rightarrow> ths)"

definition set_persistence_path :: "slack_env \<Rightarrow> unit sact" where
  "set_persistence_path se =
     modify (\<lambda>s. case sl_file s of
        None \<Rightarrow> s
      | Some t \<Rightarrow>
          (case se_loads se t of
             Inr (JObj kvs) \<Rightarrow> s\<lparr>sl_threads := load_threads kvs (sl_threads s)\<rparr>
           | _ \<Rightarrow> s))"

text \<open>The threads saved at shutdown are those known after the next start.\<close>

lemma threads_of_set: "threads_of c (set_threads ch l ths) = (if c = ch then l else threads_of c ths)"
proof -
  have upd: "map_of (map (\<lambda>(c, l'). (c, if c = ch then l else l')) ths) c
      = (if c = ch then map_option (\<lambda>_. l) (map_of ths c) else map_of ths c)"
    by (induction ths) auto
  show ?thesis
  proof (cases "map_of ths ch")
    case None
    then have "ch \<notin> set (map fst ths)" by (simp add: map_of_eq_None_iff)
    with None show ?thesis by (simp add: threads_of_def set_threads_def map_add_def split: option.split)
  next
    case (Some l')
    then have "ch \<in> set (map fst ths)" by (force dest: map_of_SomeD)
    with Some show ?thesis by (simp add: threads_of_def set_threads_def upd)
  qed
qed

lemma distinct_set_threads: "distinct (map fst ths) \<Longrightarrow> distinct (map fst (set_threads ch l ths))"
  by (auto simp: set_threads_def comp_def split_def)

lemma load_threads_strings:
  "load_threads ((ch, JArr (map JStr l)) # kvs) ths = load_threads kvs (set_threads ch (remdups l) ths)"
  by (simp add: list_all_iff comp_def)

lemma load_saved:
  assumes "\<And>l. set (se_order se l) = set l"
  shows "distinct (map fst ths) \<Longrightarrow>
    set (threads_of c (load_threads (map (\<lambda>(ch, l). (ch, JArr (map JStr (se_order se l)))) ths) acc))
      = (case map_of ths c of None \<Rightarrow> set (threads_of c acc) | Some l \<Rightarrow> set l)"
proof (induction ths arbitrary: acc)
  case (Cons x ths)
  obtain ch l where x: "x = (ch, l)" by (cases x)
  have "map_of ths ch = None" using Cons.prems x by (simp add: map_of_eq_None_iff)
  with Cons.IH [of "set_threads ch (remdups (se_order se l)) acc"] Cons.prems x show ?case
    by (simp add: load_threads_strings threads_of_set assms del: load_threads.simps split: option.splits)
qed simp

lemma threads_survive_restart:
  assumes "distinct (map fst (sl_threads s))" and "sl_threads s \<noteq> []" and "\<And>l. set (se_order se l) = set l"
    and "se_loads se (se_dumps se (threads_json se (sl_threads s))) = Inr (threads_json se (sl_threads s))"
    and "sl_file s' = sl_file (snd (save_thread_participation se s))" and "sl_threads s' = []"
  shows "set (threads_of c (sl_threads (snd (set_persistence_path se s')))) = set (threads_of c (sl_threads s))"
  using load_saved [of se "sl_threads s" c "[]", OF assms(3,1)] assms(2,4,5,6)
  by (auto simp: save_thread_participation_def set_persistence_path_def modify_def threads_json_def threads_of_def split: option.splits)

section \<open>The cache forgets the oldest\<close>

lemma keys_put: "map fst (dedup_put k v c) = (if k \<in> set (map fst c) then map fst c else map fst c @ [k])"
  by (auto simp: dedup_put_def)

lemma distinct_put: "distinct (map fst c) \<Longrightarrow> distinct (map fst (dedup_put k v c))"
  by (auto simp: keys_put)

lemma put_mem: "(k, v) \<in> set (dedup_put k v c)"
  by (force simp: dedup_put_def)

lemma length_evict:
  assumes "distinct (map fst c)"
  shows "length (evict n c) = length c - n"
proof -
  let ?old = "take n (sort_key snd c)"
  have set: "set ?old \<subseteq> set c" using set_take_subset [of n "sort_key snd c"] by simp
  have "filter (\<lambda>kv. fst kv \<notin> fst ` set ?old) c = filter (\<lambda>kv. kv \<notin> set ?old) c"
    using assms set by (intro filter_cong refl) (auto simp: distinct_map inj_on_def)
  then have "length (evict n c) = card (set c - set ?old)"
    using assms by (simp add: evict_def distinct_map flip: distinct_card) (simp add: set_diff_eq)
  also have "\<dots> = length c - length ?old"
    using assms set by (subst card_Diff_subset) (simp_all add: distinct_map distinct_card)
  finally show ?thesis by simp
qed

text \<open>The events the cache sees one after the other.\<close>

fun cache_run :: "nat \<Rightarrow> int \<Rightarrow> (ustr \<times> int) list \<Rightarrow> dedup \<Rightarrow> dedup" where
  "cache_run m ttl [] c = c"
| "cache_run m ttl ((k, t) # evs) c = cache_run m ttl evs (snd (seen_at m ttl k t c))"

text \<open>The entries that the eviction may keep in place of \<open>key\<close>: those that expire as late.\<close>

definition rivals :: "ustr \<Rightarrow> int \<Rightarrow> dedup \<Rightarrow> nat" where
  "rivals key ex c = length (filter (\<lambda>kv. fst kv \<noteq> key \<and> ex \<le> snd kv) c)"

lemma rivals_update:
  "distinct (map fst c) \<Longrightarrow> rivals key ex (map (\<lambda>(k', v'). (k', if k' = k then v else v')) c) \<le> Suc (rivals key ex c)"
proof (induction c)
  case (Cons x c)
  obtain k' v' where x: "x = (k', v')" by fastforce
  show ?case
  proof (cases "k' = k")
    case True
    then have "map (\<lambda>(k', v'). (k', if k' = k then v else v')) c = c"
      using Cons.prems x by (intro map_idI) (force split: prod.splits)
    then show ?thesis unfolding x True by (simp add: rivals_def)
  next
    case False
    then show ?thesis using Cons by (simp add: x rivals_def)
  qed
qed simp

lemma rivals_put: "distinct (map fst c) \<Longrightarrow> rivals key ex (dedup_put k v c) \<le> Suc (rivals key ex c)"
  using rivals_update [of c key ex k v] by (simp add: dedup_put_def) (simp add: rivals_def)

lemma rivals_filter: "rivals key ex (filter P c) \<le> rivals key ex c"
  unfolding rivals_def by (induction c) auto

lemma rivals_perm: "mset c = mset c' \<Longrightarrow> rivals key ex c = rivals key ex c'"
  unfolding rivals_def size_mset [symmetric] mset_filter by simp

lemma evicted_rivals:
  assumes "distinct (map fst c)" and "(key, ex) \<in> set (take d (sort_key snd c))"
  shows "length c - d \<le> rivals key ex c"
proof -
  let ?s = "sort_key snd c"
  have "mset (map fst ?s) = mset (map fst c)" by simp
  then have dist: "distinct (map fst ?s)" using assms(1) mset_eq_imp_distinct_iff by blast
  have "sorted (map snd (take d ?s @ drop d ?s))" by simp
  then have late: "\<And>y. y \<in> set (drop d ?s) \<Longrightarrow> ex \<le> snd y"
    using assms(2) unfolding map_append sorted_append by force
  have other: "\<And>y. y \<in> set (drop d ?s) \<Longrightarrow> fst y \<noteq> key"
  proof
    fix y assume y: "y \<in> set (drop d ?s)" "fst y = key"
    have "distinct (map fst (take d ?s @ drop d ?s))" using dist by simp
    then have "fst ` set (take d ?s) \<inter> fst ` set (drop d ?s) = {}" unfolding map_append distinct_append by simp
    with y assms(2) show False by force
  qed
  have "length c - d = length (filter (\<lambda>kv. fst kv \<noteq> key \<and> ex \<le> snd kv) (drop d ?s))"
    using late other by simp
  also have "\<dots> \<le> length (filter (\<lambda>kv. fst kv \<noteq> key \<and> ex \<le> snd kv) (take d ?s @ drop d ?s))"
    unfolding filter_append by simp
  also have "\<dots> = rivals key ex c" unfolding append_take_drop_id using rivals_perm [of ?s c] by (simp add: rivals_def)
  finally show ?thesis .
qed

definition holds :: "nat \<Rightarrow> ustr \<Rightarrow> int \<Rightarrow> nat \<Rightarrow> dedup \<Rightarrow> bool" where
  "holds m key ex n c \<longleftrightarrow> distinct (map fst c) \<and> length c \<le> m \<and> (key, ex) \<in> set c \<and> rivals key ex c \<le> n"

lemma holds_recognised: "holds m key ex n c \<Longrightarrow> t < ex \<Longrightarrow> seen_at m' ttl key t c = (True, c)"
  by (auto simp: holds_def seen_at_def map_of_is_SomeI)

lemma put_other: "k \<noteq> key \<Longrightarrow> (key, ex) \<in> set c \<Longrightarrow> (key, ex) \<in> set (dedup_put k v c)"
  by (force simp: dedup_put_def)

lemma evict_keeps:
  assumes "distinct (map fst c)" and "(key, ex) \<in> set c" and "rivals key ex c < length c - d"
  shows "(key, ex) \<in> set (evict d c)"
proof -
  have "(key, ex) \<notin> set (take d (sort_key snd c))" using evicted_rivals [OF assms(1), of key ex d] assms(3) by force
  moreover have "y = (key, ex)" if "y \<in> set (take d (sort_key snd c))" "fst y = key" for y
    using that assms(1,2) set_take_subset [of d "sort_key snd c"] by (auto simp: distinct_map inj_on_def)
  ultimately show ?thesis using assms(2) by (force simp: evict_def Let_def)
qed

lemma holds_seen:
  assumes "holds m key ex n c" and "k = key \<longrightarrow> t < ex" and "n + m div 10 < m" and "10 \<le> m"
  shows "holds m key ex (Suc n) (snd (seen_at m ttl k t c))"
proof (cases "k = key \<or> (case map_of c k of None \<Rightarrow> False | Some ex' \<Rightarrow> t < ex')")
  case True
  then have "snd (seen_at m ttl k t c) = c"
    using assms(2) holds_recognised [OF assms(1), of t m ttl] by (cases "k = key") (simp_all add: seen_at_def)
  with assms(1) show ?thesis by (simp add: holds_def)
next
  case False
  let ?c = "dedup_put k (t + ttl) c"
  have run: "snd (seen_at m ttl k t c) = (if length ?c > m then evict (m div 10) ?c else ?c)"
    using False by (simp add: seen_at_def Let_def)
  have c: "distinct (map fst c)" "length c \<le> m" "(key, ex) \<in> set c" "rivals key ex c \<le> n"
    using assms(1) by (simp_all add: holds_def)
  have k: "k \<noteq> key" using False by blast
  note d = distinct_put [OF c(1), of k "t + ttl"]
  have r: "rivals key ex ?c \<le> Suc n" using rivals_put [OF c(1), of key ex k "t + ttl"] c(4) by linarith
  have mem: "(key, ex) \<in> set ?c" using k c(3) by (rule put_other)
  show ?thesis
  proof (cases "length ?c > m")
    case over: True
    have "length ?c = m + 1" using over c(2) by (auto simp: dedup_put_def split: if_splits)
    then have "(key, ex) \<in> set (evict (m div 10) ?c)" using r assms(3) by (intro evict_keeps [OF d mem]) simp
    moreover have "distinct (map fst (evict (m div 10) ?c))" "rivals key ex (evict (m div 10) ?c) \<le> Suc n"
      using d order_trans [OF rivals_filter r] by (simp_all add: evict_def Let_def distinct_map_filter)
    moreover have "length (evict (m div 10) ?c) \<le> m"
      using length_evict [OF d, of "m div 10"] \<open>length ?c = m + 1\<close> assms(4) by linarith
    ultimately show ?thesis using run over by (simp add: holds_def)
  next
    case False
    then show ?thesis using run d mem r by (simp add: holds_def)
  qed
qed

lemma holds_run:
  "holds m key ex n c \<Longrightarrow> list_all (\<lambda>(k, t). k = key \<longrightarrow> t < ex) evs \<Longrightarrow> n + length evs + m div 10 \<le> m \<Longrightarrow> 10 \<le> m \<Longrightarrow>
   holds m key ex (n + length evs) (cache_run m ttl evs c)"
proof (induction evs arbitrary: n c)
  case (Cons ev evs)
  obtain k t where ev: "ev = (k, t)" by fastforce
  have "holds m key ex (Suc n) (snd (seen_at m ttl k t c))"
    using Cons.prems by (intro holds_seen) (simp_all add: ev)
  from Cons.IH [OF this] Cons.prems show ?case by (simp add: ev)
qed simp

lemma holds_first:
  assumes "distinct (map fst c)" "length c \<le> m" "10 \<le> m" and "list_all (\<lambda>kv. snd kv < now + ttl) c"
    and "seen_at m ttl key now c = (False, c')"
  shows "holds m key (now + ttl) 0 c'"
proof -
  let ?c = "dedup_put key (now + ttl) c"
  have c': "c' = (if length ?c > m then evict (m div 10) ?c else ?c)"
    using assms(5) by (auto simp: seen_at_def Let_def split: if_splits option.splits)
  have d: "distinct (map fst ?c)" using assms(1) by (rule distinct_put)
  have r: "rivals key (now + ttl) ?c = 0"
    using assms(4) by (auto simp: rivals_def dedup_put_def filter_empty_conv list_all_iff split: if_splits)
  have len: "length ?c \<le> m + 1" using assms(2) by (simp add: dedup_put_def)
  have "(key, now + ttl) \<in> set (evict (m div 10) ?c)" if "length ?c > m"
    using that assms(3) r by (intro evict_keeps [OF d put_mem]) linarith
  moreover have "length (evict (m div 10) ?c) \<le> m" using length_evict [OF d, of "m div 10"] len assms(3) by linarith
  moreover have "rivals key (now + ttl) (evict (m div 10) ?c) = 0"
    using rivals_filter [of key "now + ttl" _ ?c] r by (simp add: evict_def Let_def)
  ultimately show ?thesis
    using c' d r put_mem [of key "now + ttl" c] by (auto simp: holds_def evict_def Let_def distinct_map_filter)
qed

text \<open>C35: The redelivery cache stays within its size, and an event that was let through is recognised for
  the whole time to live, whatever other events come in the meantime, up to nine tenths of the
  size of the cache.\<close>

theorem redelivery_recognised:
  assumes "distinct (map fst c)" and "length c \<le> m" and "10 \<le> m" and "list_all (\<lambda>kv. snd kv < now + ttl) c"
    and "seen_at m ttl key now c = (False, c')" and "list_all (\<lambda>(k, t). t < now + ttl) evs"
    and "length evs + m div 10 \<le> m" and "t < now + ttl"
  shows "length (cache_run m ttl evs c') \<le> m \<and> fst (seen_at m ttl key t (cache_run m ttl evs c'))"
proof -
  have "list_all (\<lambda>(k, t). k = key \<longrightarrow> t < now + ttl) evs" using assms(6) by (auto simp: list_all_iff)
  then have "holds m key (now + ttl) (0 + length evs) (cache_run m ttl evs c')"
    using assms(3,7) by (intro holds_run holds_first [OF assms(1-5)]) simp_all
  moreover from this have "seen_at m ttl key t (cache_run m ttl evs c') = (True, cache_run m ttl evs c')"
    using assms(8) by (rule holds_recognised)
  ultimately show ?thesis by (simp add: holds_def)
qed

section \<open>Properties of the message path\<close>

lemma on_queue_tasks:
  "tasks (store (sq (snd (on_queue (enqueue e k p oid) s)))) =
   tasks (store (sq s)) @ [\<lparr>t_id = next_task_id (store (sq s)), t_kind = k, t_payload = p, t_requester_oid = oid,
      t_status = Pending, t_attempts = 0, t_last_error = None, t_scheduled_at = clock e (tick (store (sq s))),
      t_picked_at = None, t_finished_at = None\<rparr>]"
  by (simp add: on_queue_def enqueue_def insert_task_def on_store_def bnd_def now_iso_def ask_def gets_def modify_def ret_def w_tasks_def
      next_task_id_def split: prod.splits)

lemma recording_keeps_tasks:
  "tasks (store (sq (snd (catch (on_queue (on_store (andthen (event_seen i) (record_event e i sd ty mt n hs sm)))) (\<lambda>x. ret ()) s))))
     = tasks (store (sq s))"
  by (simp add: on_queue_def on_store_def event_seen_def record_event_def run_simps bnd_def now_iso_def ask_def gets_def modify_def
      catch_def w_events_def split: prod.splits)

lemma s_look_run: "bnd (s_look f) k s = k (f (sl_tick s)) (s\<lparr>sl_tick := Suc (sl_tick s)\<rparr>)"
  by (simp add: bnd_def s_look_def)

text \<open>An event that is already in the events table is queued all the same: the answer of the duplicate
  check is thrown away, so only the cache in memory protects from a redelivery.\<close>

theorem recorded_event_queued_again:
  assumes "cx_event_id c \<in> set (event_ids (store (sq s)))"
  shows "\<exists>t. tasks (store (sq (snd (queue_slack_message e se event c s)))) = tasks (store (sq s)) @ [t]
     \<and> t_kind t = asc ''incoming_message'' \<and> t_status t = Pending
     \<and> (\<exists>ms. t_payload t = MessagePayload (slack_to_incoming se ms c))"
proof -
  let ?s = "s\<lparr>sl_tick := Suc (sl_tick s)\<rparr>"
  let ?m = "slack_to_incoming se (se_unix_ms se (sl_tick s)) c"
  let ?rec = "catch (on_queue (on_store (andthen (event_seen (cx_event_id c))
      (record_event e (cx_event_id c) (m_sender_open_id ?m) (asc ''slack_message'') (m_msg_type ?m)
         (length (se_dumps se (JObj event))) [] (take 30 (m_content_text ?m)))))) (\<lambda>x. ret ())"
  obtain s1 where rec: "?rec ?s = (Inr (), s1)"
    by (auto simp: on_queue_def on_store_def event_seen_def record_event_def bnd_def now_iso_def ask_def gets_def modify_def
      catch_def ret_def split: prod.splits)
  have "tasks (store (sq s1)) = tasks (store (sq s))"
    using recording_keeps_tasks [of "cx_event_id c" e "m_sender_open_id ?m" "asc ''slack_message''" "m_msg_type ?m"
        "length (se_dumps se (JObj event))" "[]" "take 30 (m_content_text ?m)" ?s] rec by simp
  moreover have "queue_slack_message e se event c s =
      andthen (on_queue (enqueue e (asc ''incoming_message'') (MessagePayload ?m) (Some (m_sender_open_id ?m)))) (ret ()) s1"
    unfolding queue_slack_message_def Let_def
    unfolding s_look_run by (simp only: bnd_Inr [where m = ?rec, OF rec])
  moreover have "snd (andthen m (ret ()) v) = snd (m v)" for m :: "nat sact" and v
    by (simp add: bnd_def ret_def split: prod.splits sum.splits)
  ultimately show ?thesis by (auto simp: on_queue_tasks)
qed

definition queue_kept :: "slack_state \<Rightarrow> slack_state \<Rightarrow> bool" where
  "queue_kept s s' \<longleftrightarrow> sq s' = sq s"

interpretation queue_kept: state_relation queue_kept
  by unfold_locales (auto simp: queue_kept_def)

lemma kept_dedup: "steps queue_kept (dedup_seen se k)"
  by (auto simp: steps_def queue_kept_def dedup_seen_def bnd_def s_look_def gets_def modify_def ret_def split: prod.splits)

text \<open>While the bot's own user id is unknown, no channel message gets through: the gate looks for a
  mention with an empty id. The log line announces the opposite.\<close>

theorem unresolved_bot_ignores_channels:
  assumes "obj_get_or event ''channel_type'' (JStr []) = JStr (asc ''channel'')"
    and "obj_get_or event ''text'' (JStr []) = JStr t" and "\<not> contains (asc ''<@>'') t"
  shows "sq (snd (handle_slack_message e se [] event s)) = sq s"
proof -
  have acc: "steps queue_kept (accept_slack_event e se [] event)"
    using assms
    by (simp add: steps_def queue_kept_def accept_slack_event_def ret_def channel_kind_def bnd_def lift_sum_def str_or_outside_def mention_of_def)
  have "steps queue_kept (handle_slack_message e se [] event)"
    unfolding handle_slack_message_def Let_def
    by (intro queue_kept.steps_bnd queue_kept.steps_if queue_kept.steps_ret queue_kept.steps_lift kept_dedup acc)
  then show ?thesis by (simp add: steps_def queue_kept_def)
qed

text \<open>A Slack message is posted with only the first hundred characters of its text.\<close>

theorem slack_dm_cut:
  assumes "api_slack_send_dm se user t s = (Inr ts, s')" and "100 < length (slack_text se t)"
  shows "\<exists>ch x. sl_posted s' = sl_posted s @ [(ch, None, x)] \<and> length x = 100 \<and> prefix x (slack_text se t)"
proof -
  from assms(1) obtain ch where "sl_posted s' = sl_posted s @ [(ch, None, take 100 (slack_text se t))]"
    by (auto simp: api_slack_send_dm_def bnd_def s_look_def lift_sum_def post_message_def split: sum.splits)
  with assms(2) show ?thesis by (auto intro: take_is_prefix)
qed

section \<open>A concrete workspace\<close>

definition demo_slack_env :: slack_env where
  "demo_slack_env = \<lparr>se_charset = \<lparr>word_char = (\<lambda>c. 48 \<le> c), digit_char = (\<lambda>c. 48 \<le> c \<and> c \<le> 57)\<rparr>,
     se_monotonic = (\<lambda>n. 1000 * int n), se_unix_ms = (\<lambda>n. 1000 * int n), se_dumps = (\<lambda>j. asc ''json''),
     se_open = (\<lambda>n u. Inr (asc ''D1'')), se_post = (\<lambda>n ch th t. Inr (asc ''1.2'')),
     se_auth = (\<lambda>n. Inl (OtherError [])), se_loads = (\<lambda>t. Inl ValueError), se_order = (\<lambda>l. l)\<rparr>"

definition demo_slack_state :: slack_state where
  "demo_slack_state = \<lparr>sq = no_queues, sl_dedup = [], sl_tick = 0, sl_posted = [], sl_threads = [], sl_bot_id = [], sl_file = None\<rparr>"

definition channel_event :: obj where
  "channel_event = [(asc ''channel'', JStr (asc ''C1'')), (asc ''ts'', JStr (asc ''1'')), (asc ''user'', JStr (asc ''U1'')),
     (asc ''channel_type'', JStr (asc ''channel'')), (asc ''text'', JStr (asc ''hello''))]"

definition demo_context :: slack_context where
  "demo_context = \<lparr>cx_user_id = asc ''U1'', cx_channel_id = asc ''C1'', cx_team_id = JStr [], cx_thread_ts = JStr [],
     cx_msg_ts = JStr (asc ''1''), cx_text = asc ''hello'', cx_is_dm = True, cx_is_mentioned = False, cx_msg_type = ''text'',
     cx_file_url = [], cx_file_name = JStr [], cx_file_mimetype = [], cx_event_id = asc ''C1:1''\<rparr>"

theorem redelivery_recognised_witness:
  "fst (seen_at 2000 300000 (asc ''C1:1'') 300999
     (cache_run 2000 300000 [(asc ''C1:2'', 2000), (asc ''C1:1'', 3000)] (snd (seen_at 2000 300000 (asc ''C1:1'') 1000 []))))"
proof -
  have first: "seen_at 2000 300000 (asc ''C1:1'') 1000 [] = (False, [(asc ''C1:1'', 301000)])"
    by (simp add: seen_at_def dedup_put_def)
  from redelivery_recognised [OF _ _ _ _ first, of "[(asc ''C1:2'', 2000), (asc ''C1:1'', 3000)]" 300999] first
  show ?thesis by simp
qed

theorem recorded_event_queued_again_witness:
  "\<exists>s t. cx_event_id demo_context \<in> set (event_ids (store (sq s)))
     \<and> tasks (store (sq (snd (queue_slack_message demo_env demo_slack_env [] demo_context s)))) = tasks (store (sq s)) @ [t]"
proof -
  let ?s = "demo_slack_state\<lparr>sq := no_queues\<lparr>store := snd (record_event demo_env (asc ''C1:1'') [] [] [] 0 [] [] demo_world)\<rparr>\<rparr>"
  have seen: "cx_event_id demo_context \<in> set (event_ids (store (sq ?s)))"
    by (simp add: demo_context_def record_event_seen)
  from recorded_event_queued_again [OF seen, of demo_env demo_slack_env "[]"] seen show ?thesis by blast
qed

theorem unresolved_bot_ignores_channels_witness:
  "sq (snd (handle_slack_message demo_env demo_slack_env [] channel_event demo_slack_state)) = no_queues"
proof -
  have "obj_get_or channel_event ''channel_type'' (JStr []) = JStr (asc ''channel'')"
    "obj_get_or channel_event ''text'' (JStr []) = JStr (asc ''hello'')" "\<not> contains (asc ''<@>'') (asc ''hello'')"
    by code_simp+
  from unresolved_bot_ignores_channels [OF this] show ?thesis by (simp add: demo_slack_state_def)
qed

lemma demo_text: "slack_text demo_slack_env (replicate 101 97) = replicate 101 97"
proof -
  have "\<not> contains (asc ''http'') (replicate 101 97)"
  proof
    assume "contains (asc ''http'') (replicate 101 97)"
    then obtain a b where "replicate 101 97 = a @ asc ''http'' @ b" unfolding contains_iff by blast
    then have "104 \<in> set (replicate 101 (97 :: int))" by simp
    then show False by simp
  qed
  then have "markdown_to_slack (se_charset demo_slack_env) (replicate 101 97) = replicate 101 97"
    by (intro plain_text_unchanged) (simp_all add: list_all_iff markup_char_def demo_slack_env_def)
  then show ?thesis by (simp add: slack_text_def truncate_for_slack_def MAX_MESSAGE_LENGTH_def)
qed

theorem slack_dm_cut_witness:
  "\<exists>ts s' ch x. api_slack_send_dm demo_slack_env (asc ''U1'') (replicate 101 97) demo_slack_state = (Inr ts, s')
     \<and> sl_posted s' = [(ch, None, x)] \<and> length x = 100"
proof -
  have res: "fst (api_slack_send_dm demo_slack_env (asc ''U1'') (replicate 101 97) demo_slack_state) = Inr (asc ''1.2'')"
    "100 < length (slack_text demo_slack_env (replicate 101 97))"
    unfolding demo_text
    by (simp_all add: api_slack_send_dm_def s_look_def post_message_def demo_slack_env_def bnd_def lift_sum_def)
  then have run: "api_slack_send_dm demo_slack_env (asc ''U1'') (replicate 101 97) demo_slack_state
      = (Inr (asc ''1.2''), snd (api_slack_send_dm demo_slack_env (asc ''U1'') (replicate 101 97) demo_slack_state))"
    by (metis prod.collapse)
  from slack_dm_cut [OF run res(2)] run show ?thesis by (fastforce simp: demo_slack_state_def)
qed

end
