(* ===== verification/Socket.thy ===== *)
theory Socket imports Slack begin

text \<open>
  The life of the Slack connection in slack/adapter.py: which handler an event of the socket reaches,
  the loop that reconnects, and the shutdown. The socket itself is Slack's library: a connection is
  the events it delivers and the way it ends. An exception of a handler is logged by the library and
  does not end the connection.
\<close>

section \<open>Events\<close>

datatype socket_event = Message_event obj | Mention_event obj | Block_action obj

text \<open>\<open>_register_handlers\<close>: a button press is acknowledged and nothing else.\<close>

definition on_socket_event :: "env \<Rightarrow> slack_env \<Rightarrow> socket_event \<Rightarrow> unit sact" where
  "on_socket_event e se ev =
     (case ev of
        Message_event m \<Rightarrow> bnd (gets sl_bot_id) (\<lambda>bid. handle_slack_message e se bid m)
      | Mention_event m \<Rightarrow> bnd (gets sl_bot_id) (\<lambda>bid. handle_slack_message e se bid m)
      | Block_action body \<Rightarrow> ret ())"

definition deliver_event :: "env \<Rightarrow> slack_env \<Rightarrow> socket_event \<Rightarrow> unit sact" where
  "deliver_event e se ev = catch (on_socket_event e se ev) (\<lambda>x. ret ())"

section \<open>Connections\<close>

datatype connection_end = Cancelled | Broken | Returned

text \<open>\<open>_run_socket_mode\<close> over the connections it opens: the number of pauses of five seconds, and whether the
  loop has ended. It opens the next connection when one breaks or returns, and ends when it is cancelled.\<close>

fun run_socket_mode :: "env \<Rightarrow> slack_env \<Rightarrow> (socket_event list \<times> connection_end) list \<Rightarrow> (nat \<times> bool) sact" where
  "run_socket_mode e se [] = ret (0, False)"
| "run_socket_mode e se ((evs, how) # conns) =
     andthen (for_each evs (deliver_event e se))
       (case how of
          Cancelled \<Rightarrow> ret (0, True)
        | Broken \<Rightarrow> bnd (run_socket_mode e se conns) (\<lambda>(n, ended). ret (Suc n, ended))
        | Returned \<Rightarrow> run_socket_mode e se conns)"

text \<open>\<open>stop\<close>: the task of the socket is cancelled and awaited, then the threads are saved.\<close>

definition slack_stop :: "slack_env \<Rightarrow> unit sact" where
  "slack_stop se = save_thread_participation se"

section \<open>Properties\<close>

text \<open>A break does not lose the adapter: the loop only ends when it is cancelled, whatever happened before.\<close>

theorem socket_ends_when_cancelled:
  "\<exists>n. fst (run_socket_mode e se conns s) = Inr (n, Cancelled \<in> snd ` set conns)
     \<and> n \<le> length (filter (\<lambda>c. snd c = Broken) conns)"
proof (induction conns arbitrary: s)
  case Nil
  then show ?case by (simp add: run_ret)
next
  case (Cons c conns)
  obtain evs how where c: "c = (evs, how)" by fastforce
  have one: "fst (deliver_event e se ev v) = Inr ()" for ev v
    by (auto simp: deliver_event_def catch_def ret_def split: prod.splits sum.splits)
  have "fst (for_each evs (deliver_event e se) v) = Inr ()" for v
  proof (induction evs arbitrary: v)
    case (Cons ev evs)
    obtain v' where "deliver_event e se ev v = (Inr (), v')" using one [of ev v] by (metis prod.collapse)
    with Cons.IH show ?case by (simp add: bnd_Inr)
  qed (simp add: run_ret)
  then obtain v where v: "for_each evs (deliver_event e se) s = (Inr (), v)" by (metis prod.collapse)
  obtain n where n: "fst (run_socket_mode e se conns v) = Inr (n, Cancelled \<in> snd ` set conns)"
    "n \<le> length (filter (\<lambda>c. snd c = Broken) conns)" using Cons.IH by blast
  then obtain v' where v': "run_socket_mode e se conns v = (Inr (n, Cancelled \<in> snd ` set conns), v')"
    by (metis prod.collapse)
  show ?case
    using n(2) by (cases how) (auto simp: c bnd_Inr [where m = "for_each evs (deliver_event e se)", OF v]
        bnd_Inr [where m = "run_socket_mode e se conns", OF v'] v' run_ret)
qed

text \<open>\<open>dedup_seen\<close> runs the cache at the next tick and touches nothing else.\<close>

lemma dedup_run:
  "dedup_seen se key s = (Inr (fst (seen_at DEDUP_MAX DEDUP_TTL key (se_monotonic se (sl_tick s)) (sl_dedup s))),
     s\<lparr>sl_tick := Suc (sl_tick s),
       sl_dedup := snd (seen_at DEDUP_MAX DEDUP_TTL key (se_monotonic se (sl_tick s)) (sl_dedup s))\<rparr>)"
  by (simp add: dedup_seen_def s_look_run gets_bnd modify_bnd run_ret split: prod.splits)

text \<open>What follows the two checks leaves the cache alone.\<close>

definition cache_kept :: "slack_state \<Rightarrow> slack_state \<Rightarrow> bool" where
  "cache_kept s s' \<longleftrightarrow> sl_dedup s' = sl_dedup s \<and> sl_bot_id s' = sl_bot_id s \<and> sl_tick s \<le> sl_tick s'"

interpretation cache_kept: state_relation cache_kept
  by unfold_locales (auto simp: cache_kept_def)

lemma kept_on_queue: "steps cache_kept (on_queue m)"
  by (auto simp: steps_def cache_kept_def on_queue_def split: prod.splits)

lemma kept_look: "steps cache_kept (s_look f)"
  by (simp add: steps_def cache_kept_def s_look_def)

lemma kept_accept: "steps cache_kept (accept_slack_event e se bid event)"
  unfolding accept_slack_event_def queue_slack_message_def Let_def
  by (intro cache_kept.steps_intros kept_on_queue kept_look)

text \<open>Every check of the cache reads the clock, so a handled event takes time.\<close>

definition later :: "slack_state \<Rightarrow> slack_state \<Rightarrow> bool" where
  "later s s' \<longleftrightarrow> sl_tick s \<le> sl_tick s'"

interpretation later: state_relation later
  by unfold_locales (auto simp: later_def)

lemma handle_takes_time: "sl_tick s < sl_tick (snd (handle_slack_message e se bid event s))"
proof -
  have "steps later (accept_slack_event e se bid event)"
    using kept_accept [of e se bid event] by (simp add: steps_def later_def cache_kept_def)
  moreover have "steps later (dedup_seen se key)" for key
    by (simp add: steps_def later_def dedup_run)
  ultimately have rest: "steps later (if dup then ret ()
     else (let eid = obj_get_or event ''event_id'' (JStr []) in
        bnd (if truthy eid then bnd (lift_sum (str_or_outside eid)) (dedup_seen se) else ret False) (\<lambda>dup2.
        if dup2 then ret () else accept_slack_event e se bid event)))" for dup
    unfolding Let_def by (intro later.steps_intros)
  show ?thesis
    unfolding handle_slack_message_def
    by (subst bnd_Inr [OF dedup_run]) (rule order.strict_trans2 [OF _ stepsD [OF rest, unfolded later_def]], simp)
qed

definition event_key :: "env \<Rightarrow> obj \<Rightarrow> ustr" where
  "event_key e event = fmt e (obj_get_or event ''channel'' (JStr [])) @ asc '':'' @ fmt e (obj_get_or event ''ts'' (JStr []))"

lemma handle_known:
  "fst (seen_at DEDUP_MAX DEDUP_TTL (event_key e event) (se_monotonic se (sl_tick s)) (sl_dedup s)) \<Longrightarrow>
   sq (snd (handle_slack_message e se bid event s)) = sq s"
  unfolding handle_slack_message_def event_key_def [symmetric]
  by (simp add: bnd_Inr [OF dedup_run] run_ret)

lemma holds_mono: "holds m key ex n c \<Longrightarrow> n \<le> n' \<Longrightarrow> holds m key ex n' c"
  by (simp add: holds_def)

text \<open>After an event was let through its key is in the cache, the event id checked next notwithstanding.\<close>

lemma handle_new:
  assumes "distinct (map fst (sl_dedup s))" and "length (sl_dedup s) \<le> DEDUP_MAX"
    and "list_all (\<lambda>kv. snd kv < se_monotonic se (sl_tick s) + DEDUP_TTL) (sl_dedup s)"
    and "event_key e event \<notin> set (map fst (sl_dedup s))"
    and "se_monotonic se (Suc (sl_tick s)) < se_monotonic se (sl_tick s) + DEDUP_TTL"
  shows "holds DEDUP_MAX (event_key e event) (se_monotonic se (sl_tick s) + DEDUP_TTL) 1
    (sl_dedup (snd (handle_slack_message e se bid event s)))"
proof -
  let ?key = "event_key e event" and ?now = "se_monotonic se (sl_tick s)"
  let ?P = "\<lambda>v. holds DEDUP_MAX ?key (?now + DEDUP_TTL) 1 (sl_dedup v)"
  obtain c' where seen: "seen_at DEDUP_MAX DEDUP_TTL ?key ?now (sl_dedup s) = (False, c')"
  proof -
    have "map_of (sl_dedup s) ?key = None" using assms(4) by (simp add: map_of_eq_None_iff)
    then have "\<not> fst (seen_at DEDUP_MAX DEDUP_TTL ?key ?now (sl_dedup s))" by (simp add: seen_at_def Let_def)
    then show ?thesis using that by (metis prod.collapse)
  qed
  define s1 where "s1 = s\<lparr>sl_tick := Suc (sl_tick s), sl_dedup := c'\<rparr>"
  have first: "holds DEDUP_MAX ?key (?now + DEDUP_TTL) 0 (sl_dedup s1)"
    using holds_first [OF assms(1,2) _ assms(3) seen] by (simp add: s1_def DEDUP_MAX_def)
  have P1: "?P s1" using holds_mono [OF first] by simp
  let ?eid = "obj_get_or event ''event_id'' (JStr [])"
  let ?second = "if truthy ?eid then bnd (lift_sum (str_or_outside ?eid)) (dedup_seen se) else ret False"
  have P2: "?P (snd (?second s1))"
  proof (cases "truthy ?eid")
    case True
    show ?thesis
    proof (cases "str_or_outside ?eid")
      case (Inl x)
      with True P1 show ?thesis by (simp add: bnd_def lift_sum_def)
    next
      case (Inr eid)
      have "holds DEDUP_MAX ?key (?now + DEDUP_TTL) (Suc 0)
          (snd (seen_at DEDUP_MAX DEDUP_TTL eid (se_monotonic se (sl_tick s1)) (sl_dedup s1)))"
        using assms(5) by (intro holds_seen [OF first]) (simp_all add: s1_def DEDUP_MAX_def)
      with True Inr show ?thesis by (simp add: bnd_def lift_sum_def dedup_run)
    qed
  qed (use P1 in \<open>simp add: ret_def\<close>)
  have run: "handle_slack_message e se bid event s =
      bnd ?second (\<lambda>dup2. if dup2 then ret () else accept_slack_event e se bid event) s1"
    unfolding handle_slack_message_def event_key_def [symmetric]
    by (simp add: bnd_Inr [OF dedup_run] seen s1_def)
  show ?thesis unfolding run
  proof (rule bnd_snd_cases)
    show "?P v" if "?second s1 = (Inl x, v)" for x v using P2 unfolding that by simp
    show "?P (snd ((if dup2 then ret () else accept_slack_event e se bid event) v))" if "?second s1 = (Inr dup2, v)" for dup2 v
      using P2 stepsD [OF kept_accept, of v e se bid event] unfolding that by (simp add: ret_def cache_kept_def)
  qed
qed

text \<open>C12: Slack reports a mention in a channel twice, as a message and as a mention. The second report of a
  new event changes nothing in the queue or the database, so the message is handled once.\<close>

theorem mention_queued_once:
  assumes "distinct (map fst (sl_dedup s))" and "length (sl_dedup s) \<le> DEDUP_MAX"
    and "list_all (\<lambda>kv. snd kv < se_monotonic se (sl_tick s) + DEDUP_TTL) (sl_dedup s)"
    and "event_key e event \<notin> set (map fst (sl_dedup s))"
    and "\<forall>n. n \<le> sl_tick (snd (deliver_event e se (Message_event event) s)) \<longrightarrow>
      se_monotonic se n < se_monotonic se (sl_tick s) + DEDUP_TTL"
  defines "s' \<equiv> snd (deliver_event e se (Message_event event) s)"
  shows "sq (snd (deliver_event e se (Mention_event event) s')) = sq s'"
proof -
  have catch: "snd (catch m (\<lambda>x. ret ()) v) = snd (m v)" for m :: "unit sact" and v
    by (simp add: catch_def ret_def split: prod.splits sum.splits)
  have s': "s' = snd (handle_slack_message e se (sl_bot_id s) event s)"
    by (simp add: s'_def deliver_event_def catch on_socket_event_def gets_bnd)
  have time: "se_monotonic se n < se_monotonic se (sl_tick s) + DEDUP_TTL" if "n \<le> sl_tick s'" for n
    using assms(5) that by (simp add: s'_def)
  have "Suc (sl_tick s) \<le> sl_tick s'" unfolding s' using handle_takes_time by (rule Suc_leI)
  from handle_new [OF assms(1-4) time [OF this], of "sl_bot_id s"]
  have "seen_at DEDUP_MAX DEDUP_TTL (event_key e event) (se_monotonic se (sl_tick s')) (sl_dedup s') = (True, sl_dedup s')"
    unfolding s' [symmetric] using time [of "sl_tick s'"] by (intro holds_recognised) auto
  then have "sq (snd (handle_slack_message e se (sl_bot_id s') event s')) = sq s'"
    by (intro handle_known) simp
  then show ?thesis by (simp add: deliver_event_def catch on_socket_event_def gets_bnd)
qed

section \<open>A mention\<close>

definition mention_event :: obj where
  "mention_event = [(asc ''channel'', JStr (asc ''C1'')), (asc ''ts'', JStr (asc ''1'')), (asc ''user'', JStr (asc ''U1'')),
     (asc ''channel_type'', JStr (asc ''channel'')), (asc ''text'', JStr (asc ''<@B> hi''))]"

definition knowing_state :: slack_state where
  "knowing_state = demo_slack_state\<lparr>sl_bot_id := asc ''B''\<rparr>"

abbreviation after_message :: slack_state where
  "after_message \<equiv> snd (deliver_event demo_env demo_slack_env (Message_event mention_event) knowing_state)"

theorem mention_queued_once_witness:
  "map t_id (tasks (store (sq after_message))) = [1]
   \<and> sq (snd (deliver_event demo_env demo_slack_env (Mention_event mention_event) after_message)) = sq after_message"
proof -
  have ticks: "sl_tick after_message = 2" and one: "map t_id (tasks (store (sq after_message))) = [1]" by code_simp+
  have "sq (snd (deliver_event demo_env demo_slack_env (Mention_event mention_event) after_message)) = sq after_message"
    by (rule mention_queued_once)
       (simp_all add: ticks, simp_all add: knowing_state_def demo_slack_state_def demo_slack_env_def DEDUP_TTL_def)
  with one show ?thesis by blast
qed

end
