(* ===== verification/EnvFile.thy ===== *)
theory EnvFile imports World begin

text \<open>
  secrets.py and config.py: the env file of secrets and tunables, where secrets come from, and the
  configuration built from defaults, the TOML file and the environment. The process environment,
  the files, the keychain and the TOML parser are outside. File texts are as \<open>read_text\<close> returns
  them, without carriage returns.
\<close>

section \<open>The env file\<close>

text \<open>\<open>str.splitlines\<close> on such a text.\<close>

definition is_break :: "int \<Rightarrow> bool" where
  "is_break c \<longleftrightarrow> c \<in> set [10, 11, 12, 28, 29, 30, 133, 8232, 8233]"

fun cut_lines :: "ustr \<Rightarrow> ustr list" where
  "cut_lines [] = []"
| "cut_lines (c # s) =
     (if is_break c then [] # cut_lines s
      else (case cut_lines s of [] \<Rightarrow> [[c]] | l # ls \<Rightarrow> (c # l) # ls))"

text \<open>\<open>strip('"').strip("'")\<close>\<close>

definition unquote :: "ustr \<Rightarrow> ustr" where
  "unquote v = strip_by (\<lambda>c. c = 39) (strip_by (\<lambda>c. c = 34) v)"

definition env_entry :: "ustr \<Rightarrow> (ustr \<times> ustr) option" where
  "env_entry raw =
     (let line = strip raw in
      if line = [] \<or> startswith line (asc ''#'') \<or> 61 \<notin> set line then None
      else Some (strip (takeWhile (\<lambda>c. c \<noteq> 61) line), unquote (strip (tl (dropWhile (\<lambda>c. c \<noteq> 61) line)))))"

fun env_entries :: "ustr list \<Rightarrow> (ustr \<times> ustr) list" where
  "env_entries [] = []"
| "env_entries (l # ls) = (case env_entry l of None \<Rightarrow> env_entries ls | Some kv \<Rightarrow> kv # env_entries ls)"

text \<open>A later line overwrites an earlier one.\<close>

definition read_env_file :: "ustr option \<Rightarrow> ustr \<Rightarrow> ustr option" where
  "read_env_file file =
     (case file of None \<Rightarrow> (\<lambda>_. None) | Some t \<Rightarrow> map_of (rev (env_entries (cut_lines t))))"

text \<open>\<open>upsert_env_value\<close> replaces the first line for the key, or appends one.\<close>

definition is_line_for :: "ustr \<Rightarrow> ustr \<Rightarrow> bool" where
  "is_line_for key raw \<longleftrightarrow>
     (let s = strip raw in s \<noteq> [] \<and> \<not> startswith s (asc ''#'') \<and> strip (takeWhile (\<lambda>c. c \<noteq> 61) s) = key)"

fun upsert_lines :: "ustr \<Rightarrow> ustr \<Rightarrow> ustr list \<Rightarrow> ustr list" where
  "upsert_lines key new [] = [new]"
| "upsert_lines key new (raw # ls) =
     (if is_line_for key raw then new # ls else raw # upsert_lines key new ls)"

definition upsert_env_value :: "ustr \<Rightarrow> ustr \<Rightarrow> ustr option \<Rightarrow> ustr" where
  "upsert_env_value key value file =
     (let ls = (case file of None \<Rightarrow> [] | Some t \<Rightarrow> cut_lines t) in
      rstrip (join [10] (upsert_lines key (key @ asc ''='' @ value) ls)) @ [10])"

text \<open>cli.py \<open>_load_secrets_into_env\<close>: the first line for a key that the environment does not set.\<close>

definition load_secrets_into_env :: "ustr option \<Rightarrow> (ustr \<Rightarrow> ustr option) \<Rightarrow> ustr \<Rightarrow> ustr option" where
  "load_secrets_into_env file envv =
     (case file of None \<Rightarrow> envv
      | Some t \<Rightarrow> foldl (\<lambda>m (k, v). if k \<noteq> [] \<and> m k = None then m(k \<mapsto> v) else m) envv (env_entries (cut_lines t)))"

section \<open>Secrets\<close>

text \<open>
  The operating system. \<open>os_security\<close> is the macOS tool of that name: \<open>None\<close> when there is no such program,
  and a call, by user and service, gives its exit code and output, or nothing when it cannot be run.
\<close>

record os_env =
  os_environ :: "ustr \<Rightarrow> ustr option"
  os_files :: "ustr \<Rightarrow> ustr option"
  os_is_root :: bool
  os_home :: ustr
  os_security :: "(ustr \<Rightarrow> ustr \<Rightarrow> (int \<times> ustr) option) option"

definition ENV_FILE_DEFAULT :: ustr where
  "ENV_FILE_DEFAULT = asc ''/etc/review-agent/secrets.env''"

definition SECRET_KEYS :: "string list" where
  "SECRET_KEYS = [''DEEPSEEK_API_KEY'', ''LARK_APP_ID'', ''LARK_APP_SECRET'', ''LARK_VERIFICATION_TOKEN'',
     ''LARK_ENCRYPT_KEY'', ''OPENAI_API_KEY'', ''GEMINI_API_KEY'']"

definition KEYCHAIN_SERVICE :: "(string \<times> string) list" where
  "KEYCHAIN_SERVICE = [(''DEEPSEEK_API_KEY'', ''deepseek-api-key''),
     (''LARK_APP_SECRET'', ''review-agent-lark-app-secret''),
     (''LARK_VERIFICATION_TOKEN'', ''review-agent-lark-verification-token''),
     (''LARK_ENCRYPT_KEY'', ''review-agent-lark-encrypt-key'')]"

definition from_keychain :: "os_env \<Rightarrow> ustr \<Rightarrow> ustr option" where
  "from_keychain os service =
     (case os_security os of None \<Rightarrow> None
      | Some security \<Rightarrow>
          (let user = (case os_environ os (asc ''USER'') of None \<Rightarrow> [] | Some u \<Rightarrow> u) in
           case security user service of
             None \<Rightarrow> None
           | Some (code, printed) \<Rightarrow> if code = 0 then Some (strip printed) else None))"

text \<open>A variable that is set and not empty.\<close>

definition set_var :: "(ustr \<Rightarrow> ustr option) \<Rightarrow> ustr \<Rightarrow> ustr option" where
  "set_var m k = (case m k of None \<Rightarrow> None | Some v \<Rightarrow> if v \<noteq> [] then Some v else None)"

definition secrets_file_path :: "os_env \<Rightarrow> ustr" where
  "secrets_file_path os =
     (case set_var (os_environ os) (asc ''REVIEW_AGENT_SECRETS_FILE'') of
        Some p \<Rightarrow> p
      | None \<Rightarrow>
          if os_files os ENV_FILE_DEFAULT \<noteq> None \<or> os_is_root os then ENV_FILE_DEFAULT
          else os_home os @ asc ''/.config/review-agent/secrets.env'')"

text \<open>\<open>p.read_text()\<close> when \<open>p.exists()\<close>: the empty path is the current directory, which exists and cannot be read.\<close>

definition read_if_exists :: "os_env \<Rightarrow> ustr \<Rightarrow> exn + ustr option" where
  "read_if_exists os p =
     (if p = [] then Inl (OtherError (asc ''IsADirectoryError'')) else Inr (os_files os p))"

text \<open>The file \<open>load\<close> reads: a variable set to the empty string counts here.\<close>

definition load_path :: "os_env \<Rightarrow> ustr" where
  "load_path os = (case os_environ os (asc ''REVIEW_AGENT_SECRETS_FILE'') of
     None \<Rightarrow> ENV_FILE_DEFAULT | Some p \<Rightarrow> p)"

definition load_secret :: "os_env \<Rightarrow> (ustr \<Rightarrow> ustr option) \<Rightarrow> string \<Rightarrow> ustr option" where
  "load_secret os file_vals key =
     (case set_var (os_environ os) (asc key) of
        Some v \<Rightarrow> Some v
      | None \<Rightarrow>
     (case set_var file_vals (asc key) of
        Some v \<Rightarrow> Some v
      | None \<Rightarrow>
     (case map_of KEYCHAIN_SERVICE key of
        None \<Rightarrow> None
      | Some service \<Rightarrow> set_var (from_keychain os) (asc service))))"

definition found_secrets :: "os_env \<Rightarrow> (ustr \<Rightarrow> ustr option) \<Rightarrow> (ustr \<times> ustr) list" where
  "found_secrets os file_vals =
     concat (map (\<lambda>key. case load_secret os file_vals key of None \<Rightarrow> [] | Some v \<Rightarrow> [(asc key, v)]) SECRET_KEYS)"

definition load_secrets :: "os_env \<Rightarrow> exn + (ustr \<times> ustr) list" where
  "load_secrets os =
     (case read_if_exists os (load_path os) of
        Inl x \<Rightarrow> Inl x
      | Inr file_text \<Rightarrow> Inr (found_secrets os (read_env_file file_text)))"

definition get_secret :: "os_env \<Rightarrow> ustr \<Rightarrow> bool \<Rightarrow> exn + ustr" where
  "get_secret os key required =
     (case load_secrets os of
        Inl x \<Rightarrow> Inl x
      | Inr secrets \<Rightarrow>
          (case map_of secrets key of
             Some v \<Rightarrow> Inr v
           | None \<Rightarrow> if required then Inl RuntimeError else Inr []))"

section \<open>Writing and reading back\<close>

lemma cut_lines_plain: "list_all (\<lambda>c. \<not> is_break c) l \<Longrightarrow> cut_lines (l @ 10 # s) = l # cut_lines s"
  by (induction l) (auto simp: is_break_def)

lemma cut_lines_join:
  "ls \<noteq> [] \<Longrightarrow> list_all (list_all (\<lambda>c. \<not> is_break c)) ls \<Longrightarrow> cut_lines (join [10] ls @ [10]) = ls"
  by (induction "[10 :: int]" ls rule: join.induct) (auto simp: cut_lines_plain)

lemma cut_lines_breakfree: "list_all (list_all (\<lambda>c. \<not> is_break c)) (cut_lines s)"
  by (induction s) (auto split: list.splits)

lemma strip_snoc_space: "is_space c \<Longrightarrow> strip (l @ [c]) = strip l"
  using strip_by_pad [of is_space "[]" "[c]" l] by simp

lemma env_entry_snoc: "is_space c \<Longrightarrow> env_entry (l @ [c]) = env_entry l"
  by (simp add: env_entry_def strip_snoc_space)

lemma env_entry_Nil [simp]: "env_entry [] = None"
  by (simp add: env_entry_def)

lemma env_entries_append: "env_entries (a @ b) = env_entries a @ env_entries b"
  by (induction a) (auto split: option.splits)

text \<open>A space before the final line break extends the last line or adds an empty one.\<close>

lemma cut_lines_space:
  "\<exists>ls l. cut_lines (u @ [10]) = ls @ [l] \<and>
     (cut_lines (u @ [c, 10]) = ls @ [l @ [c]] \<or> cut_lines (u @ [c, 10]) = ls @ [l, []])"
proof (induction u)
  case Nil
  show ?case by (rule exI [of _ "[]"]) (auto simp: is_break_def)
next
  case (Cons d u)
  then obtain ls l where l: "cut_lines (u @ [10]) = ls @ [l]"
    "cut_lines (u @ [c, 10]) = ls @ [l @ [c]] \<or> cut_lines (u @ [c, 10]) = ls @ [l, []]" by blast
  show ?case
  proof (cases "is_break d")
    case True
    with l show ?thesis by (intro exI [of _ "[] # ls"] exI [of _ l]) auto
  next
    case False
    show ?thesis
    proof (cases ls)
      case Nil
      with l False show ?thesis by (intro exI [of _ "[]"] exI [of _ "d # l"]) auto
    next
      case (Cons m ms)
      with l False show ?thesis by (intro exI [of _ "(d # m) # ms"] exI [of _ l]) auto
    qed
  qed
qed

lemma entries_space: "is_space c \<Longrightarrow> env_entries (cut_lines (u @ [c, 10])) = env_entries (cut_lines (u @ [10]))"
  using cut_lines_space [of u c] by (auto simp: env_entries_append env_entry_snoc split: option.splits)

lemma entries_spaces: "list_all is_space t \<Longrightarrow> env_entries (cut_lines (u @ t @ [10])) = env_entries (cut_lines (u @ [10]))"
proof (induction t rule: rev_induct)
  case (snoc c t)
  then show ?case using entries_space [of c "u @ t"] by simp
qed simp

lemma entries_rstrip: "env_entries (cut_lines (rstrip s @ [10])) = env_entries (cut_lines (s @ [10]))"
proof -
  obtain t where "s = rstrip s @ t" "list_all is_space t" using rstrip_by_prefix by blast
  then show ?thesis using entries_spaces [of t "rstrip s"] by (metis append.assoc)
qed

definition clean_key :: "ustr \<Rightarrow> bool" where
  "clean_key k \<longleftrightarrow> k \<noteq> [] \<and> strip k = k \<and> 61 \<notin> set k \<and> \<not> startswith k (asc ''#'') \<and> list_all (\<lambda>c. \<not> is_break c) k"

definition clean_value :: "ustr \<Rightarrow> bool" where
  "clean_value v \<longleftrightarrow> strip v = v \<and> unquote v = v \<and> list_all (\<lambda>c. \<not> is_break c) v"

lemma env_entry_written:
  assumes "clean_key k" and "clean_value v"
  shows "env_entry (k @ asc ''='' @ v) = Some (k, v)" and "is_line_for k (k @ asc ''='' @ v)"
proof -
  have k: "k \<noteq> []" "strip k = k" "61 \<notin> set k" "\<not> startswith k (asc ''#'')"
    and v: "strip v = v" "unquote v = v" using assms by (auto simp: clean_key_def clean_value_def)
  have line: "strip (k @ asc ''='' @ v) = k @ 61 # v"
  proof -
    have "\<not> is_space (last (k @ 61 # v))"
      using strip_by_ends(2) [OF v(1)] by (auto simp: is_space_def)
    then show ?thesis
      using strip_by_ends(1) [OF k(2,1)] k(1) by (simp add: strip_by_fixed)
  qed
  have hash: "\<not> startswith (k @ 61 # v) (asc ''#'')"
    using k(1,4) by (cases k) (auto simp: startswith_def)
  have parts: "takeWhile (\<lambda>c. c \<noteq> 61) (k @ 61 # v) = k" "dropWhile (\<lambda>c. c \<noteq> 61) (k @ 61 # v) = 61 # v"
    using k(3) by (induction k) auto
  show "env_entry (k @ asc ''='' @ v) = Some (k, v)"
    unfolding env_entry_def Let_def line using hash parts k v by simp
  show "is_line_for k (k @ asc ''='' @ v)"
    unfolding is_line_for_def Let_def line using hash parts k by simp
qed

lemma entry_line: "env_entry raw = Some (k, v) \<Longrightarrow> is_line_for k raw"
  by (auto simp: env_entry_def is_line_for_def Let_def split: if_splits)

lemma entries_other: "env_entry new = Some (k, v) \<Longrightarrow> k' \<noteq> k \<Longrightarrow>
  map_of (rev (env_entries (upsert_lines k new ls))) k' = map_of (rev (env_entries ls)) k'"
proof (induction ls)
  case (Cons l ls)
  have "env_entry l = None \<or> (\<exists>u. env_entry l = Some (k, u))" if "is_line_for k l"
    using that by (auto simp: env_entry_def is_line_for_def Let_def)
  with Cons show ?case by (auto simp: map_add_def split: option.splits)
qed simp

text \<open>What the lines behind the first one for the key give for it.\<close>

definition later_value :: "ustr \<Rightarrow> ustr list \<Rightarrow> ustr option" where
  "later_value k ls = map_of (rev (env_entries (tl (dropWhile (\<lambda>l. \<not> is_line_for k l) ls)))) k"

lemma entries_same:
  assumes "env_entry new = Some (k, v)"
  shows "map_of (rev (env_entries (upsert_lines k new ls))) k
    = Some (case later_value k ls of None \<Rightarrow> v | Some u \<Rightarrow> u)"
proof (induction ls)
  case Nil
  then show ?case using assms by (simp add: later_value_def)
next
  case (Cons l ls)
  then show ?case
    using assms entry_line [of l k]
    by (auto simp: later_value_def map_add_def split: option.splits)
qed

lemma upsert_breakfree:
  "list_all (\<lambda>c. \<not> is_break c) new \<Longrightarrow> list_all (list_all (\<lambda>c. \<not> is_break c)) ls \<Longrightarrow>
   list_all (list_all (\<lambda>c. \<not> is_break c)) (upsert_lines k new ls) \<and> upsert_lines k new ls \<noteq> []"
  by (induction ls) auto

text \<open>C36: What reading an existing env file gives after \<open>set-model\<close> wrote to it: every other key keeps its
  value, and the key has the new one, unless a line behind the replaced one also sets it; that
  line's value is then still the one read. Key and value are without line breaks, white space at
  their ends, quotes around the value, and \<open>=\<close> or a leading \<open>#\<close> in the key.\<close>

theorem upsert_env_roundtrip:
  assumes "clean_key k" and "clean_value v"
  shows "read_env_file (Some (upsert_env_value k v (Some t)))
    = (read_env_file (Some t))(k \<mapsto> (case later_value k (cut_lines t) of None \<Rightarrow> v | Some u \<Rightarrow> u))"
proof
  fix k'
  let ?new = "k @ asc ''='' @ v" and ?ls = "upsert_lines k (k @ asc ''='' @ v) (cut_lines t)"
  have new: "list_all (\<lambda>c. \<not> is_break c) ?new"
    using assms by (simp add: clean_key_def clean_value_def is_break_def)
  have "env_entries (cut_lines (upsert_env_value k v (Some t))) = env_entries ?ls"
    using upsert_breakfree [OF new cut_lines_breakfree, of k t]
    by (simp add: upsert_env_value_def entries_rstrip cut_lines_join del: asc_Cons)
  moreover note entry = env_entry_written(1) [OF assms]
  ultimately show "read_env_file (Some (upsert_env_value k v (Some t))) k' =
      ((read_env_file (Some t))(k \<mapsto> (case later_value k (cut_lines t) of None \<Rightarrow> v | Some u \<Rightarrow> u))) k'"
    using entries_other [OF entry, of k' "cut_lines t"] entries_same [OF entry, of "cut_lines t"]
    by (auto simp: read_env_file_def simp del: asc_Cons)
qed

text \<open>One line for the key gives the new value, a second one hides it.\<close>

definition demo_env_file :: ustr where
  "demo_env_file = asc ''# models'' @ [10] @ asc ''REVIEW_AGENT_MODEL=old'' @ [10] @ asc ''LARK_APP_ID=cli'' @ [10]"

definition demo_env_file_twice :: ustr where
  "demo_env_file_twice = demo_env_file @ asc ''REVIEW_AGENT_MODEL=older'' @ [10]"

theorem upsert_env_roundtrip_witness:
  "let k = asc ''REVIEW_AGENT_MODEL''; v = asc ''deepseek-v4-pro'' in
   clean_key k \<and> clean_value v
   \<and> read_env_file (Some (upsert_env_value k v (Some demo_env_file))) k = Some v
   \<and> read_env_file (Some (upsert_env_value k v (Some demo_env_file))) (asc ''LARK_APP_ID'') = Some (asc ''cli'')
   \<and> read_env_file (Some (upsert_env_value k v (Some demo_env_file_twice))) k = Some (asc ''older'')"
proof -
  have hyps: "clean_key (asc ''REVIEW_AGENT_MODEL'')" "clean_value (asc ''deepseek-v4-pro'')"
    by code_simp+
  moreover have "later_value (asc ''REVIEW_AGENT_MODEL'') (cut_lines demo_env_file) = None"
    "later_value (asc ''REVIEW_AGENT_MODEL'') (cut_lines demo_env_file_twice) = Some (asc ''older'')"
    "read_env_file (Some demo_env_file) (asc ''LARK_APP_ID'') = Some (asc ''cli'')" by code_simp+
  moreover have "asc ''LARK_APP_ID'' \<noteq> asc ''REVIEW_AGENT_MODEL''" by code_simp
  ultimately show ?thesis
    unfolding Let_def upsert_env_roundtrip [OF hyps] by (simp del: asc_Cons)
qed

text \<open>With two lines for the key the first is replaced but the last is read: the new value is lost,
  while the command line, which takes the first line, shows it.\<close>

lemma upsert_shadowed:
  "read_env_file (Some (upsert_env_value (asc ''M'') (asc ''new'') (Some (asc ''M=a'' @ [10] @ asc ''M=b'')))) (asc ''M'') = Some (asc ''b'')"
  "load_secrets_into_env (Some (upsert_env_value (asc ''M'') (asc ''new'') (Some (asc ''M=a'' @ [10] @ asc ''M=b''))))
     (\<lambda>_. None) (asc ''M'') = Some (asc ''new'')"
  by code_simp+

end
