(* ===== verification/Config.thy ===== *)
theory Config imports EnvFile begin

text \<open>
  config.py: the configuration object as its sections, each a dict from field to the value that
  reading the field gives. \<open>tomllib.loads\<close>, and whether the production directories can be made, are
  parameters.
\<close>

type_synonym config = "(string \<times> obj) list"

record config_env =
  ce_toml :: "ustr \<Rightarrow> exn + obj"
  ce_can_mkdir :: "ustr \<Rightarrow> bool"
  ce_home :: ustr

definition default_data_root :: "config_env \<Rightarrow> ustr" where
  "default_data_root ce =
     (if ce_can_mkdir ce (asc ''/var/lib/review-agent'') then asc ''/var/lib/review-agent''
      else ce_home ce @ asc ''/.review-agent'')"

definition default_log_root :: "config_env \<Rightarrow> ustr" where
  "default_log_root ce =
     (if ce_can_mkdir ce (asc ''/var/log/review-agent'') then asc ''/var/log/review-agent''
      else ce_home ce @ asc ''/.review-agent/logs'')"

definition str_fields :: "(string \<times> string) list \<Rightarrow> obj" where
  "str_fields kvs = map (\<lambda>(k, v). (asc k, JStr (asc v))) kvs"

definition default_config :: "config_env \<Rightarrow> config" where
  "default_config ce =
     [(''server'', [(asc ''bind'', JStr (asc ''127.0.0.1'')), (asc ''port'', JInt 8080)]),
      (''paths'', [(asc ''db'', JStr (default_data_root ce @ asc ''/state.db'')),
                   (asc ''fs'', JStr (default_data_root ce @ asc ''/fs'')), (asc ''log'', JStr (default_log_root ce))]),
      (''lark'', [(asc ''app_id'', JStr []), (asc ''domain'', JStr (asc ''https://open.feishu.cn'')),
                  (asc ''timeout_seconds'', JInt 30)]),
      (''llm'', str_fields [(''provider'', ''deepseek''), (''default_model'', ''deepseek-v4-pro''),
                            (''fast_model'', ''deepseek-v4-flash''), (''base_url'', ''https://api.deepseek.com/v1'')]
                @ [(asc ''timeout_seconds'', JInt 90), (asc ''max_retries'', JInt 3)]),
      (''review'', [(asc ''max_rounds'', JInt 3), (asc ''max_rounds_with_request'', JInt 5),
                    (asc ''top_n_findings'', JInt 5), (asc ''final_gate_max_fail_count'', JInt 2),
                    (asc ''session_close_grace_seconds'', JInt 30), (asc ''auto_register_requesters'', JBool True)]),
      (''slack'', str_fields [(''bot_token'', []), (''app_token'', []), (''bot_user_id'', [])]),
      (''dashboard'', [(asc ''enabled'', JBool True), (asc ''host'', JStr (asc ''127.0.0.1'')),
                       (asc ''port_internal'', JInt 8765)])]"

definition set_field :: "obj \<Rightarrow> ustr \<times> json \<Rightarrow> obj" where
  "set_field d kv = map (\<lambda>(k, v). (k, if k = fst kv then snd kv else v)) d"

text \<open>
  \<open>if hasattr(obj, k): setattr(obj, k, v)\<close>, for a section whose class has the defaults \<open>defs\<close>. A field
  is set to whatever the file holds, and a name the object does not have is skipped. The names every
  Python object has pass the test as well: the class cannot be replaced by a value of a TOML file and
  the weak reference not at all, a new \<open>__dict__\<close> must be a dict, whose entries then hide the defaults
  of the class, and any other such name (\<open>__doc__\<close>, \<open>__init__\<close>) becomes an attribute of the object that
  no field reads.
\<close>

definition set_known :: "obj \<Rightarrow> obj \<Rightarrow> ustr \<times> json \<Rightarrow> exn + obj" where
  "set_known defs d kv =
     (case kv of (k, v) \<Rightarrow>
        if k \<in> fst ` set d then Inr (set_field d kv)
        else if k = asc ''__class__'' then Inl TypeError
        else if k = asc ''__weakref__'' then Inl AttributeError
        else if k = asc ''__dict__'' then
          (case v of
             JObj given \<Rightarrow> Inr (map (\<lambda>(f, x). (f, case map_of given f of None \<Rightarrow> x | Some y \<Rightarrow> y)) defs)
           | _ \<Rightarrow> Inl TypeError)
        else Inr d)"

fun merge_section :: "obj \<Rightarrow> obj \<Rightarrow> obj \<Rightarrow> exn + obj" where
  "merge_section defs d [] = Inr d"
| "merge_section defs d (kv # raw) =
     (case set_known defs d kv of Inl x \<Rightarrow> Inl x | Inr d' \<Rightarrow> merge_section defs d' raw)"

text \<open>The sections in turn, each still holding its defaults.\<close>

fun merge_config :: "config \<Rightarrow> obj \<Rightarrow> exn + config" where
  "merge_config [] raw = Inr []"
| "merge_config ((s, d) # cfg) raw =
     (case (case map_of raw (asc s) of Some (JObj r) \<Rightarrow> merge_section d d r | _ \<Rightarrow> Inr d) of
        Inl x \<Rightarrow> Inl x
      | Inr d' \<Rightarrow> (case merge_config cfg raw of Inl x \<Rightarrow> Inl x | Inr cfg' \<Rightarrow> Inr ((s, d') # cfg')))"

text \<open>An assignment \<open>cfg.section.field = value\<close>.\<close>

definition set_cfg :: "string \<Rightarrow> string \<Rightarrow> json \<Rightarrow> config \<Rightarrow> config" where
  "set_cfg sect k v cfg = map (\<lambda>(s, d). (s, if s = sect then set_field d (asc k, v) else d)) cfg"

definition cfg_get :: "config \<Rightarrow> string \<Rightarrow> string \<Rightarrow> json option" where
  "cfg_get cfg sect k = (case map_of cfg sect of None \<Rightarrow> None | Some d \<Rightarrow> map_of d (asc k))"

section \<open>The environment\<close>

datatype conversion = AsString | AsInt | NoTrailingSlash | AsFlag

text \<open>The chain of \<open>if v := os.environ.get(\<dots>)\<close>, in order.\<close>

definition overrides :: "(string \<times> string \<times> string \<times> conversion) list" where
  "overrides =
     [(''REVIEW_AGENT_BIND'', ''server'', ''bind'', AsString),
      (''REVIEW_AGENT_PORT'', ''server'', ''port'', AsInt),
      (''REVIEW_AGENT_DB'', ''paths'', ''db'', AsString),
      (''REVIEW_AGENT_FS'', ''paths'', ''fs'', AsString),
      (''REVIEW_AGENT_LOG'', ''paths'', ''log'', AsString),
      (''REVIEW_AGENT_LARK_APP_ID'', ''lark'', ''app_id'', AsString),
      (''REVIEW_AGENT_LARK_DOMAIN'', ''lark'', ''domain'', NoTrailingSlash),
      (''REVIEW_AGENT_MODEL'', ''llm'', ''default_model'', AsString),
      (''REVIEW_AGENT_FAST_MODEL'', ''llm'', ''fast_model'', AsString),
      (''REVIEW_AGENT_LLM_PROVIDER'', ''llm'', ''provider'', AsString),
      (''REVIEW_AGENT_LLM_BASE_URL'', ''llm'', ''base_url'', AsString),
      (''REVIEW_AGENT_MAX_ROUNDS'', ''review'', ''max_rounds'', AsInt),
      (''REVIEW_AGENT_TOP_N'', ''review'', ''top_n_findings'', AsInt),
      (''REVIEW_AGENT_AUTO_REGISTER'', ''review'', ''auto_register_requesters'', AsFlag),
      (''REVIEW_AGENT_SLACK_BOT_TOKEN'', ''slack'', ''bot_token'', AsString),
      (''REVIEW_AGENT_SLACK_APP_TOKEN'', ''slack'', ''app_token'', AsString),
      (''REVIEW_AGENT_SLACK_BOT_USER_ID'', ''slack'', ''bot_user_id'', AsString)]"

text \<open>\<open>int(s)\<close>: white space around, a sign, digits with single underscores between them. Digits outside
  ASCII are left out.\<close>

fun read_digits :: "int \<Rightarrow> bool \<Rightarrow> ustr \<Rightarrow> int option" where
  "read_digits n after_digit [] = (if after_digit then Some n else None)"
| "read_digits n after_digit (c # s) =
     (if 48 \<le> c \<and> c \<le> 57 then read_digits (10 * n + (c - 48)) True s
      else if c = 95 \<and> after_digit then read_digits n False s
      else None)"

definition parse_int :: "ustr \<Rightarrow> int option" where
  "parse_int v =
     (case strip v of
        [] \<Rightarrow> None
      | c # s \<Rightarrow>
          if c = 43 then read_digits 0 False s
          else if c = 45 then map_option uminus (read_digits 0 False s)
          else read_digits 0 False (c # s))"

definition convert :: "conversion \<Rightarrow> ustr \<Rightarrow> exn + json" where
  "convert c v =
     (case c of
        AsString \<Rightarrow> Inr (JStr v)
      | AsInt \<Rightarrow> (case parse_int v of None \<Rightarrow> Inl ValueError | Some i \<Rightarrow> Inr (JInt i))
      | NoTrailingSlash \<Rightarrow> Inr (JStr (rstrip_by (\<lambda>x. x = 47) v))
      | AsFlag \<Rightarrow> Inr (JBool (lower v \<notin> set (map asc [''0'', ''false'', ''no'', ''off'']))))"

fun apply_overrides ::
  "(ustr \<Rightarrow> ustr option) \<Rightarrow> (string \<times> string \<times> string \<times> conversion) list \<Rightarrow> config \<Rightarrow> exn + config" where
  "apply_overrides envv [] cfg = Inr cfg"
| "apply_overrides envv ((var, sect, k, c) # os) cfg =
     (case set_var envv (asc var) of
        None \<Rightarrow> apply_overrides envv os cfg
      | Some v \<Rightarrow>
          (case convert c v of Inl x \<Rightarrow> Inl x
           | Inr j \<Rightarrow> apply_overrides envv os (set_cfg sect k j cfg)))"

definition from_env :: "(ustr \<Rightarrow> ustr option) \<Rightarrow> config \<Rightarrow> exn + config" where
  "from_env envv cfg = apply_overrides envv overrides cfg"

definition DEFAULT_PATH :: ustr where
  "DEFAULT_PATH = asc ''/etc/review-agent/config.toml''"

definition config_path :: "os_env \<Rightarrow> ustr option \<Rightarrow> ustr" where
  "config_path os path =
     (case path of
        Some p \<Rightarrow> if p \<noteq> [] then p else (case os_environ os (asc ''REVIEW_AGENT_CONFIG'') of None \<Rightarrow> DEFAULT_PATH | Some q \<Rightarrow> q)
      | None \<Rightarrow> (case os_environ os (asc ''REVIEW_AGENT_CONFIG'') of None \<Rightarrow> DEFAULT_PATH | Some q \<Rightarrow> q))"

definition load_config :: "config_env \<Rightarrow> os_env \<Rightarrow> ustr option \<Rightarrow> exn + config" where
  "load_config ce os path =
     (case read_if_exists os (config_path os path) of
        Inl x \<Rightarrow> Inl x
      | Inr None \<Rightarrow> from_env (os_environ os) (default_config ce)
      | Inr (Some t) \<Rightarrow>
          (case ce_toml ce t of Inl x \<Rightarrow> Inl x
           | Inr raw \<Rightarrow>
          (case merge_config (default_config ce) raw of Inl x \<Rightarrow> Inl x
           | Inr cfg \<Rightarrow> from_env (os_environ os) cfg)))"

section \<open>Shape\<close>

definition shape :: "config \<Rightarrow> (string \<times> ustr list) list" where
  "shape cfg = map (\<lambda>(s, d). (s, map fst d)) cfg"

lemma keys_set_field [simp]: "map fst (set_field d kv) = map fst d"
  by (auto simp: set_field_def)

lemma keys_set_known:
  "set_known defs d kv = Inr d' \<Longrightarrow> map fst d = map fst defs \<Longrightarrow> map fst d' = map fst defs"
  by (auto simp: set_known_def split: if_splits json.splits prod.splits)

lemma keys_merge_section:
  "merge_section defs d raw = Inr d' \<Longrightarrow> map fst d = map fst defs \<Longrightarrow> map fst d' = map fst defs"
  by (induction defs d raw rule: merge_section.induct) (auto split: sum.splits dest: keys_set_known)

lemma shape_merge: "merge_config cfg raw = Inr cfg' \<Longrightarrow> shape cfg' = shape cfg"
  by (induction cfg raw arbitrary: cfg' rule: merge_config.induct)
     (auto simp: shape_def split: sum.splits option.splits json.splits dest: keys_merge_section)

lemma shape_set [simp]: "shape (set_cfg sect k v cfg) = shape cfg"
  by (auto simp: shape_def set_cfg_def)



section \<open>Precedence\<close>

lemma asc_inject: "asc s = asc t \<longleftrightarrow> s = t"
  unfolding asc_def by (rule inj_map_eq_map) (simp add: inj_def)

lemma cfg_get_set:
  "cfg_get (set_cfg sect k v cfg) sect' k' =
     (if sect' = sect \<and> k' = k then map_option (\<lambda>_. v) (cfg_get cfg sect' k') else cfg_get cfg sect' k')"
proof -
  have known: "map_of (set_field d (q, v)) q' = (if q' = q then map_option (\<lambda>_. v) (map_of d q') else map_of d q')" for d q q'
    by (induction d) (auto simp: set_field_def)
  have "map_of (set_cfg sect k v cfg) s = map_option (\<lambda>d. if s = sect then set_field d (asc k, v) else d) (map_of cfg s)" for s
    by (induction cfg) (auto simp: set_cfg_def)
  then show ?thesis
    by (auto simp: cfg_get_def known asc_inject split: option.splits)
qed

lemma overrides_other:
  "apply_overrides envv os cfg = Inr cfg' \<Longrightarrow> list_all (\<lambda>(var, s, q, c). (s, q) \<noteq> (sect, k)) os \<Longrightarrow>
   cfg_get cfg' sect k = cfg_get cfg sect k"
proof (induction envv os cfg rule: apply_overrides.induct)
  case (2 envv var s q c os cfg)
  then show ?case by (auto simp: cfg_get_set split: option.splits sum.splits)
qed simp

lemma overrides_wins:
  assumes "apply_overrides envv os cfg = Inr cfg'"
    and "(var, sect, k, c) \<in> set os" and "distinct (map (\<lambda>(v, s, q, c). (s, q)) os)"
    and "set_var envv (asc var) = Some v" and "cfg_get cfg sect k \<noteq> None"
  shows "\<exists>j. convert c v = Inr j \<and> cfg_get cfg' sect k = Some j"
  using assms
proof (induction envv os cfg rule: apply_overrides.induct)
  case (2 envv var' s q c' os cfg)
  show ?case
  proof (cases "(var', s, q, c') = (var, sect, k, c)")
    case True
    then obtain j where j: "convert c v = Inr j" "apply_overrides envv os (set_cfg sect k j cfg) = Inr cfg'"
      using 2(3,6) by (auto split: sum.splits)
    have "list_all (\<lambda>(var, s, q, c). (s, q) \<noteq> (sect, k)) os"
      using 2(5) True by (force simp: list_all_iff)
    with overrides_other [OF j(2)] j(1) 2(7) show ?thesis by (auto simp: cfg_get_set)
  next
    case False
    then have mem: "(var, sect, k, c) \<in> set os" using 2(4) by auto
    then have "(sect, k) \<in> set (map (\<lambda>(v, s, q, c). (s, q)) os)" unfolding set_map by (rule rev_image_eqI) simp
    moreover have "(s, q) \<notin> set (map (\<lambda>(v, s, q, c). (s, q)) os)" using 2(5) by simp
    ultimately have other: "\<not> (sect = s \<and> k = q)" by blast
    show ?thesis
    proof (cases "set_var envv (asc var')")
      case None
      with 2 mem show ?thesis by auto
    next
      case (Some x)
      with 2(3) obtain j where j: "convert c' x = Inr j" "apply_overrides envv os (set_cfg s q j cfg) = Inr cfg'"
        by (auto split: sum.splits)
      have "cfg_get (set_cfg s q j cfg) sect k \<noteq> None"
        using 2(7) other by (auto simp: cfg_get_set)
      with 2(2) [OF Some j(1,2) mem _ 2(6)] 2(5) show ?thesis by simp
    qed
  qed
qed simp

lemma defaults_have_overridden: "list_all (\<lambda>(var, s, q, c). cfg_get (default_config ce) s q \<noteq> None) overrides"
  by (simp add: overrides_def default_config_def cfg_get_def str_fields_def)

lemma cfg_get_shape: "cfg_get cfg s k \<noteq> None \<longleftrightarrow> (\<exists>ks. map_of (shape cfg) s = Some ks \<and> asc k \<in> set ks)"
proof -
  have "map_of (shape cfg) s = map_option (map fst) (map_of cfg s)"
    by (induction cfg) (auto simp: shape_def)
  moreover have "map_of d (asc k) \<noteq> None \<longleftrightarrow> asc k \<in> set (map fst d)" for d :: obj
    by (metis map_of_eq_None_iff set_map)
  ultimately show ?thesis by (cases "map_of cfg s") (auto simp: cfg_get_def)
qed

lemma env_overrides:
  assumes "load_config ce os path = Inr cfg" and "(var, sect, k, c) \<in> set overrides"
    and "set_var (os_environ os) (asc var) = Some v"
  shows "\<exists>j. convert c v = Inr j \<and> cfg_get cfg sect k = Some j"
proof -
  obtain cfg0 where cfg0: "apply_overrides (os_environ os) overrides cfg0 = Inr cfg" "shape cfg0 = shape (default_config ce)"
    using assms(1) shape_merge by (fastforce simp: load_config_def from_env_def split: option.splits sum.splits)
  have "cfg_get (default_config ce) sect k \<noteq> None"
    using defaults_have_overridden [unfolded list_all_iff, THEN bspec, OF assms(2)] by simp
  then have "cfg_get cfg0 sect k \<noteq> None" using cfg_get_shape cfg0(2) by metis
  moreover have "distinct (map (\<lambda>(v, s, q, c). (s, q)) overrides)"
    by (simp add: overrides_def)
  ultimately show ?thesis using overrides_wins [OF cfg0(1) assms(2) _ assms(3)] by blast
qed

text \<open>A variable of the environment that is set overrides the TOML file and the default: the field
  holds its converted value.\<close>

theorem environment_wins:
  assumes "load_config ce os path = Inr cfg" and "(var, sect, k, c) \<in> set overrides"
    and "set_var (os_environ os) (asc var) = Some v"
  shows "\<exists>j. convert c v = Inr j \<and> cfg_get cfg sect k = Some j"
  using assms by (rule env_overrides)

section \<open>A concrete start\<close>

definition demo_ce :: config_env where
  "demo_ce = \<lparr>ce_toml = (\<lambda>t. Inr [(asc ''llm'', JObj [(asc ''default_model'', JStr (asc ''from-file'')), (asc ''colour'', JInt 1)])]),
     ce_can_mkdir = (\<lambda>d. False), ce_home = asc ''/home''\<rparr>"

definition demo_os :: os_env where
  "demo_os = \<lparr>os_environ = [asc ''REVIEW_AGENT_MODEL'' \<mapsto> asc ''from-env''],
     os_files = [DEFAULT_PATH \<mapsto> asc ''toml''], os_is_root = False, os_home = asc ''/home'', os_security = None\<rparr>"

definition demo_config :: config where
  "demo_config = (case load_config demo_ce demo_os None of Inr cfg \<Rightarrow> cfg | Inl x \<Rightarrow> [])"

lemma demo_load: "load_config demo_ce demo_os None = Inr demo_config"
proof -
  have "isl (load_config demo_ce demo_os None) = False" by code_simp
  then show ?thesis by (auto simp: demo_config_def isl_def split: sum.splits)
qed


theorem environment_wins_witness: "cfg_get demo_config ''llm'' ''default_model'' = Some (JStr (asc ''from-env''))"
proof -
  have "set_var (os_environ demo_os) (asc ''REVIEW_AGENT_MODEL'') = Some (asc ''from-env'')" by code_simp
  from environment_wins [OF demo_load _ this, of "''llm''" "''default_model''" AsString]
  show ?thesis by (simp add: overrides_def convert_def del: asc_Cons)
qed

end
