(* ===== verification/App.thy ===== *)
theory App imports Socket Config begin

text \<open>
  app.py and routers/dashboard.py: what the application is assembled from, its start-up and shutdown,
  and the status page. FastAPI itself is not modelled.
\<close>

section \<open>Assembly\<close>

text \<open>\<open>v or secrets.get(k, "")\<close>.\<close>

definition secret_or_empty :: "(ustr \<times> ustr) list \<Rightarrow> string \<Rightarrow> ustr" where
  "secret_or_empty sec k = (case map_of sec (asc k) of None \<Rightarrow> [] | Some t \<Rightarrow> t)"

definition text_or :: "json \<Rightarrow> (ustr \<times> ustr) list \<Rightarrow> string \<Rightarrow> json" where
  "text_or v sec k = (if truthy v then v else JStr (secret_or_empty sec k))"

definition cfg_field :: "config \<Rightarrow> string \<Rightarrow> string \<Rightarrow> json" where
  "cfg_field cfg sect k = (case cfg_get cfg sect k of None \<Rightarrow> JNull | Some v \<Rightarrow> v)"

text \<open>\<open>cfg.slack.bot_token or secrets.get("SLACK_BOT_TOKEN", "")\<close>, and the same for the other two.\<close>

definition slack_tokens :: "config \<Rightarrow> (ustr \<times> ustr) list \<Rightarrow> json \<times> json \<times> json" where
  "slack_tokens cfg sec =
     (text_or (cfg_field cfg ''slack'' ''bot_token'') sec ''SLACK_BOT_TOKEN'',
      text_or (cfg_field cfg ''slack'' ''app_token'') sec ''SLACK_APP_TOKEN'',
      text_or (cfg_field cfg ''slack'' ''bot_user_id'') sec ''SLACK_BOT_USER_ID'')"

definition slack_configured :: "config \<Rightarrow> (ustr \<times> ustr) list \<Rightarrow> bool" where
  "slack_configured cfg sec \<longleftrightarrow> (case slack_tokens cfg sec of (b, a, u) \<Rightarrow> truthy b \<and> truthy a)"

text \<open>What \<open>build_app\<close> hands to the parts it creates. The Slack adapter is left out when its packages are
  missing.\<close>

record application =
  ap_storage :: "json \<times> json"
  ap_llm :: "ustr \<times> json \<times> json"
  ap_lark :: "json \<times> ustr \<times> json"
  ap_slack :: "(json \<times> json \<times> json) option"
  ap_ingest :: "backend list"
  ap_delivery :: "string list"
  ap_encrypt_key :: ustr
  ap_verification_token :: ustr
  ap_dashboard :: bool

definition assemble :: "config \<Rightarrow> (ustr \<times> ustr) list \<Rightarrow> bool \<Rightarrow> application" where
  "assemble cfg sec slack_available =
     (let slack = (if slack_configured cfg sec \<and> slack_available then Some (slack_tokens cfg sec) else None) in
      \<lparr>ap_storage = (cfg_field cfg ''paths'' ''db'', cfg_field cfg ''paths'' ''fs''),
       ap_llm = (secret_or_empty sec ''DEEPSEEK_API_KEY'', cfg_field cfg ''llm'' ''base_url'',
                  cfg_field cfg ''llm'' ''max_retries''),
       ap_lark = (text_or (cfg_field cfg ''lark'' ''app_id'') sec ''LARK_APP_ID'', secret_or_empty sec ''LARK_APP_SECRET'',
                  cfg_field cfg ''lark'' ''domain''),
       ap_slack = slack, ap_ingest = app_backends,
       ap_delivery = [''lark_dm'', ''lark_doc'', ''local_path''] @ (if slack = None then [] else [''slack_dm'']),
       ap_encrypt_key = secret_or_empty sec ''LARK_ENCRYPT_KEY'',
       ap_verification_token = secret_or_empty sec ''LARK_VERIFICATION_TOKEN'',
       ap_dashboard = truthy (cfg_field cfg ''dashboard'' ''enabled'')\<rparr>)"

definition build_app :: "config_env \<Rightarrow> os_env \<Rightarrow> ustr option \<Rightarrow> bool \<Rightarrow> exn + application" where
  "build_app ce os path slack_available =
     (case load_config ce os path of
        Inl x \<Rightarrow> Inl x
      | Inr cfg \<Rightarrow>
          (case load_secrets os of
             Inl x \<Rightarrow> Inl x
           | Inr sec \<Rightarrow> Inr (assemble cfg sec slack_available)))"

text \<open>\<open>_maybe_app\<close>: an import of the module never raises.\<close>

definition maybe_app :: "config_env \<Rightarrow> os_env \<Rightarrow> bool \<Rightarrow> application option" where
  "maybe_app ce os slack_available =
     (if os_environ os (asc ''REVIEW_AGENT_NO_AUTOBUILD'') = Some (asc ''1'') then None
      else (case build_app ce os None slack_available of Inl x \<Rightarrow> None | Inr a \<Rightarrow> Some a))"

section \<open>Start-up and shutdown\<close>

text \<open>The start-up handler: the unfinished tasks are queued again, then the Slack adapter starts.\<close>

definition app_start :: "env \<Rightarrow> slack_env \<Rightarrow> (ustr \<times> ustr) option \<Rightarrow> nat sact" where
  "app_start e se slack =
     bnd (on_queue (replay_pending e)) (\<lambda>recovered.
     andthen (case slack of None \<Rightarrow> ret False | Some (bt, appt) \<Rightarrow> slack_start se bt appt) (ret recovered))"

text \<open>The shutdown handler: the worker is cancelled, the Slack adapter saves its threads; the clients and the
  database are closed.\<close>

definition app_stop :: "slack_env \<Rightarrow> (ustr \<times> ustr) option \<Rightarrow> unit sact" where
  "app_stop se slack = (case slack of None \<Rightarrow> ret () | Some _ \<Rightarrow> slack_stop se)"

section \<open>The status page\<close>

definition or_dash :: "ustr option \<Rightarrow> ustr" where
  "or_dash t = (case t of None \<Rightarrow> asc ''-'' | Some x \<Rightarrow> if x = [] then asc ''-'' else x)"

definition cell :: "ustr \<Rightarrow> ustr" where
  "cell t = asc ''<td>'' @ t @ asc ''</td>''"

definition page_row :: "ustr list \<Rightarrow> ustr" where
  "page_row ts = asc ''<tr>'' @ concat (map cell ts) @ asc ''</tr>''"

definition or_none :: "ustr \<Rightarrow> ustr \<Rightarrow> ustr" where
  "or_none rows span = (if rows = [] then asc ''<tr><td colspan='' @ span @ asc ''>(none)</td></tr>'' else rows)"

definition active_row :: "session \<Rightarrow> ustr" where
  "active_row s = page_row [s_id s, requester_oid s, or_dash (subject s), asc (stage_value (s_stage s)), int_digits (round_no s)]"

definition failed_row :: "session \<Rightarrow> ustr" where
  "failed_row s = page_row [s_id s, (case failed_stage s of None \<Rightarrow> asc ''None'' | Some st \<Rightarrow> asc (stage_value st)),
     take 80 (case last_error s of None \<Rightarrow> [] | Some t \<Rightarrow> t)]"

definition closed_row :: "session \<Rightarrow> ustr" where
  "closed_row s = page_row [s_id s, or_dash (subject s),
     (case s_verdict s of None \<Rightarrow> asc ''None'' | Some v \<Rightarrow> asc (verdict_value v)), or_dash (closed_at s)]"

definition page_head :: ustr where
  "page_head = asc ''<!doctype html><html><head><meta charset=utf-8>'' @ [10] @ asc ''<title>review-agent dashboard</title>'' @ [10] @ asc ''<style>body{font-family:sans-serif}table{border-collapse:collapse;width:100%}'' @ [10] @ asc ''td,th{border:1px solid #ccc;padding:4px;font-size:13px}h2{margin-top:24px}</style>'' @ [10] @ asc ''</head><body>'' @ [10] @ asc ''<h1>review-agent dashboard</h1>'' @ [10]"

definition dashboard_page :: "session list \<Rightarrow> session list \<Rightarrow> session list \<Rightarrow> ustr" where
  "dashboard_page active failed closed =
     page_head @ asc ''<h2>Active sessions ('' @ nat_digits (length active) @ asc '')</h2>'' @ [10] @ asc ''<table><tr><th>id</th><th>requester</th><th>subject</th><th>stage</th><th>round</th></tr>'' @ [10] @ or_none (concat (map active_row active)) (asc ''5'') @ asc ''</table>'' @ [10] @ asc ''<h2>Failed sessions ('' @ nat_digits (length failed) @ asc '')</h2>'' @ [10] @ asc ''<table><tr><th>id</th><th>failed_stage</th><th>last_error</th></tr>''
     @ or_none (concat (map failed_row failed)) (asc ''3'') @ asc ''</table>'' @ [10] @ asc ''<h2>Recent closed</h2>'' @ [10] @ asc ''<table><tr><th>id</th><th>subject</th><th>verdict</th><th>closed_at</th></tr>''
     @ concat (map closed_row closed) @ asc ''</table>'' @ [10] @ asc ''</body></html>''"

definition dashboard :: "env \<Rightarrow> ustr act" where
  "dashboard e =
     bnd (list_sessions e None None (Some ACTIVE)) (\<lambda>active.
     bnd (list_sessions e None None (Some FAILED)) (\<lambda>failed.
     bnd (list_sessions e None None (Some CLOSED)) (\<lambda>closed.
     ret (dashboard_page active failed (take 20 closed)))))"

section \<open>Properties\<close>

text \<open>The Slack tokens of the secrets never reach the application.\<close>

lemma slack_secrets_never_loaded:
  assumes "load_secrets os = Inr sec"
  shows "map_of sec (asc ''SLACK_BOT_TOKEN'') = None" "map_of sec (asc ''SLACK_APP_TOKEN'') = None"
proof -
  have keys: "k \<in> set (map asc SECRET_KEYS)" if "map_of sec k \<noteq> None" for k
    using that assms
    by (fastforce simp: load_secrets_def found_secrets_def dest!: map_of_SomeD split: option.splits sum.splits)
  have "asc ''SLACK_BOT_TOKEN'' \<notin> set (map asc SECRET_KEYS)" "asc ''SLACK_APP_TOKEN'' \<notin> set (map asc SECRET_KEYS)"
    by code_simp+
  with keys show "map_of sec (asc ''SLACK_BOT_TOKEN'') = None"
    "map_of sec (asc ''SLACK_APP_TOKEN'') = None" by blast+
qed

text \<open>So with tokens in the secrets file only, the Slack adapter is never created and Slack targets have no
  backend.\<close>

theorem slack_needs_config:
  assumes "build_app ce os path available = Inr app" and "load_config ce os path = Inr cfg"
    and "\<not> truthy (cfg_field cfg ''slack'' ''bot_token'')"
  shows "ap_slack app = None \<and> ''slack_dm'' \<notin> set (ap_delivery app)"
proof -
  obtain sec where sec: "load_secrets os = Inr sec" and app: "app = assemble cfg sec available"
    using assms(1,2) by (auto simp: build_app_def split: sum.splits)
  have "secret_or_empty sec ''SLACK_BOT_TOKEN'' = []"
    unfolding secret_or_empty_def slack_secrets_never_loaded [OF sec] by simp
  then have "\<not> slack_configured cfg sec"
    using assms(3) by (simp add: slack_configured_def slack_tokens_def text_or_def)
  with app show ?thesis by (auto simp: assemble_def Let_def)
qed

text \<open>The time-outs of the configuration file reach no client.\<close>

theorem timeouts_not_used:
  "assemble (set_cfg ''llm'' ''timeout_seconds'' v (set_cfg ''lark'' ''timeout_seconds'' v' cfg)) sec available
     = assemble cfg sec available"
  by (simp add: assemble_def cfg_field_def slack_configured_def slack_tokens_def cfg_get_set)

lemma contains_concat: "x \<in> set xs \<Longrightarrow> contains x (concat xs)"
  by (induction xs) (auto intro: contains_left contains_right)

lemma row_on_page:
  assumes "s \<in> set active"
  shows "contains (active_row s) (dashboard_page active failed closed)"
proof -
  have "contains (active_row s) (concat (map active_row active))"
    using assms by (intro contains_concat) simp
  moreover have "concat (map active_row active) \<noteq> []"
    using assms by (auto simp: active_row_def page_row_def)
  ultimately have "contains (active_row s) (or_none (concat (map active_row active)) (asc ''5''))"
    unfolding or_none_def by (simp only: if_False)
  then show ?thesis
    unfolding dashboard_page_def by (intro contains_right contains_left)
qed

text \<open>The subject of every active session stands in the status page as the requester wrote it: markup in it
  is not escaped and reaches the browser of whoever opens the page.\<close>

theorem dashboard_subject_unescaped:
  assumes "scans_ok e" and "s \<in> set (sessions w)" and "s_status s = ACTIVE" and "subject s = Some t" and "t \<noteq> []"
  shows "\<exists>page. dashboard e w = (Inr page, w) \<and> contains (cell t) page"
proof -
  let ?list = "\<lambda>st. map (row_to_session w) (order_by_desc started_at (session_scan e (filter (\<lambda>s. s_status s = st) (sessions w))))"
  let ?page = "dashboard_page (?list ACTIVE) (?list FAILED) (take 20 (?list CLOSED))"
  have "dashboard e w = (Inr ?page, w)"
    by (simp add: dashboard_def list_sessions_def run_simps ret_def)
  moreover have "contains (cell t) ?page"
  proof -
    have "row_to_session w s \<in> set (?list ACTIVE)"
    proof -
      have "set (session_scan e ss) = set ss" for ss
        using assms(1) unfolding scans_ok_def by (metis set_mset_mset)
      with assms(2,3) show ?thesis by (simp add: order_by_desc_def)
    qed
    moreover have "contains (cell t) (active_row (row_to_session w s))"
    proof -
      have "active_row (row_to_session w s) = (asc ''<tr>'' @ cell (s_id s) @ cell (requester_oid s)) @ cell t
        @ cell (asc (stage_value (s_stage s))) @ cell (int_digits (round_no s)) @ asc ''</tr>''"
        using assms(4,5) by (simp add: active_row_def page_row_def row_to_session_def or_dash_def Let_def)
      then show ?thesis by (simp only: contains_append)
    qed
    ultimately show ?thesis using row_on_page contains_trans by blast
  qed
  ultimately show ?thesis by blast
qed

text \<open>A requester can choose such a subject: a custom topic of one short line is kept as it is.\<close>

lemma script_kept_as_subject: "trim_subject (asc ''<script src=//x.io></script>'') = asc ''<script src=//x.io></script>''"
  by code_simp

theorem dashboard_subject_unescaped_witness:
  "\<exists>page. dashboard demo_env (demo_world\<lparr>sessions := [demo_session\<lparr>subject := Some (asc ''<script src=//x>'')\<rparr>]\<rparr>)
       = (Inr page, demo_world\<lparr>sessions := [demo_session\<lparr>subject := Some (asc ''<script src=//x>'')\<rparr>]\<rparr>)
     \<and> contains (cell (asc ''<script src=//x>'')) page"
  by (rule dashboard_subject_unescaped [where s = "demo_session\<lparr>subject := Some (asc ''<script src=//x>'')\<rparr>"])
     (simp_all add: demo_session_def new_session_def)

end
