(* ===== verification/Writes.thy ===== *)
theory Writes imports Safety begin

text \<open>
  A handler as the single writes it makes. The result of a handler comes of such writes, one after the
  other, so wherever the process dies inside a handler the database and the files are in a state that
  some of them lead to; the relation allows any order of them and any content.
\<close>

inductive handler_write :: "world \<Rightarrow> world \<Rightarrow> bool" where
  clock_read: "handler_write w (w\<lparr>tick := n\<rparr>)"
| message: "handler_write w (w_sent m w)"
| session_row: "never_active fs \<Longrightarrow> handler_write w (w_update_session i fs w)"
| session_file: "handler_write w (w_folder k g w)"
| llm_row: "lc_session_id c \<in> set (session_ids w) \<Longrightarrow> handler_write w (w_llm_call c w)"
| outbound: "ob_session_id ob \<in> set (session_ids w) \<Longrightarrow> handler_write w (w_outbound ob w)"
| user_row: "handler_write w (w_users (upsert_rows u (users w)) w)"
| new_session: "s_id s \<notin> set (session_ids w) \<Longrightarrow> requester_oid s \<in> set (user_ids w) \<Longrightarrow>
    responder_oid s \<in> set (user_ids w) \<Longrightarrow> s_status s = ACTIVE \<Longrightarrow> active_count w (requester_oid s) = 0 \<Longrightarrow>
    handler_write w (w_insert_session s w)"

abbreviation handler_writes :: "world \<Rightarrow> world \<Rightarrow> bool" where
  "handler_writes \<equiv> handler_write\<^sup>*\<^sup>*"

interpretation writes: guarded_effects handler_writes
proof unfold_locales
  show "handler_writes w (w_llm_call c w)" if "lc_session_id c = s_id s" "s_id s \<in> set (session_ids w)" for s :: session and c w
    using that by (intro r_into_rtranclp handler_write.llm_row) simp
  show "handler_writes w (w_outbound ob w)" if "ob_session_id ob = s_id s" "s_id s \<in> set (session_ids w)" for s :: session and ob w
    using that by (intro r_into_rtranclp handler_write.outbound) simp
qed (auto intro: handler_write.intros)

text \<open>What a handler does is a sequence of these writes.\<close>

lemma dispatch_writes: "scans_ok e \<Longrightarrow> handler_writes w (snd (dispatch e t w))"
  by (rule writes.dispatch_R)

text \<open>A relation of the interface is kept wherever a handler is cut off.\<close>

context guarded_effects
begin

lemma write_R: "handler_write w w' \<Longrightarrow> R w w'"
proof (induction rule: handler_write.induct)
  case (session_row fs w i)
  then show ?case using update_R [where s = "(undefined :: session)\<lparr>s_id := i\<rparr>" and fs = fs and w = w] by simp
next
  case (session_file w k g)
  then show ?case using stepsD [OF steps_any_folder, of w k g] by (simp add: modify_def)
next
  case (llm_row c w)
  then show ?case using llm_R [where s = "(undefined :: session)\<lparr>s_id := lc_session_id c\<rparr>" and c = c and w = w] by simp
next
  case (outbound ob w)
  then show ?case using outbound_R [where s = "(undefined :: session)\<lparr>s_id := ob_session_id ob\<rparr>" and ob = ob and w = w] by simp
qed (auto intro: tick_R sent_R upsert_R open_R)

lemma writes_R: "handler_writes w w' \<Longrightarrow> R w w'"
  by (induction rule: rtranclp_induct) (auto intro: refl_R trans_R dest: write_R)

end

end
