(* ===== verification/System.thy ===== *)
theory System imports App Writes begin

text \<open>
  The process as a whole. Requests to the webhook and events of Slack arrive between the points at
  which the worker takes a task and ends it, and the process may die at any such point, or inside a
  handler, and be started again on the same database. The steps are an \<open>inductive\<close> relation on the
  state of the process; what holds in every reachable state is shown by induction on the run. A handler
  that is not cut off runs in one step: it writes neither the events nor the tasks, and the producers
  write nothing else.
\<close>

section \<open>The process\<close>

text \<open>What is fixed for an installation: the services outside, the keys and the tokens.\<close>

record site =
  st_env :: env
  st_slack :: slack_env
  st_crypto :: crypto
  st_encrypt_key :: ustr
  st_verification_token :: ustr
  st_slack_tokens :: "(ustr \<times> ustr) option"
  st_bot_id :: ustr

text \<open>\<open>in_hand\<close> is what the worker has taken and not ended, the local variables of \<open>worker.run\<close>.\<close>

record process =
  adapter :: slack_state
  in_hand :: "(nat \<times> task option) option"

abbreviation proc_queue :: "process \<Rightarrow> qstate" where
  "proc_queue p \<equiv> sq (adapter p)"

abbreviation proc_db :: "process \<Rightarrow> world" where
  "proc_db p \<equiv> store (proc_queue p)"

definition set_queue :: "process \<Rightarrow> qstate \<Rightarrow> process" where
  "set_queue p q = p\<lparr>adapter := (adapter p)\<lparr>sq := q\<rparr>\<rparr>"

text \<open>A start: what was in memory is gone, the thread file and the database are read.\<close>

definition fresh_memory :: "site \<Rightarrow> slack_state \<Rightarrow> slack_state" where
  "fresh_memory st s =
     s\<lparr>sq := (sq s)\<lparr>queues := []\<rparr>, sl_dedup := [], sl_threads := [], sl_bot_id := st_bot_id st\<rparr>"

definition boot :: "site \<Rightarrow> process \<Rightarrow> process" where
  "boot st p =
     \<lparr>adapter = snd (andthen
          (case st_slack_tokens st of None \<Rightarrow> ret () | Some _ \<Rightarrow> set_persistence_path (st_slack st))
          (app_start (st_env st) (st_slack st) (st_slack_tokens st)) (fresh_memory st (adapter p))),
      in_hand = None\<rparr>"

text \<open>\<open>await queue.next()\<close>, when something is there, and the rest of the turn. A task whose row is missing
  would end the worker: it would never take another one.\<close>

definition worker_takes :: "env \<Rightarrow> process \<Rightarrow> process" where
  "worker_takes e p =
     (case in_hand p of
        Some _ \<Rightarrow> p
      | None \<Rightarrow>
          (case next_task e (proc_queue p) of
             (Inr item, q) \<Rightarrow> (set_queue p q)\<lparr>in_hand := item\<rparr>
           | (Inl x, q) \<Rightarrow> set_queue p q))"

definition worker_ends :: "env \<Rightarrow> process \<Rightarrow> process" where
  "worker_ends e p =
     (case in_hand p of
        Some (tid, Some t) \<Rightarrow> (set_queue p (snd (finish_task e tid t (proc_queue p))))\<lparr>in_hand := None\<rparr>
      | _ \<Rightarrow> p)"

definition request_arrives :: "site \<Rightarrow> headers \<Rightarrow> int list \<Rightarrow> process \<Rightarrow> process" where
  "request_arrives st h raw p =
     set_queue p (snd (lark_webhook (st_env st) (st_crypto st) (st_encrypt_key st) (st_verification_token st) h raw
       (proc_queue p)))"

definition slack_event_arrives :: "site \<Rightarrow> socket_event \<Rightarrow> process \<Rightarrow> process" where
  "slack_event_arrives st ev p = p\<lparr>adapter := snd (deliver_event (st_env st) (st_slack st) ev (adapter p))\<rparr>"

text \<open>A shutdown cancels the worker, wherever it is; its task stays marked running.\<close>

definition shut_down :: "site \<Rightarrow> process \<Rightarrow> process" where
  "shut_down st p =
     \<lparr>adapter = snd (app_stop (st_slack st) (st_slack_tokens st) (adapter p)), in_hand = None\<rparr>"

inductive system_step :: "site \<Rightarrow> process \<Rightarrow> process \<Rightarrow> bool" for st where
  request: "system_step st p (request_arrives st h raw p)"
| slack_event: "st_slack_tokens st \<noteq> None \<Longrightarrow> system_step st p (slack_event_arrives st ev p)"
| takes: "system_step st p (worker_takes (st_env st) p)"
| ends: "system_step st p (worker_ends (st_env st) p)"
| crash: "system_step st p (boot st p)"
| crash_inside: "in_hand p \<noteq> None \<Longrightarrow> handler_writes (proc_db p) w \<Longrightarrow>
    system_step st p (boot st (set_queue p ((proc_queue p)\<lparr>store := w\<rparr>)))"
| restart: "system_step st p (boot st (shut_down st p))"

text \<open>A run starts on a database an earlier version of the program, or \<open>setup\<close>, has left.\<close>

definition sound_db :: "world \<Rightarrow> bool" where
  "sound_db w \<longleftrightarrow> db_wf w \<and> single_active w"

inductive reachable :: "site \<Rightarrow> process \<Rightarrow> bool" for st where
  start: "sound_db (proc_db p) \<Longrightarrow> reachable st (boot st p)"
| step: "reachable st p \<Longrightarrow> system_step st p p' \<Longrightarrow> reachable st p'"

section \<open>The invariant\<close>

text \<open>The ids of the tasks with a status, for one requester.\<close>

definition waiting_ids :: "ustr \<Rightarrow> world \<Rightarrow> nat multiset" where
  "waiting_ids k w =
     mset (map t_id (filter (\<lambda>t. t_status t = Pending \<and> queue_key (t_requester_oid t) = k) (tasks w)))"

definition running_ids :: "world \<Rightarrow> nat multiset" where
  "running_ids w = mset (map t_id (filter (\<lambda>t. t_status t = Running) (tasks w)))"

text \<open>The table is sound, the pending tasks are those in the queues, each once and in the queue of its
  requester, and the running one is the one in the worker's hand.\<close>

definition queue_ok :: "qstate \<Rightarrow> bool" where
  "queue_ok q \<longleftrightarrow> sound_db (store q) \<and> keys_distinct (queues q)
     \<and> (\<forall>k. mset (queue_view (queues q) k) = waiting_ids k (store q))"

definition hand_ok :: "(nat \<times> task option) option \<Rightarrow> world \<Rightarrow> bool" where
  "hand_ok c w \<longleftrightarrow>
     (case c of None \<Rightarrow> running_ids w = {#}
      | Some (tid, None) \<Rightarrow> False
      | Some (tid, Some t) \<Rightarrow> running_ids w = {#tid#} \<and> t_id t = tid)"

definition process_ok :: "process \<Rightarrow> bool" where
  "process_ok p \<longleftrightarrow> queue_ok (proc_queue p) \<and> hand_ok (in_hand p) (proc_db p)"

section \<open>Producers\<close>

text \<open>What the webhook and the Slack adapter do to the queue is made of four operations.\<close>

locale producer_effects = state_relation R for R :: "qstate \<Rightarrow> qstate \<Rightarrow> bool" +
  assumes seen_R: "steps R (on_store (event_seen i))"
    and record_R: "steps R (on_store (record_event e i sd ty mt n hs sm))"
    and handled_R: "steps R (on_store (mark_event_handled i))"
    and enqueue_R: "steps R (enqueue e k pl oid)"
begin

lemmas producer_rules = seen_R record_R handled_R enqueue_R

lemma steps_queue_event: "steps R (queue_event e msg j a b c d t k)"
  unfolding queue_event_def by (intro steps_intros producer_rules)

lemma steps_accept_event: "steps R (accept_event e raw d header i)"
  unfolding accept_event_def split_def by (intro steps_intros producer_rules steps_queue_event)

lemma steps_handle_event: "steps R (handle_event e token raw d)"
  unfolding handle_event_def Let_def by (intro steps_intros producer_rules steps_accept_event)

lemma steps_lark_webhook: "steps R (lark_webhook e cr key token h raw)"
  unfolding lark_webhook_def
  by (auto split: option.splits sum.splits intro!: steps_intros steps_handle_event)

text \<open>The adapter works on a larger state; only the queue in it matters.\<close>

sublocale adapter: state_relation "\<lambda>s s'. R (sq s) (sq s')"
  using refl_R trans_R by unfold_locales auto

lemma steps_on_queue: "steps R m \<Longrightarrow> steps (\<lambda>s s'. R (sq s) (sq s')) (on_queue m)"
  by (auto simp: steps_def on_queue_def split: prod.splits dest: stepsE) (metis snd_conv)

lemma steps_beside_queue: "(\<And>s. sq (snd (m s)) = sq s) \<Longrightarrow> steps (\<lambda>s s'. R (sq s) (sq s')) m"
  by (simp add: steps_def refl_R)

lemma steps_seen_record:
  "steps R (on_store (andthen (event_seen i) (record_event e j sd ty mt n hs sm)))"
proof -
  have "on_store (andthen (event_seen i) m) = andthen (on_store (event_seen i)) (on_store m)" for m :: "unit act"
    by (rule ext) (simp add: on_store_def event_seen_def gets_def bnd_def)
  then show ?thesis by (simp add: steps_bnd producer_rules)
qed

lemma steps_slack_message: "steps (\<lambda>s s'. R (sq s) (sq s')) (handle_slack_message e se bid event)"
proof -
  have dedup: "steps (\<lambda>s s'. R (sq s) (sq s')) (dedup_seen se k)" for k
    by (rule steps_beside_queue)
       (simp add: dedup_seen_def bnd_def s_look_def gets_def modify_def ret_def split: prod.splits)
  have look: "steps (\<lambda>s s'. R (sq s) (sq s')) (s_look f)" for f :: "nat \<Rightarrow> int"
    by (rule steps_beside_queue) (simp add: s_look_def)
  have queued: "steps (\<lambda>s s'. R (sq s) (sq s')) (queue_slack_message e se event c)" for c
    unfolding queue_slack_message_def Let_def
    by (intro adapter.steps_intros look steps_on_queue steps_seen_record producer_rules)
  have "steps (\<lambda>s s'. R (sq s) (sq s')) (accept_slack_event e se bid event)"
    unfolding accept_slack_event_def by (intro adapter.steps_intros queued)
  then show ?thesis
    unfolding handle_slack_message_def Let_def by (intro adapter.steps_intros dedup)
qed

lemma steps_deliver_event: "steps (\<lambda>s s'. R (sq s) (sq s')) (deliver_event e se ev)"
  unfolding deliver_event_def on_socket_event_def
  by (cases ev) (auto intro!: adapter.steps_intros steps_slack_message)

end

section \<open>Every step keeps the invariant\<close>

lemma sound_db_frame:
  assumes "sound_db w" and "sessions w' = sessions w" "users w' = users w" "llm_calls w' = llm_calls w"
    "outbounds w' = outbounds w" and "distinct (map ev_event_id (events w'))" "distinct (map t_id (tasks w'))"
  shows "sound_db w'"
  using assms by (simp add: sound_db_def db_wf_def user_ids_def session_ids_def event_ids_def active_count_def)

lemma sound_db_ids:
  "sound_db w \<Longrightarrow> distinct (map t_id (tasks w))" "sound_db w \<Longrightarrow> distinct (map ev_event_id (events w))"
  by (simp_all add: sound_db_def db_wf_parts)

lemma waiting_ids_cong: "tasks w' = tasks w \<Longrightarrow> waiting_ids k w' = waiting_ids k w"
  by (simp add: waiting_ids_def)

lemma running_ids_cong: "tasks w' = tasks w \<Longrightarrow> running_ids w' = running_ids w"
  by (simp add: running_ids_def)

lemma hand_ok_cong: "running_ids w' = running_ids w \<Longrightarrow> hand_ok c w' = hand_ok c w"
  by (simp add: hand_ok_def split: option.splits prod.splits)

text \<open>A change of the events, or nothing at all.\<close>

lemma ok_events:
  assumes "queue_ok q \<and> hand_ok c (store q)" and "queues q' = queues q" and "tasks (store q') = tasks (store q)"
    and "sessions (store q') = sessions (store q)" "users (store q') = users (store q)"
    "llm_calls (store q') = llm_calls (store q)" "outbounds (store q') = outbounds (store q)"
    and "distinct (map ev_event_id (events (store q')))"
  shows "queue_ok q' \<and> hand_ok c (store q')"
proof -
  have "sound_db (store q)" using assms(1) by (simp add: queue_ok_def)
  then have "sound_db (store q')"
    using sound_db_frame [of "store q" "store q'"] sound_db_ids(1) [of "store q"] assms(3-) by simp
  then show ?thesis
    using assms(1,2) waiting_ids_cong [OF assms(3)] hand_ok_cong [OF running_ids_cong [OF assms(3)]]
    by (simp add: queue_ok_def)
qed

lemma enqueue_run:
  "enqueue e k p oid q = (Inr (next_task_id (store q)),
     q\<lparr>store := (ticked (store q))\<lparr>tasks := tasks (store q) @ [\<lparr>t_id = next_task_id (store q), t_kind = k, t_payload = p,
        t_requester_oid = oid, t_status = Pending, t_attempts = 0, t_last_error = None,
        t_scheduled_at = clock e (tick (store q)), t_picked_at = None, t_finished_at = None\<rparr>]\<rparr>,
       queues := q_put (queue_key oid) (next_task_id (store q)) (queues q)\<rparr>)"
  by (simp add: enqueue_def insert_task_def on_store_def bnd_def now_iso_def ask_def gets_def modify_def ret_def
      w_tasks_def next_task_id_def ticked_def)

lemma ok_enqueue:
  assumes "queue_ok q \<and> hand_ok c (store q)"
  shows "queue_ok (snd (enqueue e k p oid q)) \<and> hand_ok c (store (snd (enqueue e k p oid q)))"
proof -
  let ?q = "snd (enqueue e k p oid q)"
  have db: "sound_db (store q)" and keys: "keys_distinct (queues q)"
    and wait: "\<And>k. mset (queue_view (queues q) k) = waiting_ids k (store q)"
    using assms by (simp_all add: queue_ok_def)
  have "sound_db (store ?q)"
    using next_task_id_fresh [of "store q"] sound_db_ids [OF db]
    by (intro sound_db_frame [OF db]) (simp_all add: enqueue_run)
  moreover have "mset (queue_view (queues ?q) j) = waiting_ids j (store ?q)" for j
  proof -
    have "waiting_ids j (store ?q) = waiting_ids j (store q) + (if j = queue_key oid then {#next_task_id (store q)#} else {#})"
      by (auto simp: enqueue_run waiting_ids_def)
    moreover have "queues ?q = q_put (queue_key oid) (next_task_id (store q)) (queues q)" by (simp add: enqueue_run)
    then have "mset (queue_view (queues ?q) j)
        = mset (queue_view (queues q) j) + (if j = queue_key oid then {#next_task_id (store q)#} else {#})"
      using tq.view_put [OF keys, of "queue_key oid" "next_task_id (store q)"] by auto
    ultimately show ?thesis by (simp only: wait)
  qed
  moreover have "running_ids (store ?q) = running_ids (store q)"
    by (simp add: enqueue_run running_ids_def)
  moreover from this have "hand_ok c (store ?q) = hand_ok c (store q)" by (rule hand_ok_cong)
  moreover have "keys_distinct (queues ?q)" using q_put_distinct [OF keys] by (simp add: enqueue_run)
  ultimately show ?thesis using assms unfolding queue_ok_def by blast
qed

interpretation ok: producer_effects "\<lambda>q q'. queue_ok q \<and> hand_ok c (store q) \<longrightarrow> queue_ok q' \<and> hand_ok c (store q')" for c
proof unfold_locales
  let ?R = "\<lambda>q q'. queue_ok q \<and> hand_ok c (store q) \<longrightarrow> queue_ok q' \<and> hand_ok c (store q')"
  have ids: "distinct (map ev_event_id (events (store q)))" if "queue_ok q \<and> hand_ok c (store q)" for q
    using that sound_db_ids(2) by (simp add: queue_ok_def)
  show "steps ?R (on_store (event_seen i))" for i
    by (simp add: steps_def on_store_def event_seen_def gets_def)
  show "steps ?R (on_store (record_event e i sd ty mt n hs sm))" for e i sd ty mt n hs sm
    unfolding steps_def
  proof (intro allI impI)
    fix q assume ok: "queue_ok q \<and> hand_ok c (store q)"
    show "queue_ok (snd (on_store (record_event e i sd ty mt n hs sm) q))
        \<and> hand_ok c (store (snd (on_store (record_event e i sd ty mt n hs sm) q)))"
      using ids [OF ok]
      by (intro ok_events [OF ok])
         (auto simp: on_store_def record_event_def run_now_iso run_modify w_events_def event_ids_def)
  qed
  show "steps ?R (on_store (mark_event_handled i))" for i
    unfolding steps_def
  proof (intro allI impI)
    fix q assume ok: "queue_ok q \<and> hand_ok c (store q)"
    show "queue_ok (snd (on_store (mark_event_handled i) q)) \<and> hand_ok c (store (snd (on_store (mark_event_handled i) q)))"
      using ids [OF ok]
      by (intro ok_events [OF ok])
         (auto simp: on_store_def mark_event_handled_def run_modify w_events_def comp_def if_distrib cong: if_cong)
  qed
  show "steps ?R (enqueue e k pl oid)" for e k pl oid
    using ok_enqueue by (auto simp: steps_def)
qed

text \<open>Rewriting the row of one task, the ids being distinct.\<close>

lemma filter_update_row:
  assumes "distinct (map t_id ts)" and "t \<in> set ts" and same: "\<And>u. t_id (g u) = t_id u"
  shows "mset (map t_id (filter P (map (\<lambda>u. if t_id u = t_id t then g u else u) ts)))
       + (if P t then {#t_id t#} else {#})
     = mset (map t_id (filter P ts)) + (if P (g t) then {#t_id t#} else {#})"
proof -
  obtain xs ys where ts: "ts = xs @ t # ys" using assms(2) by (meson split_list)
  have "map (\<lambda>u. if t_id u = t_id t then g u else u) xs = xs" "map (\<lambda>u. if t_id u = t_id t then g u else u) ys = ys"
    using assms(1) unfolding ts by (auto intro!: map_idI) (metis imageI)+
  then show ?thesis unfolding ts by (simp add: same)
qed

lemma row_of_waiting:
  assumes "tid \<in># waiting_ids k w"
  obtains t where "t \<in> set (tasks w)" "t_id t = tid" "t_status t = Pending" "queue_key (t_requester_oid t) = k"
  using assms by (auto simp: waiting_ids_def)

lemma distinct_row: "distinct (map t_id ts) \<Longrightarrow> t \<in> set ts \<Longrightarrow> u \<in> set ts \<Longrightarrow> t_id t = t_id u \<Longrightarrow> t = u"
  by (metis distinct_map inj_onD)

text \<open>Taking: the head of a queue becomes the running task.\<close>

lemma take_ok:
  fixes e :: env
  assumes "queue_ok q" and "running_ids (store q) = {#}" and "take_first (queues q) = Some (tid, qs')"
  defines "q' \<equiv> q\<lparr>queues := qs', store := snd (mark_task_running e tid (store q))\<rparr>"
  shows "queue_ok q' \<and> hand_ok (Some (tid, find (\<lambda>t. t_id t = tid) (tasks (store q')))) (store q')"
proof -
  let ?g = "\<lambda>t. t\<lparr>t_status := Running, t_picked_at := Some (clock e (tick (store q))), t_attempts := Suc (t_attempts t)\<rparr>"
  have db: "sound_db (store q)" and keys: "keys_distinct (queues q)"
    and wait: "\<And>k. mset (queue_view (queues q) k) = waiting_ids k (store q)"
    using assms(1) by (simp_all add: queue_ok_def)
  note ids = sound_db_ids(1) [OF db]
  obtain k where k: "queue_view (queues q) k = tid # queue_view qs' k"
    and others: "\<And>j. j \<noteq> k \<Longrightarrow> queue_view qs' j = queue_view (queues q) j"
    using take_first_view [OF assms(3) keys] by blast
  have "tid \<in># waiting_ids k (store q)" using wait [of k] k by (metis list.set_intros(1) set_mset_mset)
  then obtain t where t: "t \<in> set (tasks (store q))" "t_id t = tid" "t_status t = Pending"
    "queue_key (t_requester_oid t) = k" by (rule row_of_waiting)
  have rows: "tasks (store q') = map (\<lambda>u. if t_id u = t_id t then ?g u else u) (tasks (store q))"
    by (simp add: q'_def running_run t(2))
  have "t_id (?g u) = t_id u" for u by simp
  note update = filter_update_row [where g = ?g, OF ids t(1) this, folded rows, unfolded t(2)]
  have "waiting_ids j (store q') + (if j = k then {#tid#} else {#}) = waiting_ids j (store q)" for j
    using update [of "\<lambda>u. t_status u = Pending \<and> queue_key (t_requester_oid u) = j"] t(3,4)
    unfolding waiting_ids_def by (cases "j = k") simp_all
  then have waiting: "waiting_ids j (store q) = waiting_ids j (store q') + (if j = k then {#tid#} else {#})" for j
    by simp
  have "mset (queue_view qs' j) = waiting_ids j (store q')" for j
  proof (cases "j = k")
    case True
    have "add_mset tid (mset (queue_view qs' k)) = add_mset tid (waiting_ids k (store q'))"
      using wait [of k] waiting [of k] unfolding k by simp
    with True show ?thesis by simp
  next
    case False
    then show ?thesis using wait [of j] waiting [of j] others [of j] by simp
  qed
  moreover have "running_ids (store q') = {#tid#}"
    using update [of "\<lambda>u. t_status u = Running"] t assms(2) by (simp add: running_ids_def)
  moreover have "sound_db (store q')"
    using ids sound_db_ids(2) [OF db]
    by (intro sound_db_frame [OF db]) (auto simp: q'_def running_run comp_def if_distrib cong: if_cong)
  moreover have "find (\<lambda>t. t_id t = tid) (tasks (store q')) = Some (?g t)"
  proof -
    have "find (\<lambda>t. t_id t = tid) ts = Some t" if "distinct (map t_id ts)" "t \<in> set ts" for ts
      using that t(2) by (induction ts) (auto simp: rev_image_eqI)
    then have "find (\<lambda>t. t_id t = tid) (tasks (store q)) = Some t" using ids t(1) by blast
    moreover have "find (\<lambda>u. t_id u = tid) (map (\<lambda>u. if t_id u = tid then ?g u else u) ts)
        = map_option ?g (find (\<lambda>u. t_id u = tid) ts)" for ts :: "task list"
      by (induction ts) auto
    ultimately show ?thesis by (simp add: rows t(2))
  qed
  moreover have "keys_distinct qs'" using take_first_keys [OF assms(3)] keys by (simp add: keys_distinct_def)
  ultimately show ?thesis using t(2) by (simp add: queue_ok_def hand_ok_def) (simp add: q'_def)
qed

lemma worker_takes_ok:
  assumes "process_ok p"
  shows "process_ok (worker_takes e p)"
proof (cases "in_hand p")
  case None
  then have ok: "queue_ok (proc_queue p)" "running_ids (proc_db p) = {#}"
    using assms by (simp_all add: process_ok_def hand_ok_def)
  show ?thesis
  proof (cases "take_first (queues (proc_queue p))")
    case None
    then show ?thesis
      using \<open>in_hand p = None\<close> ok
      by (simp add: worker_takes_def next_task_waits set_queue_def process_ok_def hand_ok_def)
  next
    case (Some r)
    obtain tid qs' where r: "r = (tid, qs')" by fastforce
    show ?thesis
      using \<open>in_hand p = None\<close> take_ok [OF ok Some [unfolded r], of e]
      by (simp add: worker_takes_def next_task_run [OF Some [unfolded r]] set_queue_def process_ok_def)
  qed
qed (use assms in \<open>simp add: worker_takes_def\<close>)

text \<open>Ending: no row is pending or running that was not before, and the one in hand is neither.\<close>

lemma running_ids_finish:
  assumes "finishes tid g" and "tasks w' = map g (tasks w)"
  shows "running_ids w' = filter_mset (\<lambda>i. i \<noteq> tid) (running_ids w)"
proof -
  have "mset (map t_id (filter (\<lambda>t. t_status t = Running) (map g ts)))
      = filter_mset (\<lambda>i. i \<noteq> tid) (mset (map t_id (filter (\<lambda>t. t_status t = Running) ts)))" for ts
  proof (induction ts)
    case (Cons t ts)
    have "t_id t = tid \<Longrightarrow> t_status (g t) \<noteq> Running" "t_id t \<noteq> tid \<Longrightarrow> g t = t" "t_id (g t) = t_id t"
      using assms(1) unfolding finishes_def by (metis task_status.distinct)+
    with Cons.IH show ?case by (cases "t_id t = tid") simp_all
  qed simp
  then show ?thesis by (simp add: running_ids_def assms(2))
qed

lemma waiting_ids_finish:
  assumes "finishes tid g" and "tasks w' = map g (tasks w)" and "tid \<in># running_ids w"
    and "distinct (map t_id (tasks w))"
  shows "waiting_ids k w' = waiting_ids k w"
proof -
  obtain r where r: "r \<in> set (tasks w)" "t_id r = tid" "t_status r = Running"
    using assms(3) by (auto simp: running_ids_def)
  have same: "(t_status (g t) = Pending \<and> queue_key (t_requester_oid (g t)) = k \<longleftrightarrow>
      t_status t = Pending \<and> queue_key (t_requester_oid t) = k) \<and> t_id (g t) = t_id t" if "t \<in> set (tasks w)" for t
  proof (cases "t_id t = tid")
    case True
    then have "t = r" using distinct_row [OF assms(4) that r(1)] r(2) by simp
    with r assms(1) show ?thesis unfolding finishes_def by (metis task_status.distinct)
  next
    case False
    then have "g t = t" using assms(1) by (simp add: finishes_def)
    then show ?thesis by simp
  qed
  have "map t_id (filter (\<lambda>t. t_status t = Pending \<and> queue_key (t_requester_oid t) = k) (map g (tasks w)))
      = map t_id (filter (\<lambda>t. t_status t = Pending \<and> queue_key (t_requester_oid t) = k) (tasks w))"
    using same by (simp add: filter_map comp_def cong: filter_cong)
  then show ?thesis by (simp add: waiting_ids_def assms(2))
qed

lemma sound_db_writes: "handler_writes w w' \<Longrightarrow> sound_db w \<Longrightarrow> sound_db w'"
  using one_active.writes_R integrity.writes_R by (simp add: sound_db_def)

lemma sound_db_dispatch: "scans_ok e \<Longrightarrow> sound_db w \<Longrightarrow> sound_db (snd (dispatch e t w))"
  using sound_db_writes [OF dispatch_writes] .

lemma dispatch_frame:
  "tasks (snd (dispatch e t w)) = tasks w" "events (snd (dispatch e t w)) = events w"
  using stepsD [OF history.steps_dispatch, of w e t] by (simp_all add: history_def)

lemma finish_ok:
  assumes "scans_ok e" and "queue_ok q" and "running_ids (store q) = {#tid#}"
  shows "queue_ok (snd (finish_task e tid t q)) \<and> running_ids (store (snd (finish_task e tid t q))) = {#}"
proof -
  obtain g v n where run: "finish_task e tid t q = (Inr (), q\<lparr>store := v\<lparr>tasks := map g (tasks (store q))\<rparr>\<rparr>)"
    and g: "finishes tid g" and v: "v = (snd (dispatch e t (store q)))\<lparr>tick := n\<rparr>"
    using finish_task_run [of e tid t q] by blast
  let ?q = "q\<lparr>store := v\<lparr>tasks := map g (tasks (store q))\<rparr>\<rparr>"
  have db: "sound_db (store q)" using assms(2) by (simp add: queue_ok_def)
  have "sound_db (snd (dispatch e t (store q)))" using assms(1) db by (rule sound_db_dispatch)
  then have "sound_db (store ?q)"
    by (rule sound_db_frame)
       (use sound_db_ids [OF db] finishes_ids [OF g] in \<open>simp_all add: v dispatch_frame del: map_map\<close>)
  moreover have "waiting_ids k (store ?q) = waiting_ids k (store q)" for k
    using assms(3) by (intro waiting_ids_finish [OF g _ _ sound_db_ids(1) [OF db]]) simp_all
  moreover have "running_ids (store ?q) = {#}"
    using running_ids_finish [OF g, of "store ?q" "store q"] assms(3) by simp
  ultimately show ?thesis using assms(2) by (simp add: run queue_ok_def)
qed

lemma worker_ends_ok:
  assumes "scans_ok e" and "process_ok p"
  shows "process_ok (worker_ends e p)"
proof (cases "in_hand p")
  case (Some c)
  then obtain tid t where c: "in_hand p = Some (tid, Some t)" "running_ids (proc_db p) = {#tid#}"
    using assms(2) by (cases c; cases "snd c") (auto simp: process_ok_def hand_ok_def split: option.splits)
  then show ?thesis
    using finish_ok [OF assms(1) _ c(2), of t] assms(2)
    by (simp add: worker_ends_def set_queue_def process_ok_def hand_ok_def)
qed (use assms in \<open>simp add: worker_ends_def\<close>)

text \<open>Starting: the queues are built from the table.\<close>

lemma replay_ok:
  assumes "scans_ok e" and "sound_db (store q)" and "queues q = []"
  shows "queue_ok (snd (replay_pending e q)) \<and> running_ids (store (snd (replay_pending e q))) = {#}"
proof -
  obtain q' where run: "snd (replay_pending e q) = q'"
    and st: "store q' = (store q)\<lparr>tasks := map recover_task (tasks (store q))\<rparr>" and keys: "keys_distinct (queues q')"
    and none: "list_all (\<lambda>t. t_status t \<noteq> Running) (tasks (store q'))"
    and view: "\<And>k. queue_view (queues q') k =
         map t_id (filter (\<lambda>t. queue_key (t_requester_oid t) = k) (pending_tasks e (store q')))"
    using replay_pending_run [OF assms(1,3)] by auto
  have "mset (pending_tasks e (store q')) = mset (filter (\<lambda>t. t_status t = Pending) (tasks (store q')))"
    using assms(1) by (simp add: pending_tasks_def scans_ok_def)
  then have "mset (queue_view (queues q') k) = waiting_ids k (store q')" for k
    by (simp add: view waiting_ids_def filter_filter_mset conj_commute)
  moreover have "sound_db (store q')"
    using sound_db_ids [OF assms(2)]
    by (intro sound_db_frame [OF assms(2)]) (simp_all add: st comp_def recover_task_def if_distrib cong: if_cong)
  moreover have "running_ids (store q') = {#}"
    using none by (simp add: running_ids_def list_all_iff)
  ultimately show ?thesis using keys by (simp add: run queue_ok_def)
qed

lemma queue_then_kept:
  assumes "\<And>a. steps queue_kept (f a)"
  shows "sq (snd (bnd (on_queue m) f s)) = snd (m (sq s))"
proof -
  obtain r q where m: "m (sq s) = (r, q)" by fastforce
  then have run: "on_queue m s = (r, s\<lparr>sq := q\<rparr>)" by (simp add: on_queue_def)
  show ?thesis
  proof (cases r)
    case (Inl x)
    with run m show ?thesis by (simp add: bnd_Inl)
  next
    case (Inr a)
    with run m assms [of a] show ?thesis by (simp add: bnd_Inr steps_def queue_kept_def)
  qed
qed

lemma kept_slack_start: "steps queue_kept (slack_start se bt appt)"
proof -
  have "steps queue_kept (resolve_bot_user_id se)"
    by (simp add: steps_def queue_kept_def resolve_bot_user_id_def bnd_def s_look_def modify_def ret_def split: sum.splits)
  then show ?thesis unfolding slack_start_def by (intro queue_kept.steps_intros)
qed

lemma boot_queue:
  "proc_queue (boot st p) = snd (replay_pending (st_env st) ((proc_queue p)\<lparr>queues := []\<rparr>))"
proof -
  have start: "sq (snd (app_start e se slack s)) = snd (replay_pending e (sq s))" for e se slack s
    unfolding app_start_def by (intro queue_then_kept queue_kept.steps_intros) (rule kept_slack_start)
  let ?read = "case st_slack_tokens st of None \<Rightarrow> ret () | Some _ \<Rightarrow> set_persistence_path (st_slack st)"
  have read: "fst (?read v) = Inr () \<and> sq (snd (?read v)) = sq v" for v
    by (simp add: ret_def set_persistence_path_def modify_def split: option.splits sum.splits json.splits)
  obtain v where "?read (fresh_memory st (adapter p)) = (Inr (), v)" "sq v = sq (fresh_memory st (adapter p))"
    using read [of "fresh_memory st (adapter p)"] by (metis prod.collapse)
  then show ?thesis by (simp add: boot_def bnd_Inr [where m = ?read] start fresh_memory_def)
qed

lemma boot_ok:
  assumes "scans_ok (st_env st)" and "sound_db (proc_db p)"
  shows "process_ok (boot st p)"
  using replay_ok [OF assms(1), of "(proc_queue p)\<lparr>queues := []\<rparr>"] assms(2) boot_queue [of st p]
  by (simp add: process_ok_def hand_ok_def) (simp add: boot_def)

lemma shut_down_queue: "proc_queue (shut_down st p) = proc_queue p"
  by (simp add: shut_down_def app_stop_def slack_stop_def save_thread_participation_def modify_def ret_def
      split: option.splits)

section \<open>Reachable states\<close>

lemma producers_ok:
  "process_ok p \<Longrightarrow> process_ok (request_arrives st h raw p)"
  "process_ok p \<Longrightarrow> process_ok (slack_event_arrives st ev p)"
  using stepsD [OF ok.steps_lark_webhook [where c = "in_hand p"], of "proc_queue p"]
    stepsD [OF ok.steps_deliver_event [where c = "in_hand p"], of "adapter p"]
  by (simp_all add: process_ok_def request_arrives_def slack_event_arrives_def set_queue_def)

lemma step_ok:
  assumes "system_step st p p'" and "scans_ok (st_env st)" and "process_ok p"
  shows "process_ok p'"
  using assms
proof (induction rule: system_step.induct)
  case (crash p)
  then have "sound_db (proc_db p)" by (simp add: process_ok_def queue_ok_def)
  with crash show ?case by (intro boot_ok)
next
  case (crash_inside p w)
  then have "sound_db (proc_db p)" by (simp add: process_ok_def queue_ok_def)
  then have "sound_db w" by (rule sound_db_writes [OF crash_inside.hyps(2)])
  with crash_inside show ?case by (intro boot_ok) (simp_all add: set_queue_def)
next
  case (restart p)
  then have "sound_db (proc_db (shut_down st p))" by (simp add: process_ok_def queue_ok_def shut_down_queue)
  with restart show ?case by (intro boot_ok)
qed (simp_all add: producers_ok worker_takes_ok worker_ends_ok)

lemma reachable_ok: "reachable st p \<Longrightarrow> scans_ok (st_env st) \<Longrightarrow> process_ok p"
  by (induction rule: reachable.induct) (auto intro: boot_ok step_ok)

text \<open>C1: However requests, Slack events, worker turns and restarts interleave, the tables keep their keys
  and references, no requester ever has two active sessions, every pending task waits exactly once,
  in the queue of its requester, and a task is marked running if and only if the worker has it in
  hand.\<close>

theorem reachable_states_are_sound:
  assumes "reachable st p" and "scans_ok (st_env st)"
  shows "db_wf (proc_db p) \<and> (\<forall>oid. active_count (proc_db p) oid \<le> 1)
    \<and> (\<forall>k. mset (queue_view (queues (proc_queue p)) k) = mset (map t_id
         (filter (\<lambda>t. t_status t = Pending \<and> queue_key (t_requester_oid t) = k) (tasks (proc_db p)))))
    \<and> mset (map t_id (filter (\<lambda>t. t_status t = Running) (tasks (proc_db p))))
        = (case in_hand p of None \<Rightarrow> {#} | Some (tid, t) \<Rightarrow> {#tid#})"
  using reachable_ok [OF assms]
  by (auto simp: process_ok_def queue_ok_def hand_ok_def sound_db_def waiting_ids_def running_ids_def
      simp del: mset_map mset_filter split: option.splits)

section \<open>Progress\<close>

text \<open>Turns of the worker alone, after what it has in hand.\<close>

definition worker_turn :: "env \<Rightarrow> process \<Rightarrow> process" where
  "worker_turn e p = worker_ends e (worker_takes e p)"

fun worker_runs :: "env \<Rightarrow> nat \<Rightarrow> process \<Rightarrow> process" where
  "worker_runs e 0 p = worker_ends e p"
| "worker_runs e (Suc n) p = worker_turn e (worker_runs e n p)"

lemma turns_reachable: "reachable st p \<Longrightarrow> reachable st (worker_runs (st_env st) n p)"
  unfolding worker_turn_def
  by (induction n) (auto simp: worker_turn_def intro: reachable.step system_step.intros)

lemma takes_ids: "map t_id (tasks (proc_db (worker_takes e p))) = map t_id (tasks (proc_db p))"
proof (cases "take_first (queues (proc_queue p))")
  case None
  then show ?thesis by (simp add: worker_takes_def next_task_waits set_queue_def split: option.split)
next
  case (Some r)
  obtain tid qs' where r: "r = (tid, qs')" by fastforce
  show ?thesis
    by (simp add: worker_takes_def next_task_run [OF Some [unfolded r]] set_queue_def running_run comp_def if_distrib
        cong: if_cong split: option.split)
qed

lemma ends_ids: "map t_id (tasks (proc_db (worker_ends e p))) = map t_id (tasks (proc_db p))"
proof -
  have "map t_id (tasks (store (snd (finish_task e tid t q)))) = map t_id (tasks (store q))" for tid t q
    using finish_task_run [of e tid t q] finishes_ids [of tid _ "tasks (store q)"] by auto
  then show ?thesis by (auto simp: worker_ends_def set_queue_def split: option.split)
qed

lemma ends_queues: "queues (proc_queue (worker_ends e p)) = queues (proc_queue p)"
proof -
  have "queues (snd (finish_task e tid t q)) = queues q" for tid t q
    using finish_task_run [of e tid t q] by auto
  then show ?thesis by (auto simp: worker_ends_def set_queue_def split: option.split)
qed

lemma ends_hand: "process_ok p \<Longrightarrow> in_hand (worker_ends e p) = None"
  by (auto simp: process_ok_def hand_ok_def worker_ends_def split: option.splits)

lemma takes_waiting:
  "in_hand p = None \<Longrightarrow>
   length (queued_ids (queues (proc_queue (worker_takes e p)))) = length (queued_ids (queues (proc_queue p))) - 1"
proof (cases "take_first (queues (proc_queue p))")
  case None
  assume "in_hand p = None"
  with None take_first_waiting [OF None] show ?thesis
    by (simp add: worker_takes_def next_task_waits set_queue_def)
next
  case (Some r)
  assume free: "in_hand p = None"
  obtain tid qs' where r: "r = (tid, qs')" by fastforce
  have "length (queued_ids (queues (proc_queue p))) = Suc (length (queued_ids qs'))"
    using arg_cong [OF take_first_mset [OF Some [unfolded r]], of size] by simp
  with free show ?thesis by (simp add: worker_takes_def next_task_run [OF Some [unfolded r]] set_queue_def)
qed

lemma worker_runs_drain:
  assumes "process_ok p" and "scans_ok e"
  shows "process_ok (worker_runs e n p) \<and> in_hand (worker_runs e n p) = None
    \<and> length (queued_ids (queues (proc_queue (worker_runs e n p)))) = length (queued_ids (queues (proc_queue p))) - n
    \<and> map t_id (tasks (proc_db (worker_runs e n p))) = map t_id (tasks (proc_db p))"
proof (induction n)
  case 0
  then show ?case using worker_ends_ok [OF assms(2,1)] ends_hand [OF assms(1)] by (simp add: ends_ids ends_queues)
next
  case (Suc n)
  let ?t = "worker_takes e (worker_runs e n p)"
  have "process_ok ?t" using Suc.IH by (simp add: worker_takes_ok)
  then show ?case
    using Suc.IH worker_ends_ok [OF assms(2)] ends_hand takes_waiting [of "worker_runs e n p" e]
    by (simp add: worker_turn_def ends_ids takes_ids ends_queues)
qed

lemma drained_finished:
  assumes "process_ok p" and "in_hand p = None" and "queued_ids (queues (proc_queue p)) = []"
  shows "list_all (\<lambda>t. t_status t = Done \<or> t_status t = Failed) (tasks (proc_db p))"
  unfolding list_all_iff
proof
  fix t assume t: "t \<in> set (tasks (proc_db p))"
  let ?k = "queue_key (t_requester_oid t)"
  have "queue_view qs k = []" if "queued_ids qs = []" for qs k
    using that by (force simp: queued_ids_def queue_view_def split: option.split dest: map_of_SomeD)
  then have "waiting_ids ?k (proc_db p) = {#}"
    using assms(1,3) by (metis mset.simps(1) process_ok_def queue_ok_def)
  then have "t_status t \<noteq> Pending" using t by (auto simp: waiting_ids_def filter_empty_conv simp del: mset_map mset_filter)
  moreover have "running_ids (proc_db p) = {#}" using assms(1,2) by (simp add: process_ok_def hand_ok_def)
  then have "t_status t \<noteq> Running" using t by (auto simp: running_ids_def filter_empty_conv simp del: mset_map mset_filter)
  ultimately show "t_status t = Done \<or> t_status t = Failed" by (cases "t_status t") auto
qed

text \<open>C8: Nothing that was accepted is left undone: from every reachable state, through whatever requests,
  crashes and restarts it was reached, as many turns of the worker as tasks are waiting bring every
  task of the table to done or failed, and no task disappears.\<close>

theorem every_task_is_finished:
  assumes "reachable st p" and "scans_ok (st_env st)"
  defines "p' \<equiv> worker_runs (st_env st) (length (queued_ids (queues (proc_queue p)))) p"
  shows "reachable st p' \<and> list_all (\<lambda>t. t_status t = Done \<or> t_status t = Failed) (tasks (proc_db p'))
    \<and> map t_id (tasks (proc_db p')) = map t_id (tasks (proc_db p))"
proof -
  let ?n = "length (queued_ids (queues (proc_queue p)))"
  have "process_ok p' \<and> in_hand p' = None \<and> length (queued_ids (queues (proc_queue p'))) = 0
      \<and> map t_id (tasks (proc_db p')) = map t_id (tasks (proc_db p))"
    using worker_runs_drain [OF reachable_ok [OF assms(1,2)] assms(2), of ?n] unfolding p'_def by simp
  moreover from this have "list_all (\<lambda>t. t_status t = Done \<or> t_status t = Failed) (tasks (proc_db p'))"
    by (intro drained_finished) simp_all
  ultimately show ?thesis using turns_reachable [OF assms(1)] unfolding p'_def by blast
qed

section \<open>Tasks\<close>

text \<open>\<open>tasks_kept\<close>: no task disappears, and one that is done or failed stays as it is.\<close>

definition tasks_kept :: "qstate \<Rightarrow> qstate \<Rightarrow> bool" where
  "tasks_kept q q' \<longleftrightarrow> prefix (map t_id (tasks (store q))) (map t_id (tasks (store q')))
     \<and> list_all (\<lambda>t. t_status t = Done \<or> t_status t = Failed \<longrightarrow> t \<in> set (tasks (store q'))) (tasks (store q))"

lemma tasks_kept_trans: "tasks_kept p q \<Longrightarrow> tasks_kept q r \<Longrightarrow> tasks_kept p r"
  unfolding tasks_kept_def list_all_iff using prefix_order.trans by blast

lemma tasks_kept_map:
  assumes "tasks (store q') = map g (tasks (store q))"
    and "\<And>t. t \<in> set (tasks (store q)) \<Longrightarrow> t_id (g t) = t_id t \<and> (t_status t = Done \<or> t_status t = Failed \<longrightarrow> g t = t)"
  shows "tasks_kept q q'"
proof -
  have "map t_id (tasks (store q')) = map t_id (tasks (store q))" using assms by simp
  moreover have "t \<in> set (tasks (store q'))"
    if "t \<in> set (tasks (store q))" "t_status t = Done \<or> t_status t = Failed" for t
    using assms(2) [OF that(1)] that by (force simp: assms(1))
  ultimately show ?thesis by (simp add: tasks_kept_def list_all_iff)
qed

lemma tasks_kept_same: "tasks (store q') = tasks (store q) \<Longrightarrow> tasks_kept q q'"
  using tasks_kept_map [of q' "\<lambda>t. t" q] by simp

interpretation kept: producer_effects tasks_kept
proof unfold_locales
  show "tasks_kept q q" for q by (simp add: tasks_kept_same)
  show "tasks_kept p q \<Longrightarrow> tasks_kept q r \<Longrightarrow> tasks_kept p r" for p q r by (rule tasks_kept_trans)
  show "steps tasks_kept (on_store (event_seen i))" for i
    by (intro stepsI tasks_kept_same) (simp add: on_store_def event_seen_def gets_def)
  show "steps tasks_kept (on_store (record_event e i sd ty mt n hs sm))" for e i sd ty mt n hs sm
    by (intro stepsI tasks_kept_same) (simp add: on_store_def record_event_def run_now_iso run_modify w_events_def)
  show "steps tasks_kept (on_store (mark_event_handled i))" for i
    by (intro stepsI tasks_kept_same) (simp add: on_store_def mark_event_handled_def run_modify w_events_def)
  show "steps tasks_kept (enqueue e k pl oid)" for e k pl oid
    by (rule stepsI) (simp add: tasks_kept_def enqueue_run list_all_iff)
qed

lemma takes_kept:
  assumes "process_ok p"
  shows "tasks_kept (proc_queue p) (proc_queue (worker_takes e p))"
proof (cases "in_hand p = None \<and> take_first (queues (proc_queue p)) \<noteq> None")
  case True
  then obtain tid qs' where t: "take_first (queues (proc_queue p)) = Some (tid, qs')" by auto
  have q: "queue_ok (proc_queue p)" using assms by (simp add: process_ok_def)
  then have keys: "keys_distinct (queues (proc_queue p))" by (simp add: queue_ok_def)
  obtain k where "queue_view (queues (proc_queue p)) k = tid # queue_view qs' k"
    using take_first_view [OF t keys] by blast
  then have "tid \<in># waiting_ids k (proc_db p)" using q unfolding queue_ok_def by (metis list.set_intros(1) set_mset_mset)
  then obtain r where r: "r \<in> set (tasks (proc_db p))" "t_id r = tid" "t_status r = Pending" by (rule row_of_waiting)
  have ids: "distinct (map t_id (tasks (proc_db p)))" using q sound_db_ids(1) by (simp add: queue_ok_def)
  let ?g = "\<lambda>u. if t_id u = tid then u\<lparr>t_status := Running, t_picked_at := Some (clock e (tick (proc_db p))),
     t_attempts := Suc (t_attempts u)\<rparr> else u"
  have "tasks (proc_db (worker_takes e p)) = map ?g (tasks (proc_db p))"
    using True by (simp add: worker_takes_def next_task_run [OF t] set_queue_def running_run)
  moreover have "t_id t \<noteq> tid" if "t \<in> set (tasks (proc_db p))" "t_status t = Done \<or> t_status t = Failed" for t
    using distinct_row [OF ids that(1) r(1)] that(2) r by auto
  ultimately show ?thesis by (intro tasks_kept_map [where g = ?g]) auto
next
  case False
  then consider c where "in_hand p = Some c" | "in_hand p = None" "take_first (queues (proc_queue p)) = None"
    by (cases "in_hand p") blast+
  then have "proc_queue (worker_takes e p) = proc_queue p"
    by cases (simp_all add: worker_takes_def next_task_waits set_queue_def)
  then show ?thesis by (simp add: tasks_kept_same)
qed

lemma ends_kept:
  assumes "process_ok p"
  shows "tasks_kept (proc_queue p) (proc_queue (worker_ends e p))"
proof (cases "in_hand p")
  case None
  then show ?thesis by (simp add: worker_ends_def tasks_kept_same)
next
  case (Some c)
  then obtain tid t where c: "in_hand p = Some (tid, Some t)" "running_ids (proc_db p) = {#tid#}"
    using assms by (cases c; cases "snd c") (auto simp: process_ok_def hand_ok_def split: option.splits)
  obtain g v where run: "finish_task e tid t (proc_queue p)
      = (Inr (), (proc_queue p)\<lparr>store := v\<lparr>tasks := map g (tasks (proc_db p))\<rparr>\<rparr>)" and g: "finishes tid g"
    using finish_task_run by blast
  have ids: "distinct (map t_id (tasks (proc_db p)))"
    using assms sound_db_ids(1) by (simp add: process_ok_def queue_ok_def)
  have "tid \<in># running_ids (proc_db p)" using c(2) by simp
  then obtain r where r: "r \<in> set (tasks (proc_db p))" "t_id r = tid" "t_status r = Running"
    by (auto simp: running_ids_def)
  have "t_id u \<noteq> tid" if "u \<in> set (tasks (proc_db p))" "t_status u = Done \<or> t_status u = Failed" for u
    using distinct_row [OF ids that(1) r(1)] that(2) r by auto
  then have "t_id (g u) = t_id u \<and> (t_status u = Done \<or> t_status u = Failed \<longrightarrow> g u = u)"
    if "u \<in> set (tasks (proc_db p))" for u
    using g that by (auto simp: finishes_def)
  then show ?thesis
    by (intro tasks_kept_map [where g = g]) (simp_all add: worker_ends_def c(1) set_queue_def run)
qed

lemma boot_kept:
  assumes "scans_ok (st_env st)"
  shows "tasks_kept (proc_queue p) (proc_queue (boot st p))"
proof -
  obtain q' where "snd (replay_pending (st_env st) ((proc_queue p)\<lparr>queues := []\<rparr>)) = q'"
    "store q' = (proc_db p)\<lparr>tasks := map recover_task (tasks (proc_db p))\<rparr>"
    using replay_pending_run [OF assms, of "(proc_queue p)\<lparr>queues := []\<rparr>"] by auto
  then show ?thesis
    by (intro tasks_kept_map [where g = recover_task]) (auto simp: boot_queue recover_task_def)
qed

lemma step_kept:
  assumes "system_step st p p'" and "scans_ok (st_env st)" and "process_ok p"
  shows "tasks_kept (proc_queue p) (proc_queue p')"
  using assms
proof (induction rule: system_step.induct)
  case (request p h raw)
  show ?case using stepsD [OF kept.steps_lark_webhook] by (simp add: request_arrives_def set_queue_def)
next
  case (slack_event p ev)
  show ?case using stepsD [OF kept.steps_deliver_event, of "adapter p"] by (simp add: slack_event_arrives_def)
next
  case (crash_inside p w)
  let ?q = "(proc_queue p)\<lparr>store := w\<rparr>"
  have "tasks w = tasks (proc_db p)" using history.writes_R [OF crash_inside.hyps(2)] by (simp add: history_def)
  then have "tasks_kept (proc_queue p) ?q" by (intro tasks_kept_same) simp
  with boot_kept [OF crash_inside.prems(1), of "set_queue p ?q"] show ?case
    using tasks_kept_trans by (fastforce simp: set_queue_def)
next
  case (restart p)
  then show ?case using boot_kept [of st "shut_down st p"] by (simp add: shut_down_queue)
qed (simp_all add: takes_kept ends_kept boot_kept)

text \<open>C9: However the process goes on, crashes included, no task that was accepted disappears from the
  table, and a task that is done or failed keeps its row: it is never taken again.\<close>

theorem no_task_is_lost:
  assumes "(system_step st)\<^sup>*\<^sup>* p p'" and "reachable st p" and "scans_ok (st_env st)"
  shows "prefix (map t_id (tasks (proc_db p))) (map t_id (tasks (proc_db p')))
    \<and> (\<forall>t \<in> set (tasks (proc_db p)). t_status t = Done \<or> t_status t = Failed \<longrightarrow> t \<in> set (tasks (proc_db p')))"
proof -
  have "reachable st p' \<and> tasks_kept (proc_queue p) (proc_queue p')" using assms(1)
  proof (induction rule: rtranclp_induct)
    case base
    then show ?case using assms(2) by (simp add: tasks_kept_same)
  next
    case (step q r)
    then show ?case
      using step_kept [OF step.hyps(2) assms(3) reachable_ok [OF _ assms(3)]] tasks_kept_trans
      by (blast intro: reachable.step)
  qed
  then show ?thesis by (simp add: tasks_kept_def list_all_iff)
qed

section \<open>The threads of Slack\<close>

text \<open>\<open>app_start\<close> works on the queue, the clock and the bot's id.\<close>

definition threads_kept :: "slack_state \<Rightarrow> slack_state \<Rightarrow> bool" where
  "threads_kept s s' \<longleftrightarrow> sl_threads s' = sl_threads s"

interpretation threads_kept: state_relation threads_kept
  by unfold_locales (auto simp: threads_kept_def)

lemma threads_app_start: "steps threads_kept (app_start e se slack)"
proof -
  have "steps threads_kept (resolve_bot_user_id se)"
    by (simp add: steps_def threads_kept_def resolve_bot_user_id_def bnd_def s_look_def modify_def ret_def split: sum.splits)
  then have "steps threads_kept (slack_start se bt appt)" for bt appt
    unfolding slack_start_def by (intro threads_kept.steps_intros)
  moreover have "steps threads_kept (on_queue (replay_pending e))"
    by (auto simp: steps_def threads_kept_def on_queue_def split: prod.splits)
  ultimately show ?thesis unfolding app_start_def by (intro threads_kept.steps_intros)
qed

text \<open>C13: A restart forgets no thread the bot takes part in: after a shutdown and a start every channel has
  the threads it had before.\<close>

theorem threads_survive_shutdown:
  assumes "st_slack_tokens st \<noteq> None" and "distinct (map fst (sl_threads (adapter p)))"
    and "sl_threads (adapter p) \<noteq> []" and "\<forall>l. set (se_order (st_slack st) l) = set l"
    and "se_loads (st_slack st) (se_dumps (st_slack st) (threads_json (st_slack st) (sl_threads (adapter p))))
      = Inr (threads_json (st_slack st) (sl_threads (adapter p)))"
  shows "set (threads_of ch (sl_threads (adapter (boot st (shut_down st p)))))
    = set (threads_of ch (sl_threads (adapter p)))"
proof -
  let ?se = "st_slack st"
  let ?s = "fresh_memory st (adapter (shut_down st p))"
  obtain tok where tok: "st_slack_tokens st = Some tok" using assms(1) by blast
  have "boot st (shut_down st p) = \<lparr>adapter = snd (app_start (st_env st) ?se (st_slack_tokens st)
      (snd (set_persistence_path ?se ?s))), in_hand = None\<rparr>"
    by (simp add: boot_def tok set_persistence_path_def modify_bnd) (simp add: modify_def)
  then have "sl_threads (adapter (boot st (shut_down st p))) = sl_threads (snd (set_persistence_path ?se ?s))"
    using stepsD [OF threads_app_start, of "snd (set_persistence_path ?se ?s)"] by (simp add: threads_kept_def)
  moreover have "sl_file ?s = sl_file (snd (save_thread_participation ?se (adapter p)))" "sl_threads ?s = []"
    by (simp_all add: fresh_memory_def shut_down_def app_stop_def slack_stop_def tok)
  ultimately show ?thesis
    using threads_survive_restart [of "adapter p" ?se ?s ch] assms by simp
qed

section \<open>A concrete run\<close>

definition demo_site :: site where
  "demo_site = \<lparr>st_env = demo_env, st_slack = demo_slack_env, st_crypto = demo_crypto, st_encrypt_key = asc ''k'',
     st_verification_token = [], st_slack_tokens = None, st_bot_id = []\<rparr>"

definition demo_process :: process where
  "demo_process = boot demo_site \<lparr>adapter = demo_slack_state, in_hand = None\<rparr>"

definition busy_process :: process where
  "busy_process = worker_takes demo_env (request_arrives demo_site signed_headers (asc ''b'') demo_process)"

lemma busy_reachable: "reachable demo_site busy_process"
proof -
  have "active_count demo_world oid \<le> 1" for oid by (simp add: active_count_def demo_world_def)
  then have "sound_db demo_world" using demo_db_wf by (simp add: sound_db_def)
  then have "reachable demo_site demo_process"
    unfolding demo_process_def by (intro reachable.start) (simp add: demo_slack_state_def no_queues_def)
  then show ?thesis
    using system_step.takes [of demo_site "request_arrives demo_site signed_headers (asc ''b'') demo_process"]
    by (auto simp: busy_process_def demo_site_def intro: reachable.step system_step.request)
qed

theorem reachable_states_are_sound_witness:
  "db_wf (proc_db busy_process) \<and> in_hand busy_process \<noteq> None
   \<and> mset (map t_id (filter (\<lambda>t. t_status t = Running) (tasks (proc_db busy_process)))) = {#1#}"
proof -
  have "map_option fst (in_hand busy_process) = Some 1" by code_simp
  with reachable_states_are_sound [OF busy_reachable] show ?thesis
    by (auto simp: demo_site_def simp del: mset_map mset_filter split: option.splits)
qed

theorem every_task_is_finished_witness:
  "map t_id (tasks (proc_db (worker_runs demo_env 0 busy_process))) = [1]
   \<and> list_all (\<lambda>t. t_status t = Done \<or> t_status t = Failed) (tasks (proc_db (worker_runs demo_env 0 busy_process)))"
proof -
  have "queued_ids (queues (proc_queue busy_process)) = []" "map t_id (tasks (proc_db busy_process)) = [1]"
    by code_simp+
  with every_task_is_finished [OF busy_reachable] show ?thesis
    by (simp add: demo_site_def)
qed

text \<open>The worker dies inside the handler, after the stage was written, and the process starts again.\<close>

definition half_handled :: world where
  "half_handled = w_update_session (asc ''S1'') [Set_stage MERGING] (proc_db busy_process)"

definition crashed_process :: process where
  "crashed_process = boot demo_site (set_queue busy_process ((proc_queue busy_process)\<lparr>store := half_handled\<rparr>))"

theorem no_task_is_lost_witness:
  "prefix [1] (map t_id (tasks (proc_db crashed_process))) \<and> map s_stage (sessions (proc_db crashed_process)) = [MERGING]"
proof -
  have facts: "map_option fst (in_hand busy_process) = Some 1" "map t_id (tasks (proc_db busy_process)) = [1]"
    "map s_stage (sessions (proc_db crashed_process)) = [MERGING]"
    by code_simp+
  have "handler_write (proc_db busy_process) half_handled"
    unfolding half_handled_def by (rule handler_write.session_row) simp
  then have "system_step demo_site busy_process crashed_process"
    unfolding crashed_process_def using facts(1) by (intro system_step.crash_inside r_into_rtranclp) auto
  then have "(system_step demo_site)\<^sup>*\<^sup>* busy_process crashed_process" by (rule r_into_rtranclp)
  from no_task_is_lost [OF this busy_reachable] facts(2,3) show ?thesis by (simp add: demo_site_def)
qed

text \<open>A bot with a thread in each of two channels.\<close>

definition two_threads :: "(ustr \<times> ustr list) list" where
  "two_threads = [(asc ''C1'', [asc ''1.1'', asc ''2.2'']), (asc ''C2'', [asc ''3.3''])]"

definition filing_site :: site where
  "filing_site = demo_site\<lparr>st_slack := demo_slack_env\<lparr>se_loads := (\<lambda>t. Inr (threads_json demo_slack_env two_threads))\<rparr>,
     st_slack_tokens := Some (asc ''xoxb'', asc ''xapp'')\<rparr>"

definition chatting_process :: process where
  "chatting_process = demo_process\<lparr>adapter := (adapter demo_process)\<lparr>sl_threads := two_threads\<rparr>\<rparr>"

theorem threads_survive_shutdown_witness:
  "set (threads_of (asc ''C1'') (sl_threads (adapter (boot filing_site (shut_down filing_site chatting_process)))))
     = {asc ''1.1'', asc ''2.2''}"
proof -
  have "threads_json (st_slack filing_site) ths = threads_json demo_slack_env ths" for ths
    by (simp add: threads_json_def filing_site_def)
  then have "set (threads_of (asc ''C1'') (sl_threads (adapter (boot filing_site (shut_down filing_site chatting_process)))))
      = set (threads_of (asc ''C1'') (sl_threads (adapter chatting_process)))"
    by (intro threads_survive_shutdown)
       (simp_all add: filing_site_def chatting_process_def two_threads_def demo_slack_env_def)
  then show ?thesis by (simp add: chatting_process_def two_threads_def threads_of_def)
qed

end
