(* ===== verification/Repeats.thy ===== *)
theory Repeats imports System begin

text \<open>
  Tasks are handled at least once. A process that dies between the last write of a handler and the end of
  its task comes back with what the handler wrote and with the task in its queue, and the handler runs a
  second time on the same message. The handlers are not made for it: an answer that is handled twice
  answers two findings.
\<close>

section \<open>The process\<close>

lemma boot_after:
  assumes "scans_ok (st_env st)"
  shows "\<exists>q'. proc_queue (boot st (set_queue p ((proc_queue p)\<lparr>store := w\<rparr>))) = q'
    \<and> store q' = w\<lparr>tasks := map recover_task (tasks w)\<rparr>
    \<and> mset (queued_ids (queues q')) = mset (map t_id (filter unfinished (tasks w)))"
proof -
  obtain q' where "snd (replay_pending (st_env st) ((proc_queue p)\<lparr>store := w, queues := []\<rparr>)) = q'"
    "store q' = w\<lparr>tasks := map recover_task (tasks w)\<rparr>"
    "mset (queued_ids (queues q')) = mset (map t_id (filter unfinished (tasks w)))"
    using replay_pending_run [OF assms, of "(proc_queue p)\<lparr>store := w, queues := []\<rparr>"] by auto
  then show ?thesis by (simp add: boot_queue set_queue_def)
qed

lemma hand_is_unfinished:
  assumes "process_ok p" and "in_hand p = Some (tid, Some t)"
  shows "tid \<in> set (map t_id (filter unfinished (tasks (proc_db p))))"
proof -
  have "running_ids (proc_db p) = {#tid#}" using assms by (simp add: process_ok_def hand_ok_def)
  then have "tid \<in> set (map t_id (filter (\<lambda>t. t_status t = Running) (tasks (proc_db p))))"
    unfolding running_ids_def by (metis set_mset_mset set_mset_single singletonI)
  then show ?thesis by (auto simp: unfinished_def)
qed

text \<open>C10: A task is handled at least once, not exactly once: whenever the worker has a task in hand, the process can
  die after everything the handler writes and before the task is ended, and it then starts with the
  sessions and files the handler has left, with the same task in the queue again.\<close>

theorem handled_task_comes_again:
  assumes "reachable st p" and scans: "scans_ok (st_env st)" and hand: "in_hand p = Some (tid, Some t)"
  shows "\<exists>p'. system_step st p p' \<and> in_hand p' = None \<and> tid \<in> set (queued_ids (queues (proc_queue p')))
    \<and> tasks (proc_db p') = map recover_task (tasks (proc_db p))
    \<and> sessions (proc_db p') = sessions (snd (dispatch (st_env st) t (proc_db p)))
    \<and> folders (proc_db p') = folders (snd (dispatch (st_env st) t (proc_db p)))"
proof -
  let ?w = "snd (dispatch (st_env st) t (proc_db p))"
  let ?p = "boot st (set_queue p ((proc_queue p)\<lparr>store := ?w\<rparr>))"
  have writes: "handler_writes (proc_db p) ?w" by (rule dispatch_writes [OF scans])
  then have same: "tasks ?w = tasks (proc_db p)" using history.writes_R by (simp add: history_def)
  have "system_step st p ?p" using hand writes by (intro system_step.crash_inside) simp_all
  moreover have "in_hand ?p = None" by (simp add: boot_def)
  moreover obtain q' where q': "proc_queue ?p = q'" "store q' = ?w\<lparr>tasks := map recover_task (tasks ?w)\<rparr>"
    and ids: "mset (queued_ids (queues q')) = mset (map t_id (filter unfinished (tasks ?w)))"
    using boot_after [OF scans] by blast
  then have "tid \<in> set (queued_ids (queues q'))"
    using hand_is_unfinished [OF reachable_ok [OF assms(1,2)] hand] same by (metis mset_eq_setD)
  ultimately show ?thesis using q' same by (intro exI [of _ ?p]) simp
qed

theorem handled_task_comes_again_witness:
  "\<exists>p'. system_step demo_site busy_process p' \<and> 1 \<in> set (queued_ids (queues (proc_queue p')))"
proof -
  have "map_option (\<lambda>(i, t). i = 1 \<and> t \<noteq> None) (in_hand busy_process) = Some True" by code_simp
  then obtain t where "in_hand busy_process = Some (1, Some t)" by auto
  from handled_task_comes_again [OF busy_reachable _ this] show ?thesis by (auto simp: demo_site_def)
qed

section \<open>The answer\<close>

text \<open>C28: An answer that is handled a second time is taken for the next finding: both findings get the status
  and the text of the one answer, and both leave the queue.\<close>

theorem repeated_answer_hits_next:
  assumes cur: "current_id (cursor_at w s) = Some cur" and nxt: "pending (cursor_at w s) = nxt # ps"
    and rows: "rows_ok (rows_at w s)" and p: "parse_reply_intent reply ''qa_loop'' = (i, rest)" and i: "is_answer i"
    and line: "\<not> cuts_line reply" "\<forall>n. \<not> cuts_line (clock e n)"
  shows "\<exists>o1 w1 o2 w2 t1 t2. handle_reply e s reply w = (Inr o1, w1) \<and> handle_reply e s reply w1 = (Inr o2, w2)
    \<and> current_id (cursor_at w2 s) = (case ps of [] \<Rightarrow> None | f # _ \<Rightarrow> Some f) \<and> pending (cursor_at w2 s) = tl ps
    \<and> rows_at w2 s = answered_rows i nxt rest t2 (answered_rows i cur rest t1 (rows_at w s))"
proof -
  obtain o1 w1 n1 where first: "handle_reply e s reply w = (Inr o1, w1)" "cursor_at w1 s = advance (cursor_at w s)"
      "rows_at w1 s = answered_rows i cur rest (clock e n1) (rows_at w s)"
    using handle_reply_answer_run [OF cur rows p i, of e] by blast
  have "set rest \<subseteq> set reply" using parse_reply_intent_set [of reply "''qa_loop''"] p by simp
  then have "\<not> cuts_line rest" using line(1) by (rule cuts_line_mono)
  then have ok: "rows_ok (rows_at w1 s)" using first(3) rows line(2) by (simp add: answered_rows_ok)
  have "current_id (cursor_at w1 s) = Some nxt" using first(2) nxt by (simp add: advance_def)
  from handle_reply_answer_run [OF this ok p i, of e] obtain o2 w2 n2 where
    second: "handle_reply e s reply w1 = (Inr o2, w2)" "cursor_at w2 s = advance (cursor_at w1 s)"
      "rows_at w2 s = answered_rows i nxt rest (clock e n2) (rows_at w1 s)" by blast
  have "current_id (cursor_at w2 s) = (case ps of [] \<Rightarrow> None | f # _ \<Rightarrow> Some f)" "pending (cursor_at w2 s) = tl ps"
    using first(2) second(2) nxt by (auto simp: advance_def split: list.splits)
  with first second show ?thesis by auto
qed

theorem repeated_answer_hits_next_witness:
  "\<exists>o1 w1 o2 w2. handle_reply demo_env demo_session (asc ''a yes'') demo_world = (Inr o1, w1)
    \<and> handle_reply demo_env demo_session (asc ''a yes'') w1 = (Inr o2, w2) \<and> current_id (cursor_at w2 demo_session) = None"
proof -
  have "\<not> cuts_line (asc ''a yes'')" "\<forall>n. \<not> cuts_line (clock demo_env n)"
    "parse_reply_intent (asc ''a yes'') ''qa_loop'' = (ACCEPT, asc ''yes'')" "is_answer ACCEPT"
    by (simp_all add: cuts_line_def is_answer_def) code_simp
  from repeated_answer_hits_next [OF _ _ demo_rows_ok this(3,4,1,2), of "asc ''p1''" "asc ''p2''" "[]"]
  show ?thesis by (auto simp: demo_cursor simp del: asc_Cons demo_env_simps)
qed

end
