(* ===== verification/FileOps.thy ===== *)
theory FileOps imports Util "HOL-Library.Sublist" begin

text \<open>
  \<open>atomic_write\<close> of util/path.py, through which the program writes its files, as the file system
  operations it consists of, and what a crash between them, or inside the write, leaves. It is
  why a file of a session directory is written in one step everywhere else in the model.
\<close>

section \<open>Paths\<close>

text \<open>A path is the list of its components. The suffix of a name starts at its last dot, unless that is its
  first or its last character.\<close>

definition suffix_start :: "ustr \<Rightarrow> nat" where
  "suffix_start n =
     (let i = length n - 1 - length (takeWhile (\<lambda>c. c \<noteq> 46) (rev n)) in
      if 46 \<in> set n \<and> 0 < i \<and> i < length n - 1 then i else length n)"

definition name_suffix :: "ustr \<Rightarrow> ustr" where
  "name_suffix n = drop (suffix_start n) n"

definition with_suffix :: "ustr \<Rightarrow> ustr \<Rightarrow> ustr" where
  "with_suffix n s = take (length n - length (name_suffix n)) n @ s"

definition tmp_path :: "ustr list \<Rightarrow> ustr list" where
  "tmp_path p = butlast p @ [with_suffix (last p) (name_suffix (last p) @ asc ''.tmp'')]"

text \<open>\<open>assert_subpath\<close>, on resolved paths.\<close>

definition assert_subpath :: "ustr list \<Rightarrow> ustr list \<Rightarrow> exn + unit" where
  "assert_subpath parent child = (if take (length parent) child = parent then Inr () else Inl PathEscapeError)"

section \<open>The file system\<close>

record disk =
  d_dirs :: "ustr list list"
  d_files :: "ustr list \<Rightarrow> int list option"
  d_modes :: "ustr list \<Rightarrow> nat option"

datatype fs_op =
    Mkdirs "ustr list"
  | Write_file "ustr list" "int list"
  | Chmod "ustr list" nat
  | Replace "ustr list" "ustr list"

fun fs_exec :: "fs_op \<Rightarrow> disk \<Rightarrow> exn + disk" where
  "fs_exec (Mkdirs p) d =
     (if list_ex (\<lambda>q. d_files d q \<noteq> None) (prefixes p) then Inl (OtherError (asc ''FileExistsError''))
      else Inr (d\<lparr>d_dirs := d_dirs d @ filter (\<lambda>q. q \<notin> set (d_dirs d)) (prefixes p)\<rparr>))"
| "fs_exec (Write_file p bs) d =
     (if butlast p \<notin> set (d_dirs d) then Inl FileNotFoundError
      else if p \<in> set (d_dirs d) then Inl (OtherError (asc ''IsADirectoryError''))
      else Inr (d\<lparr>d_files := (d_files d)(p := Some bs)\<rparr>))"
| "fs_exec (Chmod p m) d =
     (if d_files d p = None then Inl FileNotFoundError else Inr (d\<lparr>d_modes := (d_modes d)(p := Some m)\<rparr>))"
| "fs_exec (Replace a b) d =
     (case d_files d a of
        None \<Rightarrow> Inl FileNotFoundError
      | Some bs \<Rightarrow>
          if b \<in> set (d_dirs d) then Inl (OtherError (asc ''IsADirectoryError''))
          else Inr (d\<lparr>d_files := (d_files d)(a := None, b := Some bs), d_modes := (d_modes d)(a := None, b := d_modes d a)\<rparr>))"

declare fs_exec.simps [simp del]

fun fs_run :: "fs_op list \<Rightarrow> disk \<Rightarrow> (exn + unit) \<times> disk" where
  "fs_run [] d = (Inr (), d)"
| "fs_run (op # ops) d = (case fs_exec op d of Inl x \<Rightarrow> (Inl x, d) | Inr d' \<Rightarrow> fs_run ops d')"

definition atomic_ops :: "ustr list \<Rightarrow> int list \<Rightarrow> nat \<Rightarrow> fs_op list" where
  "atomic_ops p data mode =
     [Mkdirs (butlast p), Write_file (tmp_path p) data, Chmod (tmp_path p) mode, Replace (tmp_path p) p]"

definition atomic_write :: "ustr list \<Rightarrow> int list \<Rightarrow> nat \<Rightarrow> disk \<Rightarrow> (exn + unit) \<times> disk" where
  "atomic_write p data mode = fs_run (atomic_ops p data mode)"

text \<open>Where a run may be cut off: before an operation, or inside a write, when the file holds only a part.\<close>

inductive cut_off :: "fs_op list \<Rightarrow> disk \<Rightarrow> disk \<Rightarrow> bool" where
  before: "cut_off ops d d"
| inside: "fs_exec (Write_file p (take n bs)) d = Inr d' \<Longrightarrow> cut_off (Write_file p bs # ops) d d'"
| after: "fs_exec op d = Inr d' \<Longrightarrow> cut_off ops d' d'' \<Longrightarrow> cut_off (op # ops) d d''"

inductive_cases cut_off_NilE: "cut_off [] d d'"
inductive_cases cut_off_WriteE: "cut_off (Write_file p bs # ops) d d'"
inductive_cases cut_off_MkdirsE: "cut_off (Mkdirs p # ops) d d'"
inductive_cases cut_off_ChmodE: "cut_off (Chmod p m # ops) d d'"
inductive_cases cut_off_ReplaceE: "cut_off (Replace a b # ops) d d'"

section \<open>Properties\<close>

text \<open>The temporary name is the name with \<open>.tmp\<close> behind it, whatever suffix it has, so two files never share
  one.\<close>

lemma tmp_name: "with_suffix n (name_suffix n @ s) = n @ s"
proof -
  have "suffix_start n \<le> length n" by (simp add: suffix_start_def Let_def)
  then show ?thesis by (simp add: with_suffix_def name_suffix_def)
qed

lemma tmp_path_eq: "tmp_path p = butlast p @ [last p @ asc ''.tmp'']"
  unfolding tmp_path_def tmp_name ..

lemma tmp_path_neq: "p \<noteq> [] \<Longrightarrow> tmp_path p \<noteq> p"
  by (metis append_butlast_last_id append_self_conv asc_Cons last_snoc list.distinct(1) tmp_path_eq)

lemma tmp_path_inj: "p \<noteq> [] \<Longrightarrow> q \<noteq> [] \<Longrightarrow> tmp_path p = tmp_path q \<Longrightarrow> p = q"
  by (metis append_butlast_last_id append_same_eq butlast_snoc last_snoc tmp_path_eq)

text \<open>A run that ends in an exception is one that was cut off.\<close>

lemma run_cut_off: "cut_off ops d (snd (fs_run ops d))"
  by (induction ops d rule: fs_run.induct) (auto intro: cut_off.intros split: sum.splits)

lemma exec_Inr:
  "fs_exec (Mkdirs p) d = Inr d' \<Longrightarrow> d_files d' = d_files d"
  "fs_exec (Write_file p bs) d = Inr d' \<Longrightarrow> d_files d' = (d_files d)(p := Some bs)"
  "fs_exec (Chmod p m) d = Inr d' \<Longrightarrow> d_files d' = d_files d"
  "fs_exec (Replace a b) d = Inr d' \<Longrightarrow> d_files d' = (d_files d)(a := None, b := d_files d a)"
  by (auto simp: fs_exec.simps split: if_splits option.splits)

lemma cut_atomic:
  assumes "cut_off (atomic_ops p data mode) d d'"
  shows "d_files d' = d_files d \<or> (\<exists>part. d_files d' = (d_files d)(tmp_path p := Some part))
    \<or> d_files d' = (d_files d)(tmp_path p := None, p := Some data)"
  using assms unfolding atomic_ops_def
  by (elim cut_off_MkdirsE cut_off_WriteE cut_off_ChmodE cut_off_ReplaceE cut_off_NilE)
     (auto dest!: exec_Inr)

text \<open>C11: A crash never leaves a half-written file: wherever a write of a file is cut off, in the middle of
  putting down its bytes included, the file has its old content or the whole new one, and no
  other file but the temporary one has changed.\<close>

theorem atomic_write_all_or_nothing:
  assumes "p \<noteq> []" and "cut_off (atomic_ops p data mode) d d'"
  shows "(d_files d' p = d_files d p \<or> d_files d' p = Some data)
    \<and> (\<forall>q. q \<noteq> p \<and> q \<noteq> tmp_path p \<longrightarrow> d_files d' q = d_files d q)"
  using cut_atomic [OF assms(2)] tmp_path_neq [OF assms(1)] by auto

text \<open>A write that ends has put the content there with its mode, and its temporary file is gone.\<close>

theorem atomic_write_result:
  assumes "p \<noteq> []" and "atomic_write p data mode d = (Inr (), d')"
  shows "d_files d' = (d_files d)(tmp_path p := None, p := Some data) \<and> d_modes d' p = Some mode"
  using assms tmp_path_neq [OF assms(1)]
  by (auto simp: atomic_write_def atomic_ops_def fs_exec.simps split: if_splits sum.splits option.splits)

text \<open>And it does end, when the directory's path is not taken by a file and the names by directories.\<close>

lemma atomic_write_ends:
  assumes "list_all (\<lambda>q. d_files d q = None) (prefixes (butlast p))" and "p \<noteq> []"
    and "p \<notin> set (d_dirs d)" "tmp_path p \<notin> set (d_dirs d)"
  shows "fst (atomic_write p data mode d) = Inr ()"
proof -
  have "q \<notin> set (prefixes (butlast p))" if "length q = length p" for q
    using that assms(2) prefix_length_le [of q "butlast p"] by (cases p) auto
  moreover have "butlast (tmp_path p) = butlast p" "length (tmp_path p) = length p"
    using assms(2) by (simp_all add: tmp_path_eq)
  ultimately show ?thesis
    using assms by (auto simp: atomic_write_def atomic_ops_def list_all_iff list_ex_iff fs_exec.simps)
qed

section \<open>A concrete disk\<close>

definition cursor_path :: "ustr list" where
  "cursor_path = [asc ''fs'', asc ''cursor.json'']"

definition demo_disk :: disk where
  "demo_disk = \<lparr>d_dirs = [[], [asc ''fs'']], d_files = [cursor_path \<mapsto> asc ''old''], d_modes = (\<lambda>q. None)\<rparr>"

text \<open>The power fails after two of the three bytes.\<close>

theorem atomic_write_all_or_nothing_witness:
  "\<exists>d'. cut_off (atomic_ops cursor_path (asc ''new'') 416) demo_disk d'
     \<and> d_files d' (tmp_path cursor_path) = Some (asc ''ne'')
     \<and> (d_files d' cursor_path = Some (asc ''old'') \<or> d_files d' cursor_path = Some (asc ''new''))"
proof -
  have dirs: "fs_exec (Mkdirs (butlast cursor_path)) demo_disk = Inr demo_disk"
    by (simp add: fs_exec.simps demo_disk_def cursor_path_def)
  obtain d' where d': "fs_exec (Write_file (tmp_path cursor_path) (take 2 (asc ''new''))) demo_disk = Inr d'"
    "d_files d' (tmp_path cursor_path) = Some (asc ''ne'')"
    by (simp add: fs_exec.simps demo_disk_def cursor_path_def tmp_path_eq)
  have cut: "cut_off (atomic_ops cursor_path (asc ''new'') 416) demo_disk d'"
    unfolding atomic_ops_def by (rule cut_off.after [OF dirs]) (rule cut_off.inside [OF d'(1)])
  have "cursor_path \<noteq> []" by (simp add: cursor_path_def)
  from atomic_write_all_or_nothing [OF this cut] show ?thesis
    using cut d'(2) by (auto simp: demo_disk_def)
qed

end
