(* ===== verification/CloseChain.thy ===== *)
theory CloseChain imports Material begin

text \<open>
  How the close chain of core/dispatcher.py ends. Facts about one session row are followed through the
  helpers of Stages as a relation that allows just the updates which keep the fact.
\<close>

section \<open>A fact about one row\<close>

definition row_inv :: "ustr \<Rightarrow> (session \<Rightarrow> bool) \<Rightarrow> world \<Rightarrow> bool" where
  "row_inv sid P w \<longleftrightarrow> (\<exists>r. find (\<lambda>s. s_id s = sid) (sessions w) = Some r \<and> P r)"

definition keeps :: "ustr \<Rightarrow> (session \<Rightarrow> bool) \<Rightarrow> world \<Rightarrow> world \<Rightarrow> bool" where
  "keeps sid P w w' \<longleftrightarrow> (row_inv sid P w \<longrightarrow> row_inv sid P w')"

definition allows :: "(session \<Rightarrow> bool) \<Rightarrow> field list \<Rightarrow> bool" where
  "allows P fs \<longleftrightarrow> (\<forall>r. P r \<longrightarrow> P (set_fields fs r))"

lemma row_inv_update: "row_inv sid P (w_update_session sid fs w) \<longleftrightarrow> row_inv sid (\<lambda>r. P (set_fields fs r)) w"
  by (auto simp: row_inv_def find_row_update)

interpretation row_fact: session_effects "keeps sid P" "\<lambda>s. s_id s = sid" "allows P" for sid P
proof
  fix s fs w assume "s_id s = sid" "allows P fs"
  then show "keeps sid P w (w_update_session (s_id s) fs w)"
    by (auto simp: keeps_def row_inv_update) (auto simp: row_inv_def allows_def)
next
  fix s s' w w' assume "s_id s = sid" "find_session w (s_id s) = Some s'" "\<not> s_id s' = sid"
  then show "keeps sid P w w'"
    by (auto simp: find_session_def row_to_session_def Let_def dest: find_SomeD)
qed (auto simp: keeps_def row_inv_def)

section \<open>Delivery\<close>

definition ending :: "session \<Rightarrow> bool" where
  "ending r \<longleftrightarrow> s_stage r \<in> {CLOSING, CLOSED_stage}"

lemma allows_ending [simp]:
  "allows ending [Set_stage CLOSING]" "allows ending [Set_stage CLOSING, Set_status FAILED]"
  "allows ending [Set_status CLOSED, Set_stage CLOSED_stage, Set_closed_at (Some ts)]"
  by (simp_all add: allows_def ending_def)

lemma deliver_run_ending: "s_id s = sid \<Longrightarrow> steps (keeps sid ending) (deliver_run e s targets)"
  unfolding deliver_run_def Let_def
  by (intro row_fact.steps_intros step_rules) simp_all

lemma with_session_keeps:
  assumes "\<And>s. s_id s = sid \<Longrightarrow> steps (keeps sid P) (f s)"
  shows "steps (keeps sid P) (with_session x sid f)"
  using row_fact.steps_with_session [of "demo_session\<lparr>s_id := sid\<rparr>" sid P f x] assms by simp

lemma deliver_ending: "steps (keeps sid ending) (do_build_and_deliver e sid)"
  unfolding do_build_and_deliver_def
  by (intro with_session_keeps row_fact.steps_intros row_fact.steps_try_llm row_fact.fail_session_steps
    deliver_run_ending step_rules) simp_all

lemma keeps_run: "steps (keeps sid P) m \<Longrightarrow> row_inv sid P w \<Longrightarrow> m w = (r, w') \<Longrightarrow> row_inv sid P w'"
  by (metis keeps_def snd_conv steps_def)

lemma close_and_deliver_ends:
  assumes "close_and_deliver e sid w = (r, w')" and "row_inv sid (\<lambda>_. True) w"
  shows "row_inv sid ending w'"
proof -
  have "row_inv sid ending (w_update_session sid [Set_stage CLOSING] w)"
    using assms(2) by (simp add: row_inv_update ending_def)
  moreover have "do_build_and_deliver e sid (w_update_session sid [Set_stage CLOSING] w) = (r, w')"
    using assms(1) by (simp add: close_and_deliver_def run_simps)
  ultimately show ?thesis using keeps_run [OF deliver_ending] by blast
qed

section \<open>Reopening\<close>

definition reopened :: "int \<Rightarrow> session \<Rightarrow> bool" where
  "reopened n r \<longleftrightarrow> s_stage r \<in> {QA_ACTIVE, QA_ACTIVE_REOPENED} \<and> fail_count r < n"

lemma emit_reopened: "steps (keeps sid (reopened n)) (emit_next_finding e sid)"
  using row_fact.emit_next_finding_steps [of "demo_session\<lparr>s_id := sid\<rparr>" sid "reopened n" e]
  by (simp add: allows_def reopened_def)

lemma transition_reopens:
  assumes "transition_after_final_gate_fail s ids w = (Inr c, w')" and "row_inv (s_id s) (\<lambda>r. fail_count r < n) w"
  shows "row_inv (s_id s) (reopened n) w'"
proof -
  obtain f where "w' = w_update_session (s_id s) [Set_stage QA_ACTIVE_REOPENED, Set_round_no (round_no s + 1)] (w_folder (key_of s) f w)"
    using assms(1) by (auto simp: transition_after_final_gate_fail_def run_simps ret_def Let_def)
  moreover have "row_inv (s_id s) (\<lambda>r. fail_count r < n) (w_folder (key_of s) f w)"
    using assms(2) by (simp add: row_inv_def)
  ultimately show ?thesis by (simp add: row_inv_update reopened_def)
qed

lemma found_row: "find_session w sid = Some s \<Longrightarrow> s_id s = sid \<and> row_inv sid (\<lambda>r. fail_count r = fail_count s) w"
  by (auto simp: find_session_def row_to_session_def Let_def row_inv_def dest: find_SomeD)

lemma row_inv_mono: "row_inv sid P w \<Longrightarrow> (\<And>r. P r \<Longrightarrow> Q r) \<Longrightarrow> row_inv sid Q w"
  by (auto simp: row_inv_def)

lemma safe_dm_keeps: "row_inv sid P (snd (safe_dm e oid b w)) = row_inv sid P w"
  by (simp add: safe_dm_state row_inv_def)

lemma after_gate_ends:
  assumes "after_gate e forced s w = (Inr u, w')" and "row_inv (s_id s) (\<lambda>r. fail_count r = fail_count s) w"
  shows "row_inv (s_id s) ending w'
    \<or> \<not> forced \<and> row_inv (s_id s) (reopened (cfg_final_gate_max_fail_count e)) w'"
proof -
  let ?n = "cfg_final_gate_max_fail_count e"
  have closed: "row_inv (s_id s) ending w'" if "close_and_deliver e (s_id s) v = (Inr u, w')" "row_inv (s_id s) (\<lambda>_. True) v" for v
    using that by (rule close_and_deliver_ends)
  have any: "row_inv (s_id s) (\<lambda>_. True) w" using assms(2) by (rule row_inv_mono) simp
  show ?thesis
  proof (cases "s_verdict s = Some FAIL \<and> \<not> forced")
    case False
    then show ?thesis using closed [OF _ any] assms(1) by (auto simp: after_gate_def)
  next
    case True
    then obtain ids where ids: "extract_open_blockers s w = (Inr ids, w)"
      and run: "(if ids = [] then
          andthen (update_session (s_id s) [Set_verdict (Some FORCED_PARTIAL), Set_stage CLOSING])
          (andthen (safe_dm e (requester_oid s) DmForcedPartial) (close_and_deliver e (s_id s)))
        else if fail_count s < ?n then
          andthen (transition_after_final_gate_fail s ids)
          (andthen (safe_dm e (requester_oid s) (DmReopened (length ids))) (emit_next_finding e (s_id s)))
        else andthen (update_session (s_id s) [Set_verdict (Some FORCED_PARTIAL)]) (close_and_deliver e (s_id s))) w = (Inr u, w')"
      using assms(1) unfolding after_gate_def
      by (auto simp: extract_open_blockers_def load_findings_def gets_def lift_sum_def bnd_def split: sum.splits prod.splits)
    show ?thesis
    proof (cases "ids \<noteq> [] \<and> fail_count s < ?n")
      case False
      then show ?thesis using run any
        by (auto simp: run_simps row_inv_update safe_dm_keeps intro!: closed split: if_splits)
    next
      case reopen: True
      then obtain c v where v: "transition_after_final_gate_fail s ids w = (Inr c, v)"
        and emit: "emit_next_finding e (s_id s) (snd (safe_dm e (requester_oid s) (DmReopened (length ids)) v)) = (Inr u, w')"
        using run by (auto simp: run_safe_dm elim!: bnd_InrE)
      have "row_inv (s_id s) (\<lambda>r. fail_count r < ?n) w"
        using assms(2) by (rule row_inv_mono) (use reopen in simp)
      then have "row_inv (s_id s) (reopened ?n) v" by (rule transition_reopens [OF v])
      then have "row_inv (s_id s) (reopened ?n) w'"
        using keeps_run [OF emit_reopened _ emit] by (simp add: safe_dm_keeps)
      with True show ?thesis by simp
    qed
  qed
qed

text \<open>C16: A close that returns leaves the session closing or closed. Only a close that was not forced can instead
  reopen the Q\&A loop, and only while the session has failed the final gate less often than the
  configured maximum.\<close>

theorem close_chain_ends:
  assumes "close_chain e sid forced w = (Inr u, w')"
  shows "\<exists>r. find_session w' sid = Some r \<and>
    (s_stage r \<in> {CLOSING, CLOSED_stage}
     \<or> \<not> forced \<and> s_stage r \<in> {QA_ACTIVE, QA_ACTIVE_REOPENED} \<and> fail_count r < cfg_final_gate_max_fail_count e)"
proof -
  from assms obtain w2 where "with_session AssertionError sid (after_gate e forced) w2 = (Inr u, w')"
    unfolding close_chain_def by (elim bnd_InrE)
  then obtain s where s: "find_session w2 sid = Some s" and run: "after_gate e forced s w2 = (Inr u, w')"
    by (auto simp: run_simps split: option.splits)
  from found_row [OF s] have "s_id s = sid" "row_inv (s_id s) (\<lambda>r. fail_count r = fail_count s) w2" by auto
  with after_gate_ends [OF run]
  have "row_inv sid ending w' \<or> \<not> forced \<and> row_inv sid (reopened (cfg_final_gate_max_fail_count e)) w'" by simp
  then show ?thesis
    by (auto simp: row_inv_def ending_def reopened_def find_session_def row_to_session_def Let_def)
qed

theorem close_chain_ends_witness:
  "\<exists>w' r. close_chain gate_env (asc ''S1'') False demo_world = (Inr (), w') \<and> find_session w' (asc ''S1'') = Some r
     \<and> (s_stage r \<in> {CLOSING, CLOSED_stage} \<or> s_stage r \<in> {QA_ACTIVE, QA_ACTIVE_REOPENED} \<and> fail_count r < 2)"
proof -
  have "fst (close_chain gate_env (asc ''S1'') False demo_world) = Inr ()" by code_simp
  then obtain w' where run: "close_chain gate_env (asc ''S1'') False demo_world = (Inr (), w')" by (metis prod.collapse)
  with close_chain_ends [OF run] show ?thesis by (auto simp: gate_env_def)
qed

text \<open>A failed merge does not stop the chain: the requester is told that the review failed, the session is
  marked failed, and then the brief is delivered all the same and the session closed.\<close>

definition flaky_env :: env where
  "flaky_env = gate_env\<lparr>llm_chat := (\<lambda>n rq. if n = 0 then Inl (LLMTerminalFailure []) else Inr (demo_response (asc ''text'')))\<rparr>"

lemma failed_merge_still_closes:
  "map sd_body (take 1 (sent (snd (close_chain flaky_env (asc ''S1'') True demo_world)))) = [DmLlmFailed ''merge_draft'']"
  "map s_status (sessions (snd (close_chain flaky_env (asc ''S1'') True demo_world))) = [CLOSED]"
  by code_simp+

end
