(* ===== verification/StageMachine.thy ===== *)
theory StageMachine imports Safety CloseChain begin

text \<open>
  The life of a session row. The handlers of one session are followed by the stages they may write
  (\<open>staged_effects\<close>): a message leaves every row alone but the active session of its sender, moves that
  one along \<open>next_stages\<close>, and opens at most one new session. The first message of a requester is followed
  to its end: the session waits for the requester, was cancelled, or has failed.
\<close>

section \<open>Rows that move\<close>

definition row_moves :: "ustr \<Rightarrow> stage set \<Rightarrow> session \<Rightarrow> session \<Rightarrow> bool" where
  "row_moves sid S r r' \<longleftrightarrow> same_identity r r' \<and>
     (if s_id r = sid then s_stage r' = s_stage r \<or> s_stage r' \<in> S else r' = r)"

definition rows_move :: "ustr \<Rightarrow> stage set \<Rightarrow> world \<Rightarrow> world \<Rightarrow> bool" where
  "rows_move sid S w w' \<longleftrightarrow> list_all2 (row_moves sid S) (sessions w) (sessions w')"

lemma row_moves_refl [simp]: "row_moves sid S r r"
  by (simp add: row_moves_def)

lemma row_moves_trans: "row_moves sid S r s \<Longrightarrow> row_moves sid S s t \<Longrightarrow> row_moves sid S r t"
  unfolding row_moves_def by (auto intro: same_identity_trans simp: same_identity_def split: if_splits)

lemma rows_move_same: "sessions w' = sessions w \<Longrightarrow> rows_move sid S w w'"
  by (simp add: rows_move_def list_all2_refl)

lemma set_fields_stage: "stages_in S fs \<Longrightarrow> s_stage (set_fields fs s) = s_stage s \<or> s_stage (set_fields fs s) \<in> S"
proof (induction fs arbitrary: s)
  case (Cons f fs)
  then have "s_stage (set_fields fs (set_field f s)) = s_stage (set_field f s)
    \<or> s_stage (set_fields fs (set_field f s)) \<in> S" by simp
  moreover have "s_stage (set_field f s) = s_stage s \<or> s_stage (set_field f s) \<in> S"
    using Cons.prems by (cases f) auto
  ultimately show ?case by auto
qed simp

interpretation moves: staged_effects "rows_move sid S" "\<lambda>s. s_id s = sid" S for sid S
proof
  show "rows_move sid S u v \<Longrightarrow> rows_move sid S v w \<Longrightarrow> rows_move sid S u w" for u v w
    unfolding rows_move_def by (rule list_all2_trans [where ?P2.0 = "row_moves sid S"]) (rule row_moves_trans)
  show "rows_move sid S w (w_update_session (s_id s) fs w)" if "s_id s = sid" "quiet S fs" for s :: session and fs w
    using that set_fields_stage [of S fs]
    by (auto simp: rows_move_def sessions_w_update list_all2_conv_all_nth row_moves_def quiet_def)
  show "rows_move sid S w w'" if "s_id s = sid" "find_session w (s_id s) = Some s'" "\<not> s_id s' = sid" for s s' :: session and w w'
    using that by (auto simp: find_session_def row_to_session_def Let_def dest: find_SomeD)
qed (auto intro: rows_move_same)

section \<open>One message\<close>

text \<open>What a message of \<open>oid\<close> may do to a row, and to the table.\<close>

definition follows :: "ustr \<Rightarrow> session \<Rightarrow> session \<Rightarrow> bool" where
  "follows oid r r' \<longleftrightarrow> r' = r \<or> (requester_oid r = oid \<and> s_status r = ACTIVE \<and> same_identity r r'
     \<and> (s_stage r' = s_stage r \<or> s_stage r' \<in> next_stages (s_stage r)))"

definition opened_by :: "ustr \<Rightarrow> world \<Rightarrow> session list \<Rightarrow> bool" where
  "opened_by oid w new \<longleftrightarrow> new = [] \<or> (active_count w oid = 0 \<and>
     (\<exists>r. new = [r] \<and> requester_oid r = oid \<and> s_stage r \<in> opening_stages \<and> failed_stage r = None \<and> last_error r = None))"

definition follows_diagram :: "ustr \<Rightarrow> world \<Rightarrow> world \<Rightarrow> bool" where
  "follows_diagram oid w w' \<longleftrightarrow>
     (\<exists>old new. sessions w' = old @ new \<and> list_all2 (follows oid) (sessions w) old \<and> opened_by oid w new)"

lemma follows_diagram_same: "sessions w' = sessions w \<Longrightarrow> follows_diagram oid w w'"
  unfolding follows_diagram_def
  by (intro exI [of _ "sessions w"] exI [of _ "[]"]) (simp add: list_all2_refl follows_def opened_by_def)

lemma follows_active:
  assumes wf: "db_wf w" and scans: "scans_ok e" and s: "find_active e w oid = Some s"
    and moved: "rows_move (s_id s) (next_stages (s_stage s)) w w'"
  shows "follows_diagram oid w w'"
proof -
  obtain r0 where r0: "r0 \<in> set (sessions w)" "active_of oid r0" "s_id s = s_id r0" "s_stage s = s_stage r0"
    using find_active_Some [OF scans s] by (auto simp: row_to_session_def Let_def)
  have "r = r0" if "r \<in> set (sessions w)" "s_id r = s_id r0" for r
    using db_wf_parts(2) [OF wf] r0(1) that by (metis (mono_tags, lifting) inj_on_contraD distinct_map)
  then have "list_all2 (follows oid) (sessions w) (sessions w')"
    using moved r0 unfolding rows_move_def list_all2_conv_all_nth row_moves_def follows_def active_of_def
    by (metis nth_mem)
  then show ?thesis
    unfolding follows_diagram_def opened_by_def by (intro exI [of _ "sessions w'"] exI [of _ "[]"]) simp
qed

text \<open>A new session: the rows there were stay, and the new one is moved by the intake only.\<close>

lemma create_session_rows:
  assumes "create_session e req resp style rules prof w = (r, w')"
  shows "case r of Inl x \<Rightarrow> sessions w' = sessions w
    | Inr s \<Rightarrow> sessions w' = sessions w @ [s] \<and> s_id s \<notin> set (session_ids w)
        \<and> (\<exists>ts. s = new_session e (fresh_id e (tick w)) req resp ts)"
  using assms
  by (auto simp: create_session_def Let_def prog_simps w_insert_session_def w_folder_def new_session_def
      session_ids_def split: if_splits)

lemma follows_new:
  assumes s: "s = new_session e sid oid resp ts" and rows: "sessions v = sessions w @ [s]"
    and fresh: "sid \<notin> set (session_ids w)" and none: "active_count w oid = 0"
    and moved: "rows_move sid opening_stages v w'"
  shows "follows_diagram oid w w'"
proof -
  obtain old r where parts: "sessions w' = old @ [r]" "list_all2 (row_moves sid opening_stages) (sessions w) old"
      "row_moves sid opening_stages s r"
    using moved rows unfolding rows_move_def by (auto simp: list_all2_append1 list_all2_Cons1)
  have "list_all2 (follows oid) (sessions w) old"
    using parts(2) fresh unfolding list_all2_conv_all_nth row_moves_def follows_def session_ids_def
    by (metis nth_mem image_eqI list.set_map)
  moreover have "opened_by oid w [r]"
    using parts(3) s none by (auto simp: opened_by_def row_moves_def same_identity_def new_session_def)
  ultimately show ?thesis using parts(1) unfolding follows_diagram_def by blast
qed

lemma follows_no_session:
  assumes none: "active_count w (open_id u) = 0"
  shows "follows_diagram (open_id u) w (snd (handle_requester_no_session e u m w))"
proof (cases "paired_responder w u")
  case None
  then show ?thesis
    using stepsD [OF registration.steps_safe_dm, of e "open_id u" DmNotPaired w]
    by (simp add: no_session_run follows_diagram_same)
next
  case (Some p)
  let ?create = "create_session e (open_id u) (open_id p) (text_or_empty (admin_style_md e (tick w)))
     (text_or_empty (review_rules_md e (Suc (tick w))))
     (text_or_empty (responder_md e (Suc (Suc (tick w))) (open_id p)))"
  let ?w = "ticked (ticked (ticked w))"
  have "follows_diagram (open_id u) w (snd (bnd ?create (\<lambda>s. intake e s m) ?w))"
  proof (rule bnd_snd_cases)
    show "follows_diagram (open_id u) w v" if "?create ?w = (Inl x, v)" for x v
      using create_session_rows [OF that] by (simp add: follows_diagram_same)
    show "follows_diagram (open_id u) w (snd (intake e s m v))" if run: "?create ?w = (Inr s, v)" for s v
    proof -
      obtain ts where "s = new_session e (s_id s) (open_id u) (open_id p) ts"
          "sessions v = sessions w @ [s]" "s_id s \<notin> set (session_ids w)"
        using create_session_rows [OF run] by (auto simp: new_session_def)
      from this none show ?thesis
        by (rule follows_new) (rule stepsD, rule moves.steps_intake, simp_all)
    qed
  qed
  then show ?thesis using Some by (simp add: no_session_run)
qed

lemma follows_serve:
  assumes wf: "db_wf w" and scans: "scans_ok e"
  shows "follows_diagram (open_id u) w (snd (serve_sender e u m w))"
proof -
  have dm: "follows_diagram (open_id u) w (snd (safe_dm e (open_id u) b w))" for b
    using stepsD [OF registration.steps_safe_dm] by (blast intro: follows_diagram_same)
  have inside: "follows_diagram (open_id u) w (snd (handle_requester_in_session e s m w))"
    if s: "find_active e w (open_id u) = Some s" for s
    using wf scans s by (rule follows_active) (rule stepsD, rule moves.steps_handle_in_session, simp_all)
  show ?thesis
    using dm inside follows_no_session find_active_None [OF scans]
    by (auto simp: serve_sender_def get_active_session_for_def gets_bnd split: option.splits)
qed

text \<open>No message starts a session over, and two stages of the enumeration are never entered.\<close>

lemma next_stages_only: "st' \<in> next_stages st \<Longrightarrow> st' \<notin> {INTAKE, AWAITING_MATERIAL_CONFIRM, AWAITING_FINAL_DRAFT, INGEST_FAILED, FAILED_stage}"
  by (cases st) auto

text \<open>C3: A message moves sessions along the stage diagram only: every row stays as it is but the active
  session of the sender, which keeps its identity and goes to a stage that may follow its own, whatever
  the handler does and whatever fails. At most one session is opened, by a sender without an active one,
  and the reason of a failure (\<open>failed_stage\<close>, \<open>last_error\<close>) is never recorded.\<close>

theorem stages_follow_diagram:
  assumes "db_wf w" and "scans_ok e"
  shows "follows_diagram (m_sender_open_id m) w (snd (handle_incoming e m w))"
proof (cases "find_user w (m_sender_open_id m)")
  case (Some u)
  then have "open_id u = m_sender_open_id m" by (auto simp: find_user_def dest: find_SomeD)
  with Some follows_serve [OF assms, of u] show ?thesis
    by (simp add: handle_incoming_def run_get_user)
next
  case None
  have "follows_diagram (m_sender_open_id m) w (snd (bnd (maybe_auto_register e m)
      (\<lambda>r. case r of None \<Rightarrow> ret () | Some u \<Rightarrow> serve_sender e u m) w))"
  proof (rule bnd_snd_cases)
    have reg: "sessions v = sessions w" if "maybe_auto_register e m w = (r, v)" for r v
      using stepsE [OF registration.steps_maybe_auto_register that] by simp
    then show "follows_diagram (m_sender_open_id m) w v" if "maybe_auto_register e m w = (Inl x, v)" for x v
      using that by (blast intro: follows_diagram_same)
    show "follows_diagram (m_sender_open_id m) w (snd ((case r of None \<Rightarrow> ret () | Some u \<Rightarrow> serve_sender e u m) v))"
      if run: "maybe_auto_register e m w = (Inr r, v)" for r v
    proof (cases r)
      case None
      with reg [OF run] show ?thesis by (simp add: run_ret follows_diagram_same)
    next
      case (Some u)
      have "db_wf v" using stepsE [OF integrity.steps_maybe_auto_register run] assms(1) by blast
      then have "follows_diagram (open_id u) v (snd (serve_sender e u m v))"
        by (rule follows_serve [OF _ assms(2)])
      with reg [OF run] registered_id [of e m w u v] run Some show ?thesis
        by (simp add: follows_diagram_def opened_by_def active_count_def)
    qed
  qed
  with None show ?thesis by (simp add: handle_incoming_def run_get_user)
qed

theorem stages_follow_diagram_witness:
  "db_wf demo_world \<and>
   follows_diagram (m_sender_open_id demo_message) demo_world (snd (handle_incoming demo_env demo_message demo_world))"
  using stages_follow_diagram [OF demo_db_wf demo_scans_ok] demo_db_wf by blast

section \<open>The first message\<close>

text \<open>The ways an intake can end, and that somebody got a message meanwhile.\<close>

definition intake_end :: "world \<Rightarrow> session \<Rightarrow> bool" where
  "intake_end w r \<longleftrightarrow>
     s_status r = ACTIVE \<and> s_stage r = AWAITING_MATERIAL_CONFIRM \<and> material_at w r \<noteq> None
     \<or> s_status r = CANCELLED \<and> s_stage r = INGEST_FAILED \<and> closed_at r \<noteq> None
     \<or> s_status r = FAILED \<and> s_stage r = INGEST_FAILED"

definition told :: "ustr \<Rightarrow> world \<Rightarrow> world \<Rightarrow> bool" where
  "told oid w w' \<longleftrightarrow> (\<exists>new. sent w' = sent w @ new \<and> oid \<in> set (map sd_to new))"

lemma told_before: "told oid v w \<Longrightarrow> prefix (sent u) (sent v) \<Longrightarrow> told oid u w"
  by (auto simp: told_def prefix_def)

lemma told_after: "told oid u v \<Longrightarrow> prefix (sent v) (sent w) \<Longrightarrow> told oid u w"
  by (auto simp: told_def prefix_def)

lemma told_safe_dm: "prefix (sent u) (sent w) \<Longrightarrow> told oid u (snd (safe_dm e oid b w))"
  by (auto simp: told_def prefix_def safe_dm_state)

lemma sent_grows:
  assumes "steps history m" and "m w = (r, w')"
  shows "prefix (sent w) (sent w')"
  using stepsE [OF assms] by (simp add: history_def)

lemma send_material_confirm_is_dm: "\<exists>b. send_material_confirm_dm e s w = safe_dm e (requester_oid s) b w"
  by (auto simp: send_material_confirm_dm_def gets_bnd Let_def split: option.splits)

text \<open>Material that is not taken is refused by a message.\<close>

lemma told_bnd:
  assumes "bnd m f w = (Inr a, w')" and "steps history m" and "\<And>b v. f b v = (Inr a, w') \<Longrightarrow> told oid v w'"
  shows "told oid w w'"
proof -
  obtain b v where m: "m w = (Inr b, v)" and "f b v = (Inr a, w')" using assms(1) by (rule bnd_InrE)
  then have "told oid v w'" using assms(3) by blast
  then show ?thesis using sent_grows [OF assms(2) m] by (rule told_before)
qed

lemma unsupported_is_told:
  assumes "catch (andthen (ingest_run e s name) (ret True)) (\<lambda>x. andthen (safe_dm e oid d) (ret False)) v = (Inr False, w')"
  shows "told oid v w'"
proof -
  obtain q u where run: "ingest_run e s name v = (q, u)" by fastforce
  then have grown: "prefix (sent v) (sent u)" by (rule sent_grows [OF history.steps_ingest_run [OF TrueI]])
  from run assms have "w' = snd (safe_dm e oid d u)"
    by (cases q) (simp_all add: catch_def bnd_Inl bnd_Inr run_safe_dm run_ret ret_def)
  with grown show ?thesis by (simp add: told_safe_dm)
qed

lemma refused_file_is_told: "ingest_file e s m stamp w = (Inr False, w') \<Longrightarrow> told (requester_oid s) w w'"
  unfolding ingest_file_def Let_def
  by (erule told_bnd, rule history.steps_call, erule told_bnd, rule history.steps_lift, erule told_bnd,
      rule history.steps_store_input [OF TrueI], erule unsupported_is_told)

lemma refused_is_told:
  assumes "save_and_ingest_multimodal e s m w = (Inr False, w')"
  shows "told (requester_oid s) w w'"
proof -
  have "told (requester_oid s) v w'" if "andthen (safe_dm e (requester_oid s) d) (ret False) v = (Inr False, w')" for d v
    using that by (auto simp: run_safe_dm ret_def intro: told_safe_dm)
  then show ?thesis
    using assms unfolding save_and_ingest_multimodal_def Let_def
    by (elim told_bnd) (auto intro: history.steps_now_iso refused_file_is_told elim!: bnd_InrE simp: ret_def split: if_splits)
qed

text \<open>A session that was just created, without material, and its intake.\<close>

definition just_opened :: "session \<Rightarrow> bool" where
  "just_opened r \<longleftrightarrow> s_status r = ACTIVE \<and> s_stage r = INTAKE"

lemma row_inv_updated: "row_inv sid P w \<Longrightarrow> (\<And>r. P r \<Longrightarrow> Q (set_fields fs r)) \<Longrightarrow> row_inv sid Q (w_update_session sid fs w)"
  unfolding row_inv_update by (auto simp: row_inv_def)

lemma row_inv_other [simp]: "row_inv sid P (ticked w) = row_inv sid P w"
  by (simp add: row_inv_def)

lemma cancel_intake_run: "bnd (cancel_intake e s) k w = k () (w_update_session (s_id s)
     [Set_status CANCELLED, Set_stage INGEST_FAILED, Set_closed_at (Some (clock e (tick w)))] (ticked w))"
  by (simp add: cancel_intake_def run_simps)

lemma fail_session_run: "bnd (fail_session e s st label x) k w = k ()
     (snd (safe_dm e (requester_oid s) (if is_terminal_failure x then DmLlmFailed label else DmSessionFailed)
       (w_update_session (s_id s) [Set_stage st, Set_status FAILED] w)))"
  by (simp add: fail_session_def run_simps run_safe_dm)

abbreviation intake_cancelled :: "env \<Rightarrow> session \<Rightarrow> world \<Rightarrow> world" where
  "intake_cancelled e s v \<equiv> w_update_session (s_id s)
     [Set_status CANCELLED, Set_stage INGEST_FAILED, Set_closed_at (Some (clock e (tick v)))] (ticked v)"

abbreviation intake_handler :: "env \<Rightarrow> session \<Rightarrow> exn \<Rightarrow> bool option act" where
  "intake_handler e s x \<equiv> (case x of
     IngestRejected msg \<Rightarrow>
       andthen (safe_dm e (requester_oid s) (DmRejected msg)) (andthen (cancel_intake e s) (ret None))
   | _ \<Rightarrow> andthen (fail_session e s INGEST_FAILED ''ingest'' x) (ret None))"

lemma intake_run: "intake e s m w = (case save_and_ingest_multimodal e s m w of
    (Inl x, v) \<Rightarrow> bnd (intake_handler e s x) (\<lambda>r. case r of None \<Rightarrow> ret () | Some False \<Rightarrow> cancel_intake e s
        | Some True \<Rightarrow> andthen (update_session (s_id s) [Set_stage AWAITING_MATERIAL_CONFIRM]) (send_material_confirm_dm e s)) v
  | (Inr True, v) \<Rightarrow> andthen (update_session (s_id s) [Set_stage AWAITING_MATERIAL_CONFIRM]) (send_material_confirm_dm e s) v
  | (Inr False, v) \<Rightarrow> cancel_intake e s v)"
  by (auto simp: intake_def catch_def bnd_def ret_def split: prod.split sum.split bool.split option.split)

text \<open>The session's own row after the intake.\<close>

abbreviation row_ends :: "session \<Rightarrow> world \<Rightarrow> bool" where
  "row_ends s w \<equiv> row_inv (s_id s) (\<lambda>r. key_of r = key_of s \<longrightarrow> intake_end w r) w"

lemma cancelled_row_ends: "row_inv (s_id s) just_opened v \<Longrightarrow> row_ends s (intake_cancelled e s v)"
  by (rule row_inv_updated [of _ just_opened]) (simp_all add: intake_end_def)

lemma intake_taken:
  assumes run: "save_and_ingest_multimodal e s m w = (Inr True, v)"
    and kept: "row_inv (s_id s) just_opened v" and grown: "prefix (sent w) (sent v)"
  shows "\<exists>w'. intake e s m w = (Inr (), w') \<and> told (requester_oid s) w w' \<and> row_ends s w'"
proof -
  obtain t where t: "material_at v s = Some t" using run accepted_message_has_material by blast
  let ?u = "w_update_session (s_id s) [Set_stage AWAITING_MATERIAL_CONFIRM] v"
  obtain b where b: "send_material_confirm_dm e s ?u = safe_dm e (requester_oid s) b ?u"
    using send_material_confirm_is_dm by blast
  let ?w = "snd (safe_dm e (requester_oid s) b ?u)"
  have "intake e s m w = (Inr (), ?w)"
    using run b safe_dm_eq by (simp add: intake_run run_simps)
  moreover have "material_at ?w s = Some t" using t by (simp add: material_at_def folder_at_def safe_dm_state)
  then have "row_ends s ?w"
    unfolding safe_dm_keeps by (intro row_inv_updated [OF kept]) (simp add: just_opened_def intake_end_def material_at_def)
  moreover have "told (requester_oid s) w ?w" using grown by (intro told_safe_dm) simp
  ultimately show ?thesis by blast
qed

lemma intake_refused:
  assumes run: "save_and_ingest_multimodal e s m w = (Inr False, v)" and kept: "row_inv (s_id s) just_opened v"
  shows "\<exists>w'. intake e s m w = (Inr (), w') \<and> told (requester_oid s) w w' \<and> row_ends s w'"
proof -
  have "intake e s m w = cancel_intake e s v"
    using run by (simp add: intake_run)
  then have "intake e s m w = (Inr (), intake_cancelled e s v)"
    using cancel_intake_run [of e s ret v] by (simp add: bnd_def ret_def split: prod.splits sum.splits)
  moreover have "told (requester_oid s) w (intake_cancelled e s v)"
    using refused_is_told [OF run] by (simp add: told_def)
  ultimately show ?thesis using cancelled_row_ends [OF kept] by blast
qed

lemma intake_raised:
  assumes run: "save_and_ingest_multimodal e s m w = (Inl x, v)"
    and kept: "row_inv (s_id s) just_opened v" and grown: "prefix (sent w) (sent v)"
  shows "\<exists>w'. intake e s m w = (Inr (), w') \<and> told (requester_oid s) w w' \<and> row_ends s w'"
proof -
  have returns: "intake e s m w = (Inr (), w')" if "intake_handler e s x v = (Inr None, w')" for w'
    using run that by (simp add: intake_run bnd_Inr run_ret)
  show ?thesis
  proof (cases "\<exists>msg. x = IngestRejected msg")
    case True
    then obtain msg where x: "x = IngestRejected msg" by blast
    let ?u = "snd (safe_dm e (requester_oid s) (DmRejected msg) v)"
    have "intake e s m w = (Inr (), intake_cancelled e s ?u)"
      using x by (intro returns) (simp add: run_safe_dm cancel_intake_run run_ret)
    moreover have "told (requester_oid s) w (intake_cancelled e s ?u)" using told_safe_dm [OF grown] by (simp add: told_def)
    moreover have "row_ends s (intake_cancelled e s ?u)" using kept by (intro cancelled_row_ends) (simp add: safe_dm_keeps)
    ultimately show ?thesis by blast
  next
    case False
    let ?d = "if is_terminal_failure x then DmLlmFailed ''ingest'' else DmSessionFailed"
    let ?u = "w_update_session (s_id s) [Set_stage INGEST_FAILED, Set_status FAILED] v"
    let ?w = "snd (safe_dm e (requester_oid s) ?d ?u)"
    have "intake_handler e s x v = (Inr None, ?w)" using False by (cases x) (simp_all add: fail_session_run run_ret)
    then have "intake e s m w = (Inr (), ?w)" by (rule returns)
    moreover have "told (requester_oid s) w ?w" using grown by (intro told_safe_dm) simp
    moreover have "row_ends s ?w"
      unfolding safe_dm_keeps by (rule row_inv_updated [OF kept]) (simp add: intake_end_def)
    ultimately show ?thesis by blast
  qed
qed

lemma intake_outcome:
  assumes row: "row_inv (s_id s) just_opened w"
  shows "\<exists>w'. intake e s m w = (Inr (), w') \<and> told (requester_oid s) w w' \<and> row_ends s w'"
proof -
  obtain q v where run: "save_and_ingest_multimodal e s m w = (q, v)" by fastforce
  have kept: "row_inv (s_id s) just_opened v"
    using row_fact.steps_save_and_ingest [OF refl] row run by (rule keeps_run)
  have grown: "prefix (sent w) (sent v)" using run by (rule sent_grows [OF history.steps_save_and_ingest [OF TrueI]])
  consider "q = Inr True" | "q = Inr False" | x where "q = Inl x" by (cases q) auto
  then show ?thesis
    using run kept grown by cases (auto intro: intake_taken intake_refused intake_raised)
qed

lemma find_fresh:
  assumes "s_id y \<notin> set (session_ids w)"
  shows "find (\<lambda>x. s_id x = s_id y) (sessions w @ [y]) = Some y"
proof -
  have "find (\<lambda>x. s_id x = i) (ss @ [y]) = Some y" if "i \<notin> s_id ` set ss" "s_id y = i" for i ss
    using that by (induction ss) auto
  then show ?thesis using assms by (simp add: session_ids_def)
qed

lemma new_row_moved:
  assumes rows: "sessions v = sessions w @ [s]" and fresh: "s_id s \<notin> set (session_ids w)"
    and moved: "rows_move (s_id s) S v w'" and P: "row_inv (s_id s) P w'"
  shows "\<exists>r. sessions w' = sessions w @ [r] \<and> same_identity s r \<and> P r"
proof -
  obtain old r where parts: "sessions w' = old @ [r]" "list_all2 (row_moves (s_id s) S) (sessions w) old"
      "row_moves (s_id s) S s r"
    using moved rows unfolding rows_move_def by (auto simp: list_all2_append1 list_all2_Cons1)
  have "list_all2 (=) (sessions w) old"
    using parts(2) fresh unfolding list_all2_conv_all_nth row_moves_def session_ids_def
    by (metis nth_mem image_eqI list.set_map)
  then have w': "sessions w' = sessions w @ [r]" using parts(1) by (simp add: list.rel_eq)
  have same: "same_identity s r" using parts(3) by (simp add: row_moves_def)
  have "s_id r = s_id s" using same by (simp add: same_identity_def)
  then have "find (\<lambda>x. s_id x = s_id s) (sessions w') = Some r" using find_fresh [of r w] fresh w' by simp
  then show ?thesis using P w' same by (auto simp: row_inv_def)
qed

lemma create_session_works:
  assumes "fresh_id e (tick w) \<notin> set (session_ids w)" and "req \<in> set (user_ids w)" and "resp \<in> set (user_ids w)"
  shows "\<exists>s v. create_session e req resp style rules prof w = (Inr s, v) \<and> sent v = sent w"
  using assms
  by (simp add: create_session_def Let_def run_simps modify_bnd run_ask run_now_iso prog_simps w_insert_session_def session_ids_def user_ids_def
      w_folder_def ticked_def)

text \<open>C4: The first message of a paired requester is never lost: a session of that requester with the paired
  responder is opened, the handler returns, the requester is told, and the session waits for the
  requester with its material stored, or was cancelled with its closing time, or has failed.\<close>

theorem first_message_outcome:
  assumes u: "find_user w (m_sender_open_id m) = Some u" and "REQUESTER \<in> set (roles u)"
    and none: "find_active e w (m_sender_open_id m) = None" and p: "paired_responder w u = Some p"
    and fresh: "fresh_id e (Suc (Suc (Suc (tick w)))) \<notin> set (session_ids w)"
  shows "\<exists>w' r. handle_incoming e m w = (Inr (), w') \<and> sessions w' = sessions w @ [r]
    \<and> requester_oid r = m_sender_open_id m \<and> responder_oid r = open_id p
    \<and> intake_end w' r \<and> told (m_sender_open_id m) w w'"
proof -
  have oid: "open_id u = m_sender_open_id m" and ids: "open_id u \<in> set (user_ids w)" "open_id p \<in> set (user_ids w)"
    using u p by (auto simp: paired_responder_def find_user_def user_ids_def dest!: find_SomeD split: option.splits if_splits)
  let ?w = "ticked (ticked (ticked w))"
  let ?create = "create_session e (open_id u) (open_id p) (text_or_empty (admin_style_md e (tick w)))
     (text_or_empty (review_rules_md e (Suc (tick w)))) (text_or_empty (responder_md e (Suc (Suc (tick w))) (open_id p)))"
  obtain s v where made: "?create ?w = (Inr s, v)" and quiet: "sent v = sent w"
    using create_session_works [of e ?w "open_id u" "open_id p" "text_or_empty (admin_style_md e (tick w))"
      "text_or_empty (review_rules_md e (Suc (tick w)))" "text_or_empty (responder_md e (Suc (Suc (tick w))) (open_id p))"]
      fresh ids by (simp add: user_ids_def) blast
  then obtain ts where s: "s = new_session e (fresh_id e (tick ?w)) (open_id u) (open_id p) ts"
      and rows: "sessions v = sessions w @ [s]" and new: "s_id s \<notin> set (session_ids w)"
    using create_session_rows [OF made] by auto
  have "row_inv (s_id s) just_opened v"
    using find_fresh [OF new] rows s by (simp add: row_inv_def just_opened_def new_session_def)
  from intake_outcome [OF this, of e m] obtain w' where run: "intake e s m v = (Inr (), w')"
    and tells: "told (requester_oid s) v w'" and inv: "row_inv (s_id s) (\<lambda>r. key_of r = key_of s \<longrightarrow> intake_end w' r) w'"
    by blast
  have "rows_move (s_id s) opening_stages v w'"
    by (rule stepsE [where m = "intake e s m", OF _ run], rule moves.steps_intake) simp_all
  from new_row_moved [OF rows new this inv] obtain r where r: "sessions w' = sessions w @ [r]"
    "same_identity s r" "key_of r = key_of s \<longrightarrow> intake_end w' r" by blast
  have "handle_incoming e m w = (Inr (), w')"
    using u assms(2) none oid p made run
    by (simp add: handle_incoming_def run_get_user serve_sender_def get_active_session_for_def gets_bnd no_session_run bnd_Inr)
  moreover have "told (m_sender_open_id m) w w'" using tells s oid quiet by (simp add: told_def new_session_def)
  ultimately show ?thesis
    using r s oid by (auto simp: same_identity_def new_session_def key_of_def)
qed

definition idle_world :: world where
  "idle_world = demo_world\<lparr>sessions := []\<rparr>"

theorem first_message_outcome_witness:
  "\<exists>w' r. handle_incoming demo_env demo_message idle_world = (Inr (), w') \<and> sessions w' = [r] \<and> intake_end w' r"
proof -
  have "find_user idle_world (m_sender_open_id demo_message) = Some demo_requester" "REQUESTER \<in> set (roles demo_requester)"
    "find_active demo_env idle_world (m_sender_open_id demo_message) = None"
    "paired_responder idle_world demo_requester = Some demo_responder"
    "fresh_id demo_env (Suc (Suc (Suc (tick idle_world)))) \<notin> set (session_ids idle_world)"
    by code_simp+
  from first_message_outcome [OF this] show ?thesis by (auto simp: idle_world_def)
qed

end
