(* ===== verification/PostParser.thy ===== *)
theory PostParser imports Webhook begin

text \<open>
  lark/parser.py: a Lark rich-text message as plain text, with tables that nest paragraphs in
  their cells. The recursion goes through the parsed JSON and ends because cells are smaller than
  the paragraph they stand in.
\<close>

section \<open>Element handlers\<close>

text \<open>\<open>''.join(parts)\<close>\<close>

definition join_values :: "json list \<Rightarrow> exn + ustr" where
  "join_values js = map_sum id concat (trav need_str js)"

definition fallback_el :: "env \<Rightarrow> obj \<Rightarrow> ustr" where
  "fallback_el e el =
     (case map_of el (asc ''text'') of Some v \<Rightarrow> fmt e v
      | None \<Rightarrow> (case map_of el (asc ''data'') of Some v \<Rightarrow> fmt e v
      | None \<Rightarrow> (case map_of el (asc ''title'') of Some v \<Rightarrow> fmt e v
      | None \<Rightarrow> asc ''['' @ fmt e (obj_get_or el ''tag'' (JStr (asc ''unknown''))) @ asc '']'')))"

definition text_el :: "obj \<Rightarrow> json" where
  "text_el el = obj_get_or el ''text'' (JStr [])"

definition link_el :: "env \<Rightarrow> obj \<Rightarrow> json" where
  "link_el e el =
     (let t = obj_get_or el ''text'' (JStr []); href = obj_get_or el ''href'' (JStr []) in
      if truthy href \<and> href \<noteq> t then JStr (fmt e t @ asc ''('' @ fmt e href @ asc '')'')
      else if truthy t then t else href)"

definition at_el :: "env \<Rightarrow> obj \<Rightarrow> ustr" where
  "at_el e el = asc ''@'' @ fmt e
     (if truthy (obj_get_or el ''user_name'' (JStr [])) then obj_get_or el ''user_name'' (JStr [])
      else obj_get_or el ''user_id'' (JStr []))"

definition img_el :: ustr where
  "img_el = asc ''['' @ [22270, 29255] @ asc '']''"

definition emoji_el :: "env \<Rightarrow> obj \<Rightarrow> ustr" where
  "emoji_el e el = asc ''['' @ fmt e (obj_get_or el ''emoji_type'' (JStr [])) @ asc '']''"

definition code_block_el :: "env \<Rightarrow> obj \<Rightarrow> ustr" where
  "code_block_el e el =
     (let lang = obj_get_or el ''language'' (JStr []) in
      (if truthy lang then asc ''[code:'' @ fmt e lang @ asc '']'' else asc ''[code]'')
      @ [10] @ fmt e (obj_get_or el ''text'' (JStr [])))"

definition mention_doc_el :: "env \<Rightarrow> obj \<Rightarrow> ustr" where
  "mention_doc_el e el =
     (let title = fmt e (obj_get_or el ''title'' (JStr []));
          url = (if truthy (obj_get_or el ''url'' (JStr [])) then obj_get_or el ''url'' (JStr [])
                 else obj_get_or el ''redirect_link'' (JStr [])) in
      if truthy url then [128196] @ asc '' '' @ title @ asc '' ('' @ fmt e url @ asc '')''
      else [128196] @ asc '' '' @ title)"

definition hr_el :: ustr where
  "hr_el = asc ''---''"

text \<open>The rows of a table whose cells are to be laid out, in the order \<open>_table\<close> visits them; a row that
  cannot be iterated raises when its turn comes.\<close>

definition table_rows :: "obj \<Rightarrow> exn + (exn + json list) list" where
  "table_rows el =
     (case as_obj (obj_get_or el ''table'' (JObj [])) of Inl x \<Rightarrow> Inl x
      | Inr t \<Rightarrow>
          (let header = obj_get_or t ''header_row'' (JArr []);
               rows = obj_get_or t ''table_rows'' (JArr []) in
           Inr ((if truthy header then [iter_json header] else [])
                @ (case iter_json rows of Inl x \<Rightarrow> [Inl x] | Inr js \<Rightarrow> map iter_json js))))"

definition table_line_text :: "ustr list \<Rightarrow> ustr" where
  "table_line_text cells = join (asc '' | '') cells"

text \<open>A cell that is a list of plain strings, or a string, is joined by spaces.\<close>

definition plain_cell :: "json list \<Rightarrow> ustr" where
  "plain_cell js = join [32] (concat (map (\<lambda>j. case j of JStr s \<Rightarrow> [s] | _ \<Rightarrow> []) js))"

section \<open>Termination\<close>

lemma size_value: "(k, v) \<in> set d \<Longrightarrow> size v < size (JObj d)"
  by (induction d) auto

text \<open>An element that is a list or an object lies strictly inside what was iterated.\<close>

lemma size_iter:
  assumes "iter_json j = Inr js" and "x \<in> set js" and "\<forall>s. x \<noteq> JStr s"
  shows "size x < size j"
  using assms by (auto simp: iter_json_def less_Suc_eq_le size_list_estimation' split: json.splits)

lemma size_field:
  assumes "iter_json (obj_get_or d k (JArr [])) = Inr js" and "x \<in> set js" and "\<forall>s. x \<noteq> JStr s"
  shows "size x < size (JObj d)"
proof (cases "map_of d (asc k)")
  case None
  with assms show ?thesis by (simp add: obj_get_or_def iter_json_def)
next
  case (Some v)
  then have "size v < size (JObj d)" by (metis map_of_SomeD size_value)
  moreover have "size x < size v" using Some assms by (auto simp: obj_get_or_def intro: size_iter)
  ultimately show ?thesis by linarith
qed

lemma table_cell_size:
  assumes rows: "table_rows el = Inr rows" and row: "Inr row \<in> set rows" and cell: "JArr c \<in> set row"
  shows "size (JArr c) < size (JObj el)"
proof -
  obtain t where t: "obj_get_or el ''table'' (JObj []) = JObj t"
    and parts: "rows = (let header = obj_get_or t ''header_row'' (JArr []); rs = obj_get_or t ''table_rows'' (JArr []) in
           (if truthy header then [iter_json header] else [])
           @ (case iter_json rs of Inl x \<Rightarrow> [Inl x] | Inr js \<Rightarrow> map iter_json js))"
    using rows by (auto simp: table_rows_def as_obj_def Let_def split: json.splits)
  from row parts consider "iter_json (obj_get_or t ''header_row'' (JArr [])) = Inr row"
    | js j where "iter_json (obj_get_or t ''table_rows'' (JArr [])) = Inr js" "j \<in> set js" "iter_json j = Inr row"
    by (auto simp: Let_def split: if_splits sum.splits)
  then have inside: "size (JArr c) < size (JObj t)"
  proof cases
    case 1
    then show ?thesis using cell by (rule size_field) simp
  next
    case 2
    have "size (JArr c) < size j" using 2(3) cell by (rule size_iter) simp
    moreover have "\<forall>s. j \<noteq> JStr s"
      using 2(3) cell by (auto simp: iter_json_def)
    then have "size j < size (JObj t)" using 2(1,2) by (intro size_field)
    ultimately show ?thesis by linarith
  qed
  show ?thesis
  proof (cases "map_of el (asc ''table'')")
    case None
    with t inside show ?thesis by (simp add: obj_get_or_def)
  next
    case (Some v)
    with t have "v = JObj t" by (simp add: obj_get_or_def)
    with Some have "size (JObj t) < size (JObj el)" by (metis map_of_SomeD size_value)
    with inside show ?thesis by linarith
  qed
qed

lemma nested_cell_size:
  assumes "iter_json para = Inr els" and "JObj d \<in> set els" and "table_rows d = Inr rows"
    and "Inr row \<in> set rows" and "JArr c \<in> set row"
  shows "size (JArr c) < size para"
proof -
  have "size (JObj d) < size para" using assms(1,2) by (rule size_iter) simp
  with table_cell_size [OF assms(3,4,5)] show ?thesis by linarith
qed

section \<open>The parser\<close>

text \<open>\<open>_inline_cell\<close>, given the function that walks a paragraph.\<close>

definition inline_cell :: "(json \<Rightarrow> exn + ustr) \<Rightarrow> json \<Rightarrow> exn + ustr" where
  "inline_cell walk cell =
     (case cell of
        JArr js \<Rightarrow>
          (case js of [] \<Rightarrow> Inr []
           | j # _ \<Rightarrow> (case j of JStr s \<Rightarrow> Inr (plain_cell js) | _ \<Rightarrow> walk cell))
      | JStr s \<Rightarrow> Inr (plain_cell (map (\<lambda>c. JStr [c]) s))
      | JObj d \<Rightarrow> if d = [] then Inr [] else Inl KeyError
      | _ \<Rightarrow> if truthy cell then Inl TypeError else Inr [])"

lemma inline_cell_cong [fundef_cong]:
  "cell = cell' \<Longrightarrow> (\<And>c. cell' = JArr c \<Longrightarrow> walk (JArr c) = walk' (JArr c)) \<Longrightarrow>
   inline_cell walk cell = inline_cell walk' cell'"
  by (auto simp: inline_cell_def split: json.splits list.splits)

text \<open>\<open>_table\<close>\<close>

definition table_el :: "(json \<Rightarrow> exn + ustr) \<Rightarrow> obj \<Rightarrow> exn + json" where
  "table_el walk d =
     (case table_rows d of Inl x \<Rightarrow> Inl x
      | Inr rows \<Rightarrow>
          map_sum id (\<lambda>ls. JStr (join [10] ls))
            (trav (\<lambda>row. case row of Inl x \<Rightarrow> Inl x
               | Inr cells \<Rightarrow> map_sum id table_line_text (trav (inline_cell walk) cells)) rows))"

lemma table_el_cong [fundef_cong]:
  assumes "d = d'" and "\<And>rows row c. table_rows d' = Inr rows \<Longrightarrow> Inr row \<in> set rows \<Longrightarrow> JArr c \<in> set row \<Longrightarrow>
      walk (JArr c) = walk' (JArr c)"
  shows "table_el walk d = table_el walk' d'"
proof -
  have "trav (\<lambda>row. case row of Inl x \<Rightarrow> Inl x | Inr cells \<Rightarrow> map_sum id table_line_text (trav (inline_cell walk) cells)) rows
      = trav (\<lambda>row. case row of Inl x \<Rightarrow> Inl x | Inr cells \<Rightarrow> map_sum id table_line_text (trav (inline_cell walk') cells)) rows"
    if rows: "table_rows d' = Inr rows" for rows
  proof (intro trav_cong refl)
    fix row assume "row \<in> set rows"
    then have "trav (inline_cell walk) cells = trav (inline_cell walk') cells" if "row = Inr cells" for cells
      using that rows by (intro trav_cong refl inline_cell_cong) (auto intro: assms(2))
    then show "(case row of Inl x \<Rightarrow> Inl x | Inr cells \<Rightarrow> map_sum id table_line_text (trav (inline_cell walk) cells))
      = (case row of Inl x \<Rightarrow> Inl x | Inr cells \<Rightarrow> map_sum id table_line_text (trav (inline_cell walk') cells))"
      by (cases row) auto
  qed
  then show ?thesis unfolding table_el_def assms(1) by (cases "table_rows d'") auto
qed

text \<open>The handlers that do not recurse; \<open>_fallback\<close> for other tags.\<close>

definition leaf_el :: "env \<Rightarrow> json \<Rightarrow> obj \<Rightarrow> json" where
  "leaf_el e tag d =
     (if tag = JStr (asc ''text'') then text_el d
      else if tag = JStr (asc ''a'') then link_el e d
      else if tag = JStr (asc ''at'') then JStr (at_el e d)
      else if tag = JStr (asc ''img'') then JStr img_el
      else if tag = JStr (asc ''emoji'') then JStr (emoji_el e d)
      else if tag = JStr (asc ''code_block'') then JStr (code_block_el e d)
      else if tag = JStr (asc ''mention_doc'') then JStr (mention_doc_el e d)
      else if tag = JStr (asc ''hr'') then JStr hr_el
      else JStr (fallback_el e d))"

text \<open>A tag that cannot be a dict key raises.\<close>

definition walk_el :: "(json \<Rightarrow> exn + ustr) \<Rightarrow> env \<Rightarrow> json \<Rightarrow> exn + json" where
  "walk_el walk e el =
     (case el of
        JObj d \<Rightarrow>
          (let tag = obj_get_or d ''tag'' (JStr []) in
           if \<not> hashable tag then Inl TypeError
           else if tag = JStr (asc ''table'') then table_el walk d
           else Inr (leaf_el e tag d))
      | _ \<Rightarrow> Inl AttributeError)"

lemma walk_el_cong [fundef_cong]:
  assumes "e = e'" and "el = el'" and "\<And>d rows row c. el' = JObj d \<Longrightarrow> table_rows d = Inr rows \<Longrightarrow>
      Inr row \<in> set rows \<Longrightarrow> JArr c \<in> set row \<Longrightarrow> walk (JArr c) = walk' (JArr c)"
  shows "walk_el walk e el = walk_el walk' e' el'"
  using assms by (auto simp: walk_el_def Let_def split: json.splits intro: table_el_cong)

function walk_paragraph :: "env \<Rightarrow> json \<Rightarrow> exn + ustr" where
  "walk_paragraph e para =
     (case iter_json para of Inl x \<Rightarrow> Inl x
      | Inr els \<Rightarrow>
          (case trav (walk_el (walk_paragraph e) e) els of
             Inl x \<Rightarrow> Inl x
           | Inr parts \<Rightarrow> join_values parts))"
  by pat_completeness auto
termination
  by (relation "measure (\<lambda>(e, j). size j)") (auto dest: nested_cell_size)

declare walk_paragraph.simps [simp del]

fun walk_lines :: "env \<Rightarrow> json list \<Rightarrow> exn + ustr list" where
  "walk_lines e [] = Inr []"
| "walk_lines e (p # ps) =
     (case walk_paragraph e p of Inl x \<Rightarrow> Inl x
      | Inr l \<Rightarrow> map_sum id (\<lambda>ls. if l \<noteq> [] then l # ls else ls) (walk_lines e ps))"

definition parse_post_content :: "env \<Rightarrow> obj \<Rightarrow> exn + ustr" where
  "parse_post_content e content =
     (case as_obj (obj_get_or content ''zh_cn'' (JObj [])) of Inl x \<Rightarrow> Inl x
      | Inr zh \<Rightarrow>
          (let title = obj_get_or zh ''title'' (JStr []) in
           case iter_json (obj_get_or zh ''content'' (JArr [])) of Inl x \<Rightarrow> Inl x
           | Inr ps \<Rightarrow>
               (case walk_lines e ps of Inl x \<Rightarrow> Inl x
                | Inr ls \<Rightarrow>
                    if truthy title then map_sum id (\<lambda>t. join [10] (t # ls)) (need_str title)
                    else Inr (join [10] ls))))"

section \<open>Agreement with the webhook's extractor\<close>

text \<open>Text, mentions and pictures, with the text given as a string.\<close>

definition plain_element :: "json \<Rightarrow> bool" where
  "plain_element j = (case j of
     JObj d \<Rightarrow> (obj_get_or d ''tag'' (JStr []) = JStr (asc ''text'') \<and> (case obj_get_or d ''text'' (JStr []) of JStr s \<Rightarrow> True | _ \<Rightarrow> False))
       \<or> obj_get_or d ''tag'' (JStr []) = JStr (asc ''at'') \<or> obj_get_or d ''tag'' (JStr []) = JStr (asc ''img'')
   | _ \<Rightarrow> False)"

definition plain_text :: "env \<Rightarrow> json \<Rightarrow> ustr" where
  "plain_text e j = (case j of
     JObj d \<Rightarrow>
       (if obj_get_or d ''tag'' (JStr []) = JStr (asc ''text'')
        then (case obj_get_or d ''text'' (JStr []) of JStr s \<Rightarrow> s | _ \<Rightarrow> [])
        else if obj_get_or d ''tag'' (JStr []) = JStr (asc ''at'') then at_el e d else img_el)
   | _ \<Rightarrow> [])"

lemma plain_element_cases:
  assumes "plain_element el"
  obtains d s where "el = JObj d" "obj_get_or d ''tag'' (JStr []) = JStr (asc ''text'')" "obj_get_or d ''text'' (JStr []) = JStr s"
  | d where "el = JObj d" "obj_get_or d ''tag'' (JStr []) = JStr (asc ''at'')"
  | d where "el = JObj d" "obj_get_or d ''tag'' (JStr []) = JStr (asc ''img'')"
proof (cases el)
  case (JObj d)
  with assms that show ?thesis
    by (cases "obj_get_or d ''text'' (JStr [])") (auto simp: plain_element_def simp del: asc_Cons)
qed (use assms in \<open>simp_all add: plain_element_def\<close>)

lemma get_truthy: "(if truthy (obj_get d k) then obj_get d k else x) = (if truthy (obj_get_or d k (JStr [])) then obj_get_or d k (JStr []) else x)"
  by (simp add: obj_get_def obj_get_or_def split: option.split)

lemma post_element_plain:
  assumes "plain_element el"
  shows "post_element e el = Inr [plain_text e el]"
  using assms
  by (cases rule: plain_element_cases)
     (simp_all add: post_element_def plain_text_def need_str_def at_el_def img_el_def get_truthy)

lemma post_line_plain: "list_all plain_element els \<Longrightarrow> post_line e els = Inr (map (plain_text e) els)"
  by (induction els) (auto simp: post_element_plain)

lemma walk_el_plain:
  assumes "plain_element el"
  shows "walk_el walk e el = Inr (JStr (plain_text e el))"
  using assms
  by (cases rule: plain_element_cases)
     (simp_all add: walk_el_def leaf_el_def text_el_def plain_text_def)

lemma walk_plain:
  assumes "list_all plain_element els"
  shows "walk_paragraph e (JArr els) = Inr (concat (map (plain_text e) els))"
proof -
  have "trav (walk_el (walk_paragraph e) e) els = Inr (map (\<lambda>el. JStr (plain_text e el)) els)"
    using assms by (induction els) (auto simp: walk_el_plain)
  then show ?thesis
    by (simp add: walk_paragraph.simps [of e "JArr els"] iter_json_def join_values_def trav_map need_str_def comp_def)
qed

lemma lines_plain:
  "list_all (list_all plain_element) ps \<Longrightarrow>
   \<exists>ls. post_lines e (map JArr ps) = Inr ls \<and> walk_lines e (map JArr ps) = Inr (filter (\<lambda>p. p \<noteq> []) ls)"
proof (induction ps)
  case (Cons p ps)
  then obtain ls where "post_lines e (map JArr ps) = Inr ls"
    "walk_lines e (map JArr ps) = Inr (filter (\<lambda>p. p \<noteq> []) ls)" by auto
  with Cons.prems show ?case by (auto simp: walk_plain post_line_plain)
qed simp

text \<open>C31: The webhook's own extractor and the general post parser agree on messages made of text,
  mentions and pictures; the webhook gets the inner object, the parser the one with the language.\<close>

theorem post_extractors_agree:
  assumes "list_all (list_all plain_element) ps"
  shows "extract_post_text e [(asc ''title'', JStr t), (asc ''content'', JArr (map JArr ps))]
    = parse_post_content e [(asc ''zh_cn'', JObj [(asc ''title'', JStr t), (asc ''content'', JArr (map JArr ps))])]"
proof -
  obtain ls where "post_lines e (map JArr ps) = Inr ls"
    "walk_lines e (map JArr ps) = Inr (filter (\<lambda>p. p \<noteq> []) ls)"
    using lines_plain [OF assms] by blast
  then show ?thesis
    by (cases "ps = []") (auto simp: extract_post_text_def parse_post_content_def obj_get_or_def obj_get_def as_obj_def iter_json_def need_str_def
        join_nonempty_def Let_def)
qed

theorem post_extractors_agree_witness:
  "extract_post_text demo_env [(asc ''title'', JStr (asc ''Plan'')), (asc ''content'', JArr (map JArr
      [[JObj [(asc ''tag'', JStr (asc ''text'')), (asc ''text'', JStr (asc ''hello ''))],
        JObj [(asc ''tag'', JStr (asc ''at'')), (asc ''user_name'', JStr (asc ''Ann''))]],
       [JObj [(asc ''tag'', JStr (asc ''img''))]]]))]
   = Inr (asc ''Plan'' @ [10] @ asc ''hello @Ann'' @ [10] @ img_el)"
  apply (subst post_extractors_agree)
   apply (simp add: plain_element_def obj_get_or_def)
  by code_simp

end
