(* ===== verification/Http.thy ===== *)
theory Http imports World begin

text \<open>
  What the three network clients (llm/deepseek.py, lark/token.py, lark/client.py) share: requests
  and responses, the clock, sleeping. The network, the clocks, random numbers, \<open>float(\<dots>)\<close>,
  \<open>json.dumps\<close> and \<open>str(\<dots>)\<close> of values and exceptions are in \<open>http_env\<close>; an answer may
  depend on everything that happened before (\<open>n_tick\<close>). Times are whole milliseconds. The
  requests sent and the pauses made are kept in the state, in order.
\<close>

record http_request =
  hq_method :: string
  hq_path :: ustr
  hq_auth :: ustr
  hq_json :: "json option"
  hq_params :: obj

record http_response =
  hr_status :: nat
  hr_success :: bool
  hr_refusal :: "exn option"
  hr_json :: "json option"
  hr_retry_after :: "ustr option"
  hr_content :: "int list"

record http_env =
  http_send :: "nat \<Rightarrow> http_request \<Rightarrow> exn + http_response"
  unix_ms :: "nat \<Rightarrow> int"
  monotonic_ms :: "nat \<Rightarrow> int"
  jitter_ms :: "nat \<Rightarrow> int"
  float_ms :: "ustr \<Rightarrow> int option"
  int_of_str :: "ustr \<Rightarrow> int option"
  json_dumps :: "json \<Rightarrow> ustr"
  value_str :: "json \<Rightarrow> ustr"
  error_str :: "exn \<Rightarrow> ustr"

record net =
  n_tick :: nat
  n_requests :: "http_request list"
  n_slept :: "int list"

type_synonym ('s, 'b) net_act = "('s net_scheme, 'b) prog"

definition look :: "(nat \<Rightarrow> 'b) \<Rightarrow> ('s, 'b) net_act" where
  "look f = (\<lambda>s. (Inr (f (n_tick s)), s\<lparr>n_tick := Suc (n_tick s)\<rparr>))"

definition http_call :: "http_env \<Rightarrow> http_request \<Rightarrow> ('s, http_response) net_act" where
  "http_call hc rq = (\<lambda>s. (http_send hc (n_tick s) rq,
     s\<lparr>n_tick := Suc (n_tick s), n_requests := n_requests s @ [rq]\<rparr>))"

definition sleep_ms :: "int \<Rightarrow> ('s, unit) net_act" where
  "sleep_ms d = modify (\<lambda>s. s\<lparr>n_slept := n_slept s @ [d]\<rparr>)"

text \<open>\<open>raise_for_status\<close> raises \<open>hr_refusal\<close> if the library refuses the response; \<open>json\<close> fails on
  a body that is not JSON; \<open>hr_success\<close> is the library's \<open>is_success\<close>.\<close>

definition raise_for_status :: "http_response \<Rightarrow> exn + unit" where
  "raise_for_status r = (case hr_refusal r of None \<Rightarrow> Inr () | Some x \<Rightarrow> Inl x)"

definition response_json :: "http_response \<Rightarrow> exn + json" where
  "response_json r = (case hr_json r of None \<Rightarrow> Inl ValueError | Some j \<Rightarrow> Inr j)"

text \<open>Indexing what \<open>json.loads\<close> returned: \<open>j[k]\<close> and \<open>j[0]\<close>.\<close>

definition item :: "json \<Rightarrow> string \<Rightarrow> exn + json" where
  "item j k =
     (case j of
        JObj d \<Rightarrow> (case map_of d (asc k) of None \<Rightarrow> Inl KeyError | Some v \<Rightarrow> Inr v)
      | _ \<Rightarrow> Inl TypeError)"

definition item0 :: "json \<Rightarrow> exn + json" where
  "item0 j =
     (case j of
        JArr [] \<Rightarrow> Inl IndexError | JArr (x # xs) \<Rightarrow> Inr x
      | JStr [] \<Rightarrow> Inl IndexError | JStr (c # cs) \<Rightarrow> Inr (JStr [c])
      | JObj d \<Rightarrow> Inl KeyError
      | _ \<Rightarrow> Inl TypeError)"

text \<open>Fields the code takes for strings and integers without a check.\<close>

definition want_str :: "json \<Rightarrow> exn + ustr" where
  "want_str j = (case j of JStr s \<Rightarrow> Inr s | _ \<Rightarrow> Inl (OtherError (asc ''outside the model'')))"

definition want_int :: "json \<Rightarrow> exn + int" where
  "want_int j = (case j of JInt i \<Rightarrow> Inr i | _ \<Rightarrow> Inl (OtherError (asc ''outside the model'')))"

text \<open>\<open>str(v)\<close> and formatting a value.\<close>

definition str_of :: "http_env \<Rightarrow> json \<Rightarrow> ustr" where
  "str_of hc j = (case j of JStr s \<Rightarrow> s | _ \<Rightarrow> value_str hc j)"

lemma look_run [run_simps]: "bnd (look f) k s = k (f (n_tick s)) (s\<lparr>n_tick := Suc (n_tick s)\<rparr>)"
  by (simp add: look_def bnd_def)

lemma sleep_run [run_simps]: "bnd (sleep_ms d) k s = k () (s\<lparr>n_slept := n_slept s @ [d]\<rparr>)"
  by (simp add: sleep_ms_def bnd_def modify_def)

lemma http_run [run_simps]:
  "bnd (http_call hc rq) k s =
     (case http_send hc (n_tick s) rq of
        Inl x \<Rightarrow> (Inl x, s\<lparr>n_tick := Suc (n_tick s), n_requests := n_requests s @ [rq]\<rparr>)
      | Inr r \<Rightarrow> k r (s\<lparr>n_tick := Suc (n_tick s), n_requests := n_requests s @ [rq]\<rparr>))"
  by (simp add: http_call_def bnd_def)

section \<open>Concrete networks\<close>

definition demo_http :: "(nat \<Rightarrow> http_request \<Rightarrow> exn + http_response) \<Rightarrow> http_env" where
  "demo_http send_fun = \<lparr>http_send = send_fun, unix_ms = (\<lambda>n. 1000 * int n), monotonic_ms = (\<lambda>n. 1000 * int n),
     jitter_ms = (\<lambda>n. 250), float_ms = (\<lambda>s. None), int_of_str = (\<lambda>s. None), json_dumps = (\<lambda>j. asc ''json''),
     value_str = (\<lambda>j. asc ''value''), error_str = (\<lambda>x. asc ''error'')\<rparr>"

definition ok_response :: "json \<Rightarrow> http_response" where
  "ok_response j = \<lparr>hr_status = 200, hr_success = True, hr_refusal = None, hr_json = Some j, hr_retry_after = None, hr_content = []\<rparr>"

section \<open>What a client may send\<close>

text \<open>
  \<open>at_most P n m\<close>: whatever happens, \<open>m\<close> adds at most \<open>n\<close> requests that satisfy \<open>P\<close>, and
  takes none back. The bounds of composed programs add up.
\<close>

definition at_most :: "(http_request \<Rightarrow> bool) \<Rightarrow> nat \<Rightarrow> ('s, 'b) net_act \<Rightarrow> bool" where
  "at_most P n m \<longleftrightarrow>
     (\<forall>s. \<exists>rqs. n_requests (snd (m s)) = n_requests s @ rqs \<and> length (filter P rqs) \<le> n)"

lemma at_mostE:
  assumes "at_most P n m"
  obtains rqs where "n_requests (snd (m s)) = n_requests s @ rqs" and "length (filter P rqs) \<le> n"
  using assms unfolding at_most_def by blast

lemma at_most_pure:
  "at_most P n (ret a)" "at_most P n (raise_exn x)" "at_most P n (lift_sum r)" "at_most P n (look f)"
  "at_most P n (sleep_ms d)" "at_most P n (gets g)"
  by (simp_all add: at_most_def ret_def raise_exn_def lift_sum_def look_def sleep_ms_def modify_def gets_def)

lemma at_most_http:
  "at_most P 1 (http_call hc rq)" "\<not> P rq \<Longrightarrow> at_most P 0 (http_call hc rq)"
  by (simp_all add: at_most_def http_call_def)

lemma at_most_cases:
  assumes m: "at_most P a m" and f: "\<And>r. at_most P b (f r)"
    and k: "\<And>s. snd (k s) = snd (m s) \<or> (\<exists>r. k s = f r (snd (m s)))"
  shows "at_most P (a + b) k"
  unfolding at_most_def
proof (rule allI)
  fix s
  obtain rqs where 1: "n_requests (snd (m s)) = n_requests s @ rqs" "length (filter P rqs) \<le> a"
    using m by (rule at_mostE)
  from k [of s] show "\<exists>rqs. n_requests (snd (k s)) = n_requests s @ rqs \<and> length (filter P rqs) \<le> a + b"
  proof
    assume "snd (k s) = snd (m s)"
    with 1 show ?thesis by (auto intro: exI [of _ rqs])
  next
    assume "\<exists>r. k s = f r (snd (m s))"
    then obtain r where r: "k s = f r (snd (m s))" ..
    obtain rqs' where "n_requests (snd (f r (snd (m s)))) = n_requests (snd (m s)) @ rqs'"
      "length (filter P rqs') \<le> b" using f by (rule at_mostE)
    with 1 r show ?thesis by (auto intro: exI [of _ "rqs @ rqs'"])
  qed
qed

lemma at_most_bnd: "at_most P a m \<Longrightarrow> (\<And>x. at_most P b (f x)) \<Longrightarrow> at_most P (a + b) (bnd m f)"
  by (rule at_most_cases [where m = m and f = f]) (auto simp: bnd_def split: prod.splits sum.splits)

lemma at_most_catch: "at_most P a m \<Longrightarrow> (\<And>x. at_most P b (h x)) \<Longrightarrow> at_most P (a + b) (catch m h)"
  by (rule at_most_cases [where m = m and f = h]) (auto simp: catch_def split: prod.splits sum.splits)

lemma at_most_bnd0: "at_most P 0 m \<Longrightarrow> (\<And>x. at_most P b (f x)) \<Longrightarrow> at_most P b (bnd m f)"
  using at_most_bnd [of P 0 m b f] by simp

lemma at_most_if: "at_most P a m \<Longrightarrow> at_most P a k \<Longrightarrow> at_most P a (if b then m else k)"
  by simp

lemma at_most_option:
  "at_most P a m \<Longrightarrow> (\<And>x. at_most P a (f x)) \<Longrightarrow> at_most P a (case z of None \<Rightarrow> m | Some x \<Rightarrow> f x)"
  by (cases z) auto

end
