(* ===== verification/LarkClient.thy ===== *)
theory LarkClient imports Http begin

text \<open>
  lark/token.py and lark/client.py: the cached tenant token, the retry loop every API call goes
  through, the user cache, and the API methods on top.
\<close>

record lark_app =
  la_app_id :: ustr
  la_app_secret :: ustr
  la_base_url :: ustr

record lark_state = net +
  lk_token :: json
  lk_expires_at :: int
  lk_users :: "ustr \<Rightarrow> (json \<times> int) option"

type_synonym 'b lark_act = "(lark_state, 'b) prog"

definition new_client :: "lark_state" where
  "new_client = \<lparr>n_tick = 0, n_requests = [], n_slept = [], lk_token = JNull, lk_expires_at = 0,
     lk_users = (\<lambda>_. None)\<rparr>"

section \<open>The token cache\<close>

definition invalidate :: "unit lark_act" where
  "invalidate = modify (\<lambda>s. s\<lparr>lk_token := JNull, lk_expires_at := 0\<rparr>)"

text \<open>\<open>int(v)\<close> and \<open>v != 0\<close> on a JSON value.\<close>

definition py_int :: "http_env \<Rightarrow> json \<Rightarrow> exn + int" where
  "py_int hc j =
     (case j of
        JInt i \<Rightarrow> Inr i
      | JBool b \<Rightarrow> Inr (if b then 1 else 0)
      | JStr s \<Rightarrow> (case int_of_str hc s of None \<Rightarrow> Inl ValueError | Some i \<Rightarrow> Inr i)
      | _ \<Rightarrow> Inl TypeError)"

definition is_zero :: "json \<Rightarrow> bool" where
  "is_zero j \<longleftrightarrow> j = JInt 0 \<or> j = JBool False"

definition token_request :: "lark_app \<Rightarrow> http_request" where
  "token_request app =
     \<lparr>hq_method = ''POST'', hq_path = la_base_url app @ asc ''/open-apis/auth/v3/tenant_access_token/internal'',
      hq_auth = [], hq_json = Some (JObj [(asc ''app_id'', JStr (la_app_id app)),
        (asc ''app_secret'', JStr (la_app_secret app))]), hq_params = []\<rparr>"

definition fetch_token :: "http_env \<Rightarrow> lark_app \<Rightarrow> json lark_act" where
  "fetch_token hc app =
     bnd (http_call hc (token_request app)) (\<lambda>r.
     andthen (lift_sum (raise_for_status r))
     (bnd (lift_sum (response_json r)) (\<lambda>j.
      bnd (lift_sum (as_obj j)) (\<lambda>body.
      if \<not> is_zero (obj_get body ''code'') then raise_exn RuntimeError
      else
        bnd (lift_sum (item j ''tenant_access_token'')) (\<lambda>tok.
        andthen (modify (\<lambda>s. s\<lparr>lk_token := tok\<rparr>))
        (bnd (look (unix_ms hc)) (\<lambda>now.
         bnd (lift_sum (py_int hc (obj_get_or body ''expire'' (JInt 7200)))) (\<lambda>expire.
         andthen (modify (\<lambda>s. s\<lparr>lk_expires_at := now + 1000 * expire\<rparr>)) (ret tok)))))))))"

text \<open>\<open>get\<close>: the cached token is used until ten minutes before it expires.\<close>

definition token_get :: "http_env \<Rightarrow> lark_app \<Rightarrow> json lark_act" where
  "token_get hc app =
     bnd (gets lk_token) (\<lambda>tok.
     if truthy tok then
       bnd (look (unix_ms hc)) (\<lambda>now.
       bnd (gets lk_expires_at) (\<lambda>expires_at.
       if now < expires_at - 600 * 1000 then ret tok else fetch_token hc app))
     else fetch_token hc app)"

section \<open>The retry loop\<close>

definition MAX_ATTEMPTS :: nat where
  "MAX_ATTEMPTS = 4"

definition TOKEN_EXPIRED :: int where
  "TOKEN_EXPIRED = 99991663"

definition backoff_429 :: "http_env \<Rightarrow> nat \<Rightarrow> ustr option \<Rightarrow> int lark_act" where
  "backoff_429 hc attempt retry_after =
     (case (case retry_after of None \<Rightarrow> None | Some t \<Rightarrow> float_ms hc t) of
        Some d \<Rightarrow> ret d
      | None \<Rightarrow> bnd (look (jitter_ms hc)) (\<lambda>j. ret (2 ^ attempt * 1000 + j)))"

definition backoff_5xx :: "http_env \<Rightarrow> nat \<Rightarrow> int lark_act" where
  "backoff_5xx hc attempt = bnd (look (jitter_ms hc)) (\<lambda>j. ret (2 ^ attempt * 500 + j))"

definition api_request :: "http_env \<Rightarrow> lark_app \<Rightarrow> string \<Rightarrow> ustr \<Rightarrow> json option \<Rightarrow> obj \<Rightarrow> json \<Rightarrow> http_request" where
  "api_request hc app meth path payload params tok =
     \<lparr>hq_method = meth, hq_path = la_base_url app @ path, hq_auth = asc ''Bearer '' @ str_of hc tok,
      hq_json = payload, hq_params = params\<rparr>"

text \<open>What the loop body does with a response that is not a success.\<close>

definition refused :: "http_env \<Rightarrow> nat \<Rightarrow> http_response \<Rightarrow> unit lark_act" where
  "refused hc attempt r =
     andthen (if hr_status r \<noteq> 429 \<and> 400 \<le> hr_status r \<and> hr_status r < 500
              then lift_sum (raise_for_status r) else ret ())
     (andthen (if attempt = MAX_ATTEMPTS - 1 then lift_sum (raise_for_status r) else ret ())
     (bnd (if hr_status r = 429 then backoff_429 hc attempt (hr_retry_after r)
           else backoff_5xx hc attempt) sleep_ms))"

text \<open>The loop body: \<open>Some\<close> is its \<open>return\<close>, \<open>None\<close> goes on.\<close>

definition attempt_request ::
  "http_env \<Rightarrow> lark_app \<Rightarrow> string \<Rightarrow> ustr \<Rightarrow> json option \<Rightarrow> obj \<Rightarrow> nat \<Rightarrow> json option lark_act" where
  "attempt_request hc app meth path payload params attempt =
     bnd (token_get hc app) (\<lambda>tok.
     bnd (http_call hc (api_request hc app meth path payload params tok)) (\<lambda>r.
     bnd (lift_sum (response_json r)) (\<lambda>body.
     bnd (if hr_status r = 200
          then bnd (lift_sum (as_obj body)) (\<lambda>d. ret (obj_get d ''code'' = JInt TOKEN_EXPIRED))
          else ret False) (\<lambda>expired.
     if expired then andthen invalidate (ret None)
     else if hr_success r then ret (Some body)
     else andthen (refused hc attempt r) (ret None)))))"

fun request_loop ::
  "http_env \<Rightarrow> lark_app \<Rightarrow> string \<Rightarrow> ustr \<Rightarrow> json option \<Rightarrow> obj \<Rightarrow> nat \<Rightarrow> nat \<Rightarrow> json lark_act" where
  "request_loop hc app meth path payload params attempt 0 = raise_exn RuntimeError"
| "request_loop hc app meth path payload params attempt (Suc n) =
     bnd (attempt_request hc app meth path payload params attempt) (\<lambda>res.
     case res of
       Some body \<Rightarrow> ret body
     | None \<Rightarrow> request_loop hc app meth path payload params (attempt + 1) n)"

definition request_with_retry ::
  "http_env \<Rightarrow> lark_app \<Rightarrow> string \<Rightarrow> ustr \<Rightarrow> json option \<Rightarrow> obj \<Rightarrow> json lark_act" where
  "request_with_retry hc app meth path payload params =
     request_loop hc app meth path payload params 0 MAX_ATTEMPTS"

definition lark_post :: "http_env \<Rightarrow> lark_app \<Rightarrow> ustr \<Rightarrow> obj \<Rightarrow> json lark_act" where
  "lark_post hc app path payload = request_with_retry hc app ''POST'' path (Some (JObj payload)) []"

definition lark_get :: "http_env \<Rightarrow> lark_app \<Rightarrow> ustr \<Rightarrow> obj \<Rightarrow> json lark_act" where
  "lark_get hc app path params = request_with_retry hc app ''GET'' path None params"

section \<open>API methods\<close>

text \<open>\<open>out.get('data', {})\<close> and fields below it.\<close>

definition data_of :: "json \<Rightarrow> exn + json" where
  "data_of out = map_sum id (\<lambda>d. obj_get_or d ''data'' (JObj [])) (as_obj out)"

definition data_field :: "json \<Rightarrow> string \<Rightarrow> json \<Rightarrow> exn + json" where
  "data_field out k v =
     (case data_of out of Inl x \<Rightarrow> Inl x
      | Inr j \<Rightarrow> map_sum id (\<lambda>d. obj_get_or d k v) (as_obj j))"

definition messages_path :: ustr where
  "messages_path = asc ''/open-apis/im/v1/messages?receive_id_type=open_id''"

definition message_body :: "ustr \<Rightarrow> string \<Rightarrow> ustr \<Rightarrow> obj" where
  "message_body oid msg_type content =
     [(asc ''receive_id'', JStr oid), (asc ''msg_type'', JStr (asc msg_type)), (asc ''content'', JStr content)]"

definition text_content :: "http_env \<Rightarrow> ustr \<Rightarrow> ustr" where
  "text_content hc t = json_dumps hc (JObj [(asc ''text'', JStr t)])"

definition api_send_dm_text :: "http_env \<Rightarrow> lark_app \<Rightarrow> ustr \<Rightarrow> ustr \<Rightarrow> json lark_act" where
  "api_send_dm_text hc app oid t =
     bnd (lark_post hc app messages_path (message_body oid ''text'' (text_content hc t)))
       (\<lambda>out. lift_sum (data_field out ''message_id'' (JStr [])))"

definition api_send_dm_post :: "http_env \<Rightarrow> lark_app \<Rightarrow> ustr \<Rightarrow> json \<Rightarrow> ustr \<Rightarrow> json lark_act" where
  "api_send_dm_post hc app oid paragraphs title =
     bnd (lark_post hc app messages_path (message_body oid ''post''
            (json_dumps hc (JObj [(asc ''zh_cn'', JObj [(asc ''title'', JStr title), (asc ''content'', paragraphs)])]))))
       (\<lambda>out. lift_sum (data_field out ''message_id'' (JStr [])))"

definition is_status_error :: "exn \<Rightarrow> bool" where
  "is_status_error x = (case x of HTTPStatusError c \<Rightarrow> True | _ \<Rightarrow> False)"

definition update_message :: "http_env \<Rightarrow> lark_app \<Rightarrow> ustr \<Rightarrow> ustr \<Rightarrow> string \<Rightarrow> bool lark_act" where
  "update_message hc app message_id t msg_type =
     (let content = (if msg_type = ''post'' then t else text_content hc t) in
      catch
        (bnd (request_with_retry hc app ''PUT'' (asc ''/open-apis/im/v1/messages/'' @ message_id)
           (Some (JObj [(asc ''msg_type'', JStr (asc msg_type)), (asc ''content'', JStr content)])) []) (\<lambda>out.
         bnd (lift_sum (as_obj out)) (\<lambda>d. ret (is_zero (obj_get_or d ''code'' (JInt (- 1)))))))
        (\<lambda>x. if is_status_error x then ret False else raise_exn x))"

definition fetch_user :: "http_env \<Rightarrow> lark_app \<Rightarrow> ustr \<Rightarrow> int \<Rightarrow> json lark_act" where
  "fetch_user hc app oid now =
     bnd (lark_get hc app (asc ''/open-apis/contact/v3/users/'' @ oid)
            [(asc ''user_id_type'', JStr (asc ''open_id''))]) (\<lambda>out.
     bnd (lift_sum (data_field out ''user'' (JObj []))) (\<lambda>user.
     andthen (modify (\<lambda>s. s\<lparr>lk_users := (lk_users s)(oid := Some (user, now + 600 * 1000))\<rparr>))
     (ret user)))"

definition api_get_user :: "http_env \<Rightarrow> lark_app \<Rightarrow> ustr \<Rightarrow> json lark_act" where
  "api_get_user hc app oid =
     bnd (look (unix_ms hc)) (\<lambda>now.
     bnd (gets (\<lambda>s. lk_users s oid)) (\<lambda>cached.
     case cached of
       Some (user, expire_at) \<Rightarrow> if now < expire_at then ret user else fetch_user hc app oid now
     | None \<Rightarrow> fetch_user hc app oid now))"

definition download_file :: "http_env \<Rightarrow> lark_app \<Rightarrow> ustr \<Rightarrow> ustr \<Rightarrow> string \<Rightarrow> int list lark_act" where
  "download_file hc app message_id file_key kind =
     bnd (token_get hc app) (\<lambda>tok.
     bnd (http_call hc (api_request hc app ''GET''
       (asc ''/open-apis/im/v1/messages/'' @ message_id @ asc ''/resources/'' @ file_key) None
       [(asc ''type'', JStr (asc kind))] tok)) (\<lambda>r.
     andthen (lift_sum (raise_for_status r)) (ret (hr_content r))))"

definition mime_for_kind :: "string \<Rightarrow> string" where
  "mime_for_kind kind =
     (case map_of [(''image'', ''image/jpeg''), (''audio'', ''audio/mpeg''), (''file'', ''application/octet-stream'')] kind of
        Some t \<Rightarrow> t | None \<Rightarrow> ''application/octet-stream'')"

definition api_download_attachment ::
  "http_env \<Rightarrow> lark_app \<Rightarrow> ustr \<Rightarrow> ustr \<Rightarrow> string \<Rightarrow> (int list \<times> ustr \<times> string) lark_act" where
  "api_download_attachment hc app message_id file_key kind =
     bnd (download_file hc app message_id file_key kind) (\<lambda>raw. ret (raw, file_key, mime_for_kind kind))"

definition get_doc_raw :: "http_env \<Rightarrow> lark_app \<Rightarrow> ustr \<Rightarrow> ustr lark_act" where
  "get_doc_raw hc app document_id =
     bnd (lark_get hc app (asc ''/open-apis/docx/v1/documents/'' @ document_id @ asc ''/raw_content'')
       [(asc ''lang'', JInt 0)]) (\<lambda>out.
     bnd (lift_sum (data_field out ''content'' (JStr []))) (\<lambda>c. ret (str_of hc c)))"

definition get_wiki_node :: "http_env \<Rightarrow> lark_app \<Rightarrow> ustr \<Rightarrow> json lark_act" where
  "get_wiki_node hc app tok =
     bnd (lark_get hc app (asc ''/open-apis/wiki/v2/spaces/get_node'')
       [(asc ''token'', JStr tok), (asc ''obj_type'', JStr (asc ''wiki''))]) (\<lambda>out.
     lift_sum (data_field out ''node'' (JObj [])))"

definition children_path :: "ustr \<Rightarrow> ustr" where
  "children_path did = asc ''/open-apis/docx/v1/documents/'' @ did @ asc ''/blocks/'' @ did @ asc ''/children''"

definition append_doc_blocks :: "http_env \<Rightarrow> lark_app \<Rightarrow> ustr \<Rightarrow> json list \<Rightarrow> json lark_act" where
  "append_doc_blocks hc app document_id blocks =
     bnd (lark_post hc app (children_path document_id)
       [(asc ''children'', JArr blocks), (asc ''index'', JInt (- 1))]) (\<lambda>out. lift_sum (data_of out))"

definition text_block :: "ustr \<Rightarrow> json" where
  "text_block t = JObj [(asc ''block_type'', JInt 2),
     (asc ''text'', JObj [(asc ''elements'', JArr [JObj [(asc ''text_run'', JObj [(asc ''content'', JStr t)])]])])]"

text \<open>A failing body is only logged: the empty document is still returned.\<close>

definition api_create_doc :: "http_env \<Rightarrow> lark_app \<Rightarrow> ustr \<Rightarrow> ustr \<Rightarrow> json lark_act" where
  "api_create_doc hc app title body_text =
     bnd (lark_post hc app (asc ''/open-apis/docx/v1/documents'') [(asc ''title'', JStr title)]) (\<lambda>meta.
     bnd (lift_sum (data_field meta ''document'' (JObj []))) (\<lambda>doc.
     bnd (lift_sum (as_obj doc)) (\<lambda>d.
     andthen
       (if truthy (obj_get d ''document_id'') then
          catch (andthen (lark_post hc app (children_path (str_of hc (obj_get d ''document_id'')))
                   [(asc ''children'', JArr [text_block body_text])]) (ret ()))
                (\<lambda>x. if is_http_error x then ret () else raise_exn x)
        else ret ())
       (ret doc))))"

definition table_path :: "ustr \<Rightarrow> ustr \<Rightarrow> string \<Rightarrow> ustr" where
  "table_path app_token table_id what =
     asc ''/open-apis/bitable/v1/apps/'' @ app_token @ asc ''/tables/'' @ table_id @ asc what"

definition with_page_token :: "json \<Rightarrow> obj \<Rightarrow> obj" where
  "with_page_token t d = (if truthy t then d @ [(asc ''page_token'', t)] else d)"

definition get_bitable_records :: "http_env \<Rightarrow> lark_app \<Rightarrow> ustr \<Rightarrow> ustr \<Rightarrow> int \<Rightarrow> json \<Rightarrow> json lark_act" where
  "get_bitable_records hc app app_token table_id page_size page_token =
     bnd (lark_get hc app (table_path app_token table_id ''/records'')
       (with_page_token page_token
          [(asc ''page_size'', JInt page_size), (asc ''user_id_type'', JStr (asc ''open_id''))])) (\<lambda>out.
     lift_sum (data_of out))"

definition search_bitable_records ::
  "http_env \<Rightarrow> lark_app \<Rightarrow> ustr \<Rightarrow> ustr \<Rightarrow> ustr \<Rightarrow> ustr \<Rightarrow> ustr list \<Rightarrow> int \<Rightarrow> json \<Rightarrow> json lark_act" where
  "search_bitable_records hc app app_token table_id field_name operator value page_size page_token =
     bnd (lark_post hc app (table_path app_token table_id ''/records/search'')
       (with_page_token page_token
          [(asc ''field_names'', JArr []),
           (asc ''filter'', JObj [(asc ''conjunction'', JStr (asc ''and'')),
              (asc ''conditions'', JArr [JObj [(asc ''field_name'', JStr field_name),
                 (asc ''operator'', JStr operator), (asc ''value'', JArr (map JStr value))]])]),
           (asc ''page_size'', JInt page_size), (asc ''automatic_fields'', JBool True)])) (\<lambda>out.
     lift_sum (data_of out))"

definition create_bitable_record :: "http_env \<Rightarrow> lark_app \<Rightarrow> ustr \<Rightarrow> ustr \<Rightarrow> obj \<Rightarrow> json lark_act" where
  "create_bitable_record hc app app_token table_id cells =
     bnd (lark_post hc app (table_path app_token table_id ''/records?user_id_type=open_id'')
       [(asc ''fields'', JObj cells)]) (\<lambda>out. lift_sum (data_field out ''record'' JNull))"

definition list_bitable_tables :: "http_env \<Rightarrow> lark_app \<Rightarrow> ustr \<Rightarrow> json lark_act" where
  "list_bitable_tables hc app app_token =
     bnd (lark_get hc app (asc ''/open-apis/bitable/v1/apps/'' @ app_token @ asc ''/tables'')
       [(asc ''page_size'', JInt 50)]) (\<lambda>out. lift_sum (data_field out ''items'' (JArr [])))"

definition get_bitable_fields :: "http_env \<Rightarrow> lark_app \<Rightarrow> ustr \<Rightarrow> ustr \<Rightarrow> json lark_act" where
  "get_bitable_fields hc app app_token table_id =
     bnd (lark_get hc app (table_path app_token table_id ''/fields'')
       [(asc ''page_size'', JInt 100)]) (\<lambda>out. lift_sum (data_field out ''items'' (JArr [])))"

definition get_sheet_meta :: "http_env \<Rightarrow> lark_app \<Rightarrow> ustr \<Rightarrow> json lark_act" where
  "get_sheet_meta hc app tok =
     bnd (lark_get hc app (asc ''/open-apis/sheets/v3/spreadsheets/'' @ tok @ asc ''/sheets_meta'') [])
       (\<lambda>out. lift_sum (data_of out))"

definition get_sheet_values :: "http_env \<Rightarrow> lark_app \<Rightarrow> ustr \<Rightarrow> ustr \<Rightarrow> json lark_act" where
  "get_sheet_values hc app tok sheet_range =
     bnd (lark_get hc app (asc ''/open-apis/sheets/v2/spreadsheets/'' @ tok @ asc ''/values/'' @ sheet_range) [])
       (\<lambda>out. bnd (lift_sum (data_field out ''valueRange'' (JObj []))) (\<lambda>vr.
              bnd (lift_sum (as_obj vr)) (\<lambda>d. ret (obj_get_or d ''values'' (JArr [])))))"

section \<open>Bounds\<close>

text \<open>API calls carry a bearer token, token requests do not.\<close>

definition is_api :: "http_request \<Rightarrow> bool" where
  "is_api rq \<longleftrightarrow> hq_auth rq \<noteq> []"

lemma at_most_modify: "(\<And>s. n_requests (g s) = n_requests s) \<Longrightarrow> at_most P n (modify g)"
  by (simp add: at_most_def modify_def)

lemma at_most_fetch_token:
  assumes "at_most P n (http_call hc (token_request app) :: http_response lark_act)"
  shows "at_most P n (fetch_token hc app)"
proof -
  have "at_most P (n + 0) (fetch_token hc app)"
    unfolding fetch_token_def
    by (intro at_most_bnd [OF assms] at_most_bnd0 at_most_if at_most_pure at_most_modify) simp_all
  then show ?thesis by simp
qed

lemma at_most_token_get:
  "at_most P n (http_call hc (token_request app) :: http_response lark_act) \<Longrightarrow> at_most P n (token_get hc app)"
  unfolding token_get_def
  by (intro at_most_bnd0 at_most_if at_most_pure at_most_fetch_token)

lemma at_most_refused: "at_most P n (refused hc attempt r)"
  unfolding refused_def backoff_429_def backoff_5xx_def
  by (intro at_most_bnd0 at_most_if at_most_pure at_most_option)

lemma at_most_attempt:
  assumes "at_most P n (http_call hc (token_request app) :: http_response lark_act)"
  shows "at_most P (n + 1) (attempt_request hc app meth path payload params attempt)"
proof -
  have "at_most P (n + (1 + 0)) (attempt_request hc app meth path payload params attempt)"
    unfolding attempt_request_def invalidate_def
    by (rule at_most_bnd [OF at_most_token_get [OF assms]])
       (intro at_most_bnd [OF at_most_http(1)] at_most_bnd0 at_most_if at_most_pure at_most_refused at_most_modify; simp)
  then show ?thesis by simp
qed

lemma at_most_loop:
  assumes "at_most P a (http_call hc (token_request app) :: http_response lark_act)"
  shows "at_most P (n * (a + 1)) (request_loop hc app meth path payload params attempt n)"
proof (induction n arbitrary: attempt)
  case 0
  then show ?case by (simp add: at_most_pure)
next
  case (Suc n)
  have "at_most P ((a + 1) + n * (a + 1)) (request_loop hc app meth path payload params attempt (Suc n))"
    unfolding request_loop.simps
    by (rule at_most_bnd [OF at_most_attempt [OF assms]])
       (rule at_most_option [OF Suc.IH at_most_pure(1)])
  then show ?case by (simp only: mult_Suc)
qed

text \<open>C32: One API call of the Lark client sends at most four requests to the API and at most eight
  requests altogether, token requests included.\<close>

theorem request_bounded:
  "at_most is_api 4 (request_with_retry hc app meth path payload params)
   \<and> at_most (\<lambda>rq. True) 8 (request_with_retry hc app meth path payload params)"
proof
  have "at_most is_api 0 (http_call hc (token_request app) :: http_response lark_act)"
    by (rule at_most_http(2)) (simp add: is_api_def token_request_def)
  from at_most_loop [OF this, where n = 4]
  show "at_most is_api 4 (request_with_retry hc app meth path payload params)"
    by (simp add: request_with_retry_def MAX_ATTEMPTS_def)
  show "at_most (\<lambda>rq. True) 8 (request_with_retry hc app meth path payload params)"
    using at_most_loop [OF at_most_http(1), where n = 4 and P = "\<lambda>rq. True"]
    by (simp add: request_with_retry_def MAX_ATTEMPTS_def)
qed

section \<open>Results\<close>

definition accepted :: "http_response \<Rightarrow> json \<Rightarrow> bool" where
  "accepted r body \<longleftrightarrow> hr_success r \<and> hr_json r = Some body
     \<and> \<not> (hr_status r = 200 \<and> (\<exists>d. body = JObj d \<and> obj_get d ''code'' = JInt TOKEN_EXPIRED))"

lemma attempt_Some:
  assumes "attempt_request hc app meth path payload params attempt s = (Inr (Some body), s')"
  shows "\<exists>n tok r. http_send hc n (api_request hc app meth path payload params tok) = Inr r \<and> accepted r body"
proof -
  from assms obtain tok s1 r s2 j b s3 where
    call: "http_call hc (api_request hc app meth path payload params tok) s1 = (Inr r, s2)"
    and j: "response_json r = Inr j"
    and test: "(if hr_status r = 200 then bnd (lift_sum (as_obj j)) (\<lambda>d. ret (obj_get d ''code'' = JInt TOKEN_EXPIRED))
          else ret False) s2 = (Inr b, s3)"
    and rest: "(if b then andthen invalidate (ret None) else if hr_success r then ret (Some j)
       else andthen (refused hc attempt r) (ret None)) s3 = (Inr (Some body), s')"
    unfolding attempt_request_def by (elim bnd_InrE) (auto simp: lift_sum_def)
  from rest have b: "\<not> b" "hr_success r" "j = body"
    by (auto simp: invalidate_def run_ret elim!: bnd_InrE split: if_splits)
  have "\<not> (hr_status r = 200 \<and> (\<exists>d. body = JObj d \<and> obj_get d ''code'' = JInt TOKEN_EXPIRED))"
    using test b by (auto simp: lift_sum_def bnd_def as_obj_def run_ret)
  moreover have "hr_json r = Some body"
    using j b by (auto simp: response_json_def split: option.splits)
  ultimately have "accepted r body" using b by (simp add: accepted_def)
  moreover have "http_send hc (n_tick s1) (api_request hc app meth path payload params tok) = Inr r"
    using call by (simp add: http_call_def)
  ultimately show ?thesis by blast
qed

lemma loop_Inr:
  "request_loop hc app meth path payload params attempt n s = (Inr body, s') \<Longrightarrow>
   \<exists>i tok r. http_send hc i (api_request hc app meth path payload params tok) = Inr r \<and> accepted r body"
proof (induction n arbitrary: attempt s)
  case 0
  then show ?case by (simp add: raise_exn_def)
next
  case (Suc n)
  from Suc.prems obtain res s1 where
    "attempt_request hc app meth path payload params attempt s = (Inr res, s1)"
    "(case res of Some body \<Rightarrow> ret body
       | None \<Rightarrow> request_loop hc app meth path payload params (attempt + 1) n) s1 = (Inr body, s')"
    unfolding request_loop.simps by (rule bnd_InrE)
  then show ?case
    using Suc.IH attempt_Some by (cases res) (auto simp: run_ret)
qed

text \<open>C33: What an API call returns is the JSON of a successful answer to exactly the request asked for,
  and never an expired-token answer.\<close>

theorem request_result:
  assumes "request_with_retry hc app meth path payload params s = (Inr body, s')"
  shows "\<exists>i tok r. http_send hc i (api_request hc app meth path payload params tok) = Inr r \<and> accepted r body"
  using assms unfolding request_with_retry_def by (rule loop_Inr)

section \<open>Errors\<close>

text \<open>The token request of an attempt succeeds and leaves the client in state \<open>s1\<close>.\<close>

lemma attempt_after_token:
  assumes "token_get hc app s = (Inr tok, s1)"
    and "http_send hc (n_tick s1) (api_request hc app meth path payload params tok) = Inr r"
  shows "attempt_request hc app meth path payload params attempt s =
    (let s2 = s1\<lparr>n_tick := Suc (n_tick s1), n_requests := n_requests s1 @ [api_request hc app meth path payload params tok]\<rparr> in
     bnd (lift_sum (response_json r)) (\<lambda>body.
     bnd (if hr_status r = 200
          then bnd (lift_sum (as_obj body)) (\<lambda>d. ret (obj_get d ''code'' = JInt TOKEN_EXPIRED))
          else ret False) (\<lambda>expired.
     if expired then andthen invalidate (ret None)
     else if hr_success r then ret (Some body)
     else andthen (refused hc attempt r) (ret None))) s2)"
  using assms(2) by (simp add: attempt_request_def bnd_Inr [where m = "token_get hc app", OF assms(1)] http_run Let_def)

text \<open>The body is parsed before the status is looked at: a failing gateway that answers with a page
  that is not JSON is not retried, and the caller sees a parse error, whatever the status.\<close>

theorem unreadable_answer_not_retried:
  assumes "token_get hc app s = (Inr tok, s1)"
    and "http_send hc (n_tick s1) (api_request hc app meth path payload params tok) = Inr r"
    and "hr_json r = None"
  shows "fst (request_with_retry hc app meth path payload params s) = Inl ValueError
    \<and> n_requests (snd (request_with_retry hc app meth path payload params s))
        = n_requests s1 @ [api_request hc app meth path payload params tok]
    \<and> n_slept (snd (request_with_retry hc app meth path payload params s)) = n_slept s1"
  using attempt_after_token [OF assms(1,2), of 0] assms(3)
  by (simp add: request_with_retry_def MAX_ATTEMPTS_def numeral_eq_Suc bnd_def response_json_def lift_sum_def)

text \<open>When every answer says that the token has expired, the four attempts end in the
  \<open>RuntimeError\<close> the code calls unreachable.\<close>

theorem expired_forever_unreachable:
  assumes tok: "\<And>v. \<exists>t v'. token_get hc app v = (Inr t, v')"
    and api: "\<And>n t. http_send hc n (api_request hc app meth path payload params t) = Inr r"
    and r: "hr_status r = 200" "hr_json r = Some (JObj d)" "obj_get d ''code'' = JInt TOKEN_EXPIRED"
  shows "fst (request_with_retry hc app meth path payload params s) = Inl RuntimeError"
proof -
  have step: "\<exists>v'. attempt_request hc app meth path payload params i v = (Inr None, v')" for i v
  proof -
    obtain t v1 where "token_get hc app v = (Inr t, v1)" using tok by blast
    from attempt_after_token [OF this api] show ?thesis
      using r by (simp add: Let_def lift_sum_def bnd_def response_json_def as_obj_def run_ret invalidate_def modify_def)
  qed
  have "fst (request_loop hc app meth path payload params i n v) = Inl RuntimeError" for i n v
  proof (induction n arbitrary: i v)
    case 0
    then show ?case by (simp add: raise_exn_def)
  next
    case (Suc n)
    obtain v' where v': "attempt_request hc app meth path payload params i v = (Inr None, v')" using step by blast
    show ?case
      unfolding request_loop.simps
      by (simp add: bnd_Inr [where m = "attempt_request hc app meth path payload params i", OF v'] Suc.IH)
  qed
  then show ?thesis by (simp add: request_with_retry_def)
qed

section \<open>Caches\<close>

text \<open>A token is either the cached one, more than ten minutes before its expiry and without any
  request, or the one a successful token request has just returned.\<close>

theorem token_get_sound:
  assumes "token_get hc app s = (Inr tok, s')"
  shows "tok = lk_token s \<and> s' = s\<lparr>n_tick := Suc (n_tick s)\<rparr>
      \<and> unix_ms hc (n_tick s) + 600000 < lk_expires_at s
    \<or> lk_token s' = tok \<and> (\<exists>n r d. http_send hc n (token_request app) = Inr r \<and> hr_refusal r = None
        \<and> hr_json r = Some (JObj d) \<and> is_zero (obj_get d ''code'') \<and> map_of d (asc ''tenant_access_token'') = Some tok)"
proof -
  have fetched: "lk_token s' = tok \<and> (\<exists>n r d. http_send hc n (token_request app) = Inr r \<and> hr_refusal r = None
        \<and> hr_json r = Some (JObj d) \<and> is_zero (obj_get d ''code'') \<and> map_of d (asc ''tenant_access_token'') = Some tok)"
    if "fetch_token hc app v = (Inr tok, s')" for v
    using that
    by (auto simp: fetch_token_def run_simps raise_for_status_def response_json_def as_obj_def item_def
        simp del: asc_Cons split: sum.splits if_splits option.splits json.splits)
  from assms have "fetch_token hc app s = (Inr tok, s')
      \<or> fetch_token hc app (s\<lparr>n_tick := Suc (n_tick s)\<rparr>) = (Inr tok, s')
      \<or> tok = lk_token s \<and> s' = s\<lparr>n_tick := Suc (n_tick s)\<rparr> \<and> unix_ms hc (n_tick s) + 600000 < lk_expires_at s"
    by (auto simp: token_get_def run_simps split: if_splits)
  with fetched show ?thesis by blast
qed

definition same_users :: "lark_state \<Rightarrow> lark_state \<Rightarrow> bool" where
  "same_users s s' \<longleftrightarrow> lk_users s' = lk_users s"

interpretation users_kept: state_relation same_users
  by unfold_locales (auto simp: same_users_def)

lemma users_kept_base:
  "steps same_users (look f)" "steps same_users (http_call hc rq)" "steps same_users (sleep_ms d)"
  "steps same_users (modify (\<lambda>s. s\<lparr>lk_token := j\<rparr>))"
  "steps same_users (modify (\<lambda>s. s\<lparr>lk_expires_at := i\<rparr>))" "steps same_users invalidate"
  by (simp_all add: steps_def same_users_def look_def http_call_def sleep_ms_def modify_def invalidate_def)

lemma users_kept_request: "steps same_users (request_with_retry hc app meth path payload params)"
proof -
  have tok: "steps same_users (token_get hc app)"
    unfolding token_get_def fetch_token_def
    by (intro users_kept.steps_bnd users_kept.steps_intros users_kept_base)
  have "steps same_users (attempt_request hc app meth path payload params i)" for i
    unfolding attempt_request_def refused_def backoff_429_def backoff_5xx_def
    by (intro users_kept.steps_intros users_kept_base tok)
  then have "steps same_users (request_loop hc app meth path payload params i n)" for i n
  proof (induction n arbitrary: i)
    case (Suc n)
    show ?case unfolding request_loop.simps
      by (intro users_kept.steps_bnd users_kept.steps_option users_kept.steps_ret Suc)
  qed (simp add: users_kept.steps_raise)
  then show ?thesis by (simp add: request_with_retry_def)
qed

lemma fetch_user_run:
  assumes "fetch_user hc app oid now s = (r, s')"
  shows "lk_users s' = (case r of Inl x \<Rightarrow> lk_users s | Inr u \<Rightarrow> (lk_users s)(oid := Some (u, now + 600000)))"
proof -
  obtain q s1 where q: "lark_get hc app (asc ''/open-apis/contact/v3/users/'' @ oid)
      [(asc ''user_id_type'', JStr (asc ''open_id''))] s = (q, s1)" by fastforce
  then have "lk_users s1 = lk_users s"
    using stepsE [OF users_kept_request] unfolding lark_get_def same_users_def by metis
  with assms show ?thesis
    by (cases q) (auto simp: fetch_user_def bnd_def [of "lark_get hc app p ps" for p ps] q run_simps ret_def simp del: asc_Cons split: sum.splits)
qed

lemma get_user_cached:
  assumes "lk_users v oid = Some (u, t)" and "unix_ms hc (n_tick v) < t"
  shows "api_get_user hc app oid v = (Inr u, v\<lparr>n_tick := Suc (n_tick v)\<rparr>)"
  using assms by (simp add: api_get_user_def run_simps ret_def)

lemma failed_lookup_not_cached:
  assumes "api_get_user hc app oid s = (Inl x, s')"
  shows "lk_users s' = lk_users s"
  using assms fetch_user_run [of hc app oid _ "s\<lparr>n_tick := Suc (n_tick s)\<rparr>" "Inl x" s']
  by (auto simp: api_get_user_def run_simps ret_def split: option.splits if_splits)

text \<open>A user that was fetched is answered from the cache, without any request, for ten minutes from
  the moment the lookup began.\<close>

theorem user_cache_serves:
  assumes "api_get_user hc app oid s = (Inr u, s')" and "lk_users s oid = None"
    and "lk_users v oid = lk_users s' oid" and "unix_ms hc (n_tick v) < unix_ms hc (n_tick s) + 600000"
  shows "api_get_user hc app oid v = (Inr u, v\<lparr>n_tick := Suc (n_tick v)\<rparr>)"
proof -
  have "fetch_user hc app oid (unix_ms hc (n_tick s)) (s\<lparr>n_tick := Suc (n_tick s)\<rparr>) = (Inr u, s')"
    using assms(1,2) by (simp add: api_get_user_def run_simps)
  from fetch_user_run [OF this] assms(3,4) show ?thesis by (auto intro: get_user_cached)
qed

section \<open>Concrete runs\<close>

definition demo_app :: lark_app where
  "demo_app = \<lparr>la_app_id = asc ''cli'', la_app_secret = asc ''s'', la_base_url = asc ''https://open.feishu.cn''\<rparr>"

definition token_answer :: json where
  "token_answer = JObj [(asc ''code'', JInt 0), (asc ''tenant_access_token'', JStr (asc ''t''))]"

text \<open>A network that hands out tokens and gives every API call the same answer.\<close>

definition demo_lark :: "http_response \<Rightarrow> http_env" where
  "demo_lark r = demo_http (\<lambda>n rq. Inr (if hq_auth rq = [] then ok_response token_answer else r))"

definition user_answer :: json where
  "user_answer = JObj [(asc ''code'', JInt 0), (asc ''data'', JObj [(asc ''user'', JObj [(asc ''name'', JStr (asc ''Ann''))])])]"

definition expired_answer :: json where
  "expired_answer = JObj [(asc ''code'', JInt TOKEN_EXPIRED)]"

definition gateway_page :: http_response where
  "gateway_page = \<lparr>hr_status = 502, hr_success = False, hr_refusal = Some (HTTPStatusError 502), hr_json = None, hr_retry_after = None, hr_content = []\<rparr>"

lemma demo_lark_simps [simp]: "unix_ms (demo_lark r) n = 1000 * int n" "n_tick new_client = 0"
    "lk_users new_client oid = None"
  by (simp_all add: demo_lark_def demo_http_def new_client_def)

lemma demo_token: "token_get (demo_lark r) demo_app new_client =
    (Inr (JStr (asc ''t'')), new_client\<lparr>n_tick := 2, n_requests := [token_request demo_app],
       lk_token := JStr (asc ''t''), lk_expires_at := 7201000\<rparr>)"
  by (simp add: token_get_def fetch_token_def run_simps new_client_def demo_lark_def demo_http_def ok_response_def
      token_answer_def token_request_def raise_for_status_def response_json_def as_obj_def
      obj_get_def obj_get_or_def is_zero_def item_def py_int_def ret_def)

theorem request_result_witness:
  "\<exists>body s'. request_with_retry (demo_lark (ok_response user_answer)) demo_app ''GET'' (asc ''/p'') None [] new_client = (Inr body, s')
    \<and> (\<exists>i tok r. http_send (demo_lark (ok_response user_answer)) i (api_request (demo_lark (ok_response user_answer)) demo_app ''GET'' (asc ''/p'') None [] tok) = Inr r
         \<and> accepted r body)"
proof -
  let ?run = "request_with_retry (demo_lark (ok_response user_answer)) demo_app ''GET'' (asc ''/p'') None [] new_client"
  have "fst ?run = Inr user_answer" by code_simp
  then have run: "?run = (Inr user_answer, snd ?run)" by (metis prod.collapse)
  from request_result [OF run] run show ?thesis by blast
qed

theorem unreadable_answer_not_retried_witness:
  "fst (request_with_retry (demo_lark gateway_page) demo_app ''GET'' (asc ''/p'') None [] new_client) = Inl ValueError"
  by (rule conjunct1 [OF unreadable_answer_not_retried [OF demo_token, where r = gateway_page]])
     (simp_all add: demo_lark_def demo_http_def api_request_def gateway_page_def)

theorem expired_forever_unreachable_witness:
  "fst (request_with_retry (demo_lark (ok_response expired_answer)) demo_app ''GET'' (asc ''/p'') None [] new_client) = Inl RuntimeError"
proof (rule expired_forever_unreachable [where r = "ok_response expired_answer" and d = "[(asc ''code'', JInt TOKEN_EXPIRED)]"])
  show "\<exists>t v'. token_get (demo_lark (ok_response expired_answer)) demo_app v = (Inr t, v')" for v
    by (auto simp: token_get_def fetch_token_def run_simps demo_lark_def demo_http_def ok_response_def
      token_answer_def token_request_def raise_for_status_def response_json_def as_obj_def
      obj_get_def obj_get_or_def is_zero_def item_def py_int_def ret_def)
qed (simp_all add: demo_lark_def demo_http_def api_request_def ok_response_def expired_answer_def obj_get_def)

theorem token_get_sound_witness:
  "lk_token (snd (token_get (demo_lark gateway_page) demo_app new_client)) = JStr (asc ''t'')"
  using token_get_sound [OF demo_token [of gateway_page]] by (simp add: demo_token)

theorem user_cache_serves_witness:
  "\<exists>u s'. api_get_user (demo_lark (ok_response user_answer)) demo_app (asc ''ou'') new_client = (Inr u, s')
    \<and> api_get_user (demo_lark (ok_response user_answer)) demo_app (asc ''ou'') s' = (Inr u, s'\<lparr>n_tick := Suc (n_tick s')\<rparr>)"
proof -
  let ?hc = "demo_lark (ok_response user_answer)"
  let ?run = "api_get_user ?hc demo_app (asc ''ou'') new_client"
  have res: "fst ?run = Inr (JObj [(asc ''name'', JStr (asc ''Ann''))])" "n_tick (snd ?run) = 4" by code_simp+
  then have run: "?run = (Inr (JObj [(asc ''name'', JStr (asc ''Ann''))]), snd ?run)" by (metis prod.collapse)
  have "api_get_user ?hc demo_app (asc ''ou'') (snd ?run)
      = (Inr (JObj [(asc ''name'', JStr (asc ''Ann''))]), (snd ?run)\<lparr>n_tick := Suc (n_tick (snd ?run))\<rparr>)"
    by (rule user_cache_serves [OF run _ refl]) (simp_all add: res(2) del: asc_Cons)
  with run show ?thesis by blast
qed

end
