(* ===== verification/LarkDocs.thy ===== *)
theory LarkDocs imports LarkClient Ingest begin

text \<open>
  The part of the Lark backends that reads one document, table or spreadsheet (\<open>_fetch_one\<close> in
  lark\_doc.py and bitable.py) and lays tables out as Markdown. Their batch loops are in Ingest.
\<close>

section \<open>Documents (lark\_doc.py)\<close>

definition no_doc_id :: "ustr \<Rightarrow> exn" where
  "no_doc_id tok = IngestRejected (asc ''wiki '' @ [33410, 28857] @ asc '' '' @ tok @ asc '' '' @ [27809, 26377, 20851, 32852] @ asc '' doc_id'')"

definition unknown_kind :: "ustr \<Rightarrow> exn" where
  "unknown_kind kind = IngestRejected ([26410, 30693] @ asc '' Lark URL '' @ [31867, 22411] @ asc '': '' @ kind)"

definition fetch_one_doc :: "http_env \<Rightarrow> lark_app \<Rightarrow> ustr \<Rightarrow> ustr \<Rightarrow> ustr lark_act" where
  "fetch_one_doc hc app kind tok =
     (if kind \<in> set (map asc [''docx'', ''docs'']) then get_doc_raw hc app tok
      else if kind = asc ''wiki'' then
        bnd (get_wiki_node hc app tok) (\<lambda>node.
        bnd (lift_sum (as_obj node)) (\<lambda>d.
        let doc_id = (if truthy (obj_get d ''obj_token'') then obj_get d ''obj_token''
                      else obj_get d ''document_id'') in
        if \<not> truthy doc_id then raise_exn (no_doc_id tok)
        else get_doc_raw hc app (str_of hc doc_id)))
      else raise_exn (unknown_kind kind))"

section \<open>Markdown tables\<close>

definition md_row :: "ustr list \<Rightarrow> ustr" where
  "md_row cells = asc ''| '' @ join (asc '' | '') cells @ asc '' |''"

definition md_rule :: "nat \<Rightarrow> ustr" where
  "md_rule n = md_row (replicate n (asc ''---''))"

definition lines_of :: "ustr list \<Rightarrow> ustr" where
  "lines_of ls = join [10] ls"

section \<open>Bitables (bitable.py)\<close>

text \<open>One cell: lists, single choices and links have their own layout. Only \<open>need_str\<close> values can be
  joined; a choice whose text is not a string fails there.\<close>

definition bitable_cell :: "http_env \<Rightarrow> json \<Rightarrow> json" where
  "bitable_cell hc raw =
     (case raw of
        JArr vs \<Rightarrow> JStr (join (asc '', '') (map (str_of hc) vs))
      | JObj d \<Rightarrow>
          (case map_of d (asc ''text'') of
             Some t \<Rightarrow> t
           | None \<Rightarrow> (case map_of d (asc ''link'') of
               Some l \<Rightarrow> l
             | None \<Rightarrow> JStr (value_str hc raw)))
      | JNull \<Rightarrow> JStr []
      | _ \<Rightarrow> JStr (str_of hc raw))"

definition column_name :: "nat \<times> json \<Rightarrow> exn + json" where
  "column_name f = (case f of (i, j) \<Rightarrow>
     map_sum id (\<lambda>d. obj_get_or d ''field_name'' (JStr (asc ''col'' @ nat_digits i))) (as_obj j))"

text \<open>The keys of the first record, when the schema is empty.\<close>

definition first_keys :: "json \<Rightarrow> exn + json list" where
  "first_keys records =
     (case item0 records of Inl x \<Rightarrow> Inl x | Inr r \<Rightarrow>
     (case as_obj r of Inl x \<Rightarrow> Inl x | Inr d \<Rightarrow>
        map_sum id (\<lambda>f. map (\<lambda>kv. JStr (fst kv)) f) (as_obj (obj_get_or d ''fields'' (JObj [])))))"

definition record_row :: "http_env \<Rightarrow> ustr list \<Rightarrow> json \<Rightarrow> exn + ustr" where
  "record_row hc cols r =
     (case as_obj r of Inl x \<Rightarrow> Inl x
      | Inr d \<Rightarrow>
     (case (if cols = [] then Inr [] else as_obj (obj_get_or d ''fields'' (JObj []))) of Inl x \<Rightarrow> Inl x
      | Inr fs \<Rightarrow>
          map_sum id md_row (trav need_str (map (\<lambda>c. bitable_cell hc
            (case map_of fs c of None \<Rightarrow> JStr [] | Some v \<Rightarrow> v)) cols))))"

definition records_to_markdown :: "http_env \<Rightarrow> json \<Rightarrow> json \<Rightarrow> exn + ustr" where
  "records_to_markdown hc records field_names =
     (if \<not> truthy records then Inr (asc ''(empty table)'')
      else
        (case iter_json field_names of Inl x \<Rightarrow> Inl x | Inr fs \<Rightarrow>
        (case trav column_name (enumerate 0 fs) of Inl x \<Rightarrow> Inl x | Inr names \<Rightarrow>
        (case (if names = [] then first_keys records else Inr names) of Inl x \<Rightarrow> Inl x | Inr cols \<Rightarrow>
        (case trav need_str cols of Inl x \<Rightarrow> Inl x | Inr cs \<Rightarrow>
        (case iter_json records of Inl x \<Rightarrow> Inl x | Inr rs \<Rightarrow>
        (case trav (record_row hc cs) rs of Inl x \<Rightarrow> Inl x
         | Inr rows \<Rightarrow> Inr (lines_of (md_row cs # md_rule (length cs) # rows)))))))))"

definition raw_row :: "http_env \<Rightarrow> json \<Rightarrow> exn + ustr" where
  "raw_row hc r = map_sum id (\<lambda>d. str_of hc (obj_get_or d ''fields'' (JObj []))) (as_obj r)"

definition table_line :: "http_env \<Rightarrow> ustr \<Rightarrow> json \<Rightarrow> exn + ustr" where
  "table_line hc app_token t =
     map_sum id (\<lambda>d.
       asc ''- ['' @ str_of hc (obj_get_or d ''name'' (obj_get_or d ''id'' (JStr (asc ''?''))))
       @ asc ''](base://'' @ app_token @ asc ''/''
       @ str_of hc (obj_get_or d ''table_id'' (obj_get_or d ''id'' (JStr []))) @ asc '')'') (as_obj t)"

definition fetch_one_bitable :: "http_env \<Rightarrow> lark_app \<Rightarrow> ustr \<Rightarrow> ustr \<Rightarrow> ustr lark_act" where
  "fetch_one_bitable hc app app_token table_id =
     (if table_id \<noteq> [] then
        bnd (get_bitable_fields hc app app_token table_id) (\<lambda>fs.
        bnd (get_bitable_records hc app app_token table_id 500 JNull) (\<lambda>data.
        bnd (lift_sum (as_obj data)) (\<lambda>d.
        let records = obj_get_or d ''items'' (obj_get_or d ''records'' (JArr [])) in
        if truthy fs \<and> truthy records then
          lift_sum (records_to_markdown hc records fs)
        else if truthy records then
          bnd (lift_sum (iter_json records)) (\<lambda>rs.
          bnd (lift_sum (trav (raw_row hc) rs)) (\<lambda>ls.
          ret (if lines_of ls \<noteq> [] then lines_of ls else asc ''(empty table)'')))
        else ret (asc ''(empty table)''))))
      else
        bnd (list_bitable_tables hc app app_token) (\<lambda>tables.
        if \<not> truthy tables then ret (asc ''Bitable '' @ [20013, 27809, 26377, 25214, 21040, 34920, 26684, 12290])
        else
          bnd (lift_sum (iter_json tables)) (\<lambda>ts.
          bnd (lift_sum (trav (table_line hc app_token) ts)) (\<lambda>ls.
          ret (lines_of ((asc ''Bitable '' @ [21253, 21547] @ asc '' '' @ nat_digits (length ts) @ asc '' '' @ [20010, 34920, 26684, 65306]) # ls))))))"

section \<open>Spreadsheets (bitable.py)\<close>

text \<open>\<open>str(v) if v else ''\<close>\<close>

definition sheet_cell :: "http_env \<Rightarrow> json \<Rightarrow> ustr" where
  "sheet_cell hc v = (if truthy v then str_of hc v else [])"

definition pad_row :: "nat \<Rightarrow> ustr list \<Rightarrow> ustr list" where
  "pad_row n cells = take n (cells @ replicate (n - length cells) [])"

definition sheet_row :: "http_env \<Rightarrow> json \<Rightarrow> exn + ustr list" where
  "sheet_row hc row = map_sum id (map (sheet_cell hc)) (iter_json row)"

definition values_to_markdown :: "http_env \<Rightarrow> json \<Rightarrow> exn + ustr" where
  "values_to_markdown hc values =
     (if \<not> truthy values then Inr (asc ''(empty range)'')
      else
        (case item0 values of Inl x \<Rightarrow> Inl x | Inr first \<Rightarrow>
        (case sheet_row hc first of Inl x \<Rightarrow> Inl x | Inr header \<Rightarrow>
        (case iter_json values of Inl x \<Rightarrow> Inl x | Inr rows \<Rightarrow>
        (case trav (sheet_row hc) (tl rows) of Inl x \<Rightarrow> Inl x
         | Inr body \<Rightarrow> Inr (lines_of (md_row header # md_rule (length header)
                          # map (\<lambda>r. md_row (pad_row (length header) r)) body)))))))"

text \<open>Comparing with an integer raises for anything but a number.\<close>

definition as_number :: "json \<Rightarrow> exn + int" where
  "as_number j = (case j of JInt i \<Rightarrow> Inr i | JBool b \<Rightarrow> Inl (OtherError (asc ''outside the model'')) | _ \<Rightarrow> Inl TypeError)"

definition column_letter :: "int \<Rightarrow> exn + ustr" where
  "column_letter n =
     (let c = (if n > 26 then 26 else n) in if 64 + c < 0 then Inl ValueError else Inr [64 + c])"

definition sheet_range :: "http_env \<Rightarrow> obj \<Rightarrow> exn + ustr" where
  "sheet_range hc sheet =
     (case as_obj (obj_get_or sheet ''grid_properties'' (JObj [])) of Inl x \<Rightarrow> Inl x | Inr grid \<Rightarrow>
     (case as_number (obj_get_or grid ''row_count'' (JInt 50)) of Inl x \<Rightarrow> Inl x | Inr rows \<Rightarrow>
     (case as_number (obj_get_or grid ''column_count'' (JInt 10)) of Inl x \<Rightarrow> Inl x | Inr cols \<Rightarrow>
     (case column_letter cols of Inl x \<Rightarrow> Inl x | Inr letter \<Rightarrow>
        Inr (str_of hc (obj_get_or sheet ''sheet_id'' (JStr [])) @ asc ''!A1:'' @ letter @ int_digits (min rows 200))))))"

definition sheet_part :: "http_env \<Rightarrow> lark_app \<Rightarrow> ustr \<Rightarrow> json \<Rightarrow> ustr list lark_act" where
  "sheet_part hc app tok j =
     bnd (lift_sum (as_obj j)) (\<lambda>sheet.
     let title = asc ''### '' @ str_of hc (obj_get_or sheet ''title'' (JStr (asc ''Sheet''))) @ [10, 10] in
     bnd (lift_sum (sheet_range hc sheet)) (\<lambda>range_text.
     catch
       (bnd (get_sheet_values hc app tok range_text) (\<lambda>values.
        if \<not> truthy values then ret []
        else bnd (lift_sum (values_to_markdown hc values)) (\<lambda>md. ret [title @ md])))
       (\<lambda>x. ret [title @ warn (asc '' '' @ [35835, 21462, 22833, 36133, 65306] @ error_str hc x)])))"

definition fetch_one_sheet :: "http_env \<Rightarrow> lark_app \<Rightarrow> ustr \<Rightarrow> ustr lark_act" where
  "fetch_one_sheet hc app tok =
     bnd (get_sheet_meta hc app tok) (\<lambda>meta.
     bnd (lift_sum (as_obj meta)) (\<lambda>d.
     let sheets = obj_get_or d ''sheets'' (JArr []) in
     if \<not> truthy sheets then ret (asc ''(empty spreadsheet)'')
     else
       bnd (lift_sum (iter_json sheets)) (\<lambda>js.
       bnd (map_prog (sheet_part hc app tok) js) (\<lambda>ps.
       ret (if concat ps \<noteq> [] then join [10, 10] (concat ps) else asc ''(could not read sheet content)'')))))"

section \<open>Blank cells\<close>

text \<open>A value that is false in Python: \<open>0\<close>, \<open>False\<close>, \<open>null\<close>, the empty string.\<close>

definition blank_if_false :: "json \<Rightarrow> json" where
  "blank_if_false v = (if truthy v then v else JStr [])"

lemma sheet_cell_blank [simp]: "sheet_cell hc (blank_if_false v) = sheet_cell hc v"
  by (simp add: sheet_cell_def blank_if_false_def)

lemma sheet_row_JArr [simp]: "sheet_row hc (JArr r) = Inr (map (sheet_cell hc) r)"
  by (simp add: sheet_row_def iter_json_def)

lemma values_to_markdown_JArr:
  "values_to_markdown hc (JArr (map JArr (h # rows))) =
     Inr (lines_of (md_row (map (sheet_cell hc) h) # md_rule (length h)
       # map (\<lambda>r. md_row (pad_row (length h) (map (sheet_cell hc) r))) rows))"
  by (simp add: values_to_markdown_def item0_def iter_json_def trav_map comp_def)

text \<open>In the Markdown of a sheet a cell that holds 0 or FALSE looks exactly like an empty cell: the
  number is not in the reviewed material.\<close>

theorem zero_cells_are_blank:
  "values_to_markdown hc (JArr (map JArr rows))
     = values_to_markdown hc (JArr (map JArr (map (map blank_if_false) rows)))
   \<and> blank_if_false (JInt 0) = JStr []"
proof (cases rows)
  case Nil
  then show ?thesis by (simp add: blank_if_false_def)
next
  case (Cons h rs)
  show ?thesis
    using values_to_markdown_JArr [of hc h rs] values_to_markdown_JArr [of hc "map blank_if_false h" "map (map blank_if_false) rs"]
    by (simp add: Cons comp_def blank_if_false_def [of "JInt 0"])
qed

section \<open>Reading a table back\<close>

fun split_at :: "int \<Rightarrow> ustr \<Rightarrow> ustr list" where
  "split_at c [] = [[]]"
| "split_at c (x # xs) =
     (if x = c then [] # split_at c xs
      else (case split_at c xs of [] \<Rightarrow> [[x]] | p # ps \<Rightarrow> (x # p) # ps))"

lemma split_at_nonempty [simp]: "split_at c xs \<noteq> []"
  by (induction c xs rule: split_at.induct) (auto split: list.splits)

lemma split_at_plain: "c \<notin> set xs \<Longrightarrow> split_at c (xs @ c # ys) = xs # split_at c ys"
  by (induction xs) auto

lemma split_at_none: "c \<notin> set xs \<Longrightarrow> split_at c xs = [xs]"
  by (induction xs) auto

lemma split_at_join: "xs \<noteq> [] \<Longrightarrow> list_all (\<lambda>x. c \<notin> set x) xs \<Longrightarrow> split_at c (join [c] xs) = xs"
  by (induction "[c]" xs rule: join.induct) (auto simp: split_at_plain split_at_none)

definition read_row :: "ustr \<Rightarrow> ustr list" where
  "read_row l = map (\<lambda>p. butlast (tl p)) (butlast (tl (split_at 124 l)))"

definition read_table :: "ustr \<Rightarrow> ustr list list" where
  "read_table t = (case split_at 10 t of h # r # ls \<Rightarrow> map read_row (h # ls) | _ \<Rightarrow> [])"

definition clean_cell :: "ustr \<Rightarrow> bool" where
  "clean_cell c \<longleftrightarrow> 10 \<notin> set c \<and> 124 \<notin> set c"

lemma join_pipes: "cells \<noteq> [] \<Longrightarrow>
  asc '' '' @ join (asc '' | '') cells @ asc '' |'' = join [124] (map (\<lambda>c. 32 # c @ [32]) cells @ [[]])"
  by (induction "asc '' | ''" cells rule: join.induct) auto

lemma read_md_row:
  assumes "cells \<noteq> []" and "list_all clean_cell cells"
  shows "read_row (md_row cells) = cells"
proof -
  have eq: "md_row cells = join [124] ([] # map (\<lambda>c. 32 # c @ [32]) cells @ [[]])"
    using join_pipes [OF assms(1)] assms(1) by (cases cells) (auto simp: md_row_def)
  have "split_at 124 (md_row cells) = [] # map (\<lambda>c. 32 # c @ [32]) cells @ [[]]"
    unfolding eq using assms(2) by (intro split_at_join) (auto simp: list_all_iff clean_cell_def)
  then show ?thesis by (simp add: read_row_def butlast_append comp_def)
qed

lemma no_newline_join: "10 \<notin> set (join sep cells) \<longleftrightarrow> (\<forall>c\<in>set cells. 10 \<notin> set c) \<and> (10 \<notin> set sep \<or> length cells \<le> 1)"
  by (induction sep cells rule: join.induct) auto

lemma no_newline_md_row: "list_all clean_cell cells \<Longrightarrow> 10 \<notin> set (md_row cells)"
  by (auto simp: md_row_def no_newline_join list_all_iff clean_cell_def)

lemma clean_pad: "list_all clean_cell cells \<Longrightarrow> list_all clean_cell (pad_row n cells)"
  by (auto simp: pad_row_def list_all_iff clean_cell_def dest: in_set_takeD)

lemma length_pad_row [simp]: "length (pad_row n cells) = n"
  by (simp add: pad_row_def)

text \<open>C38: The Markdown table of a sheet reads back as the text its cells are displayed with (a false
  value, as 0 or an empty cell, is displayed as nothing): the header, and every row padded with
  blank cells or cut to the width of the header. The header is not empty and no displayed cell
  contains a bar or a line break.\<close>

theorem sheet_table_roundtrip:
  assumes "h \<noteq> []" and "list_all (list_all (\<lambda>v. clean_cell (sheet_cell hc v))) (h # rows)"
  shows "map_sum id read_table (values_to_markdown hc (JArr (map JArr (h # rows))))
    = Inr (map (sheet_cell hc) h # map (\<lambda>r. pad_row (length h) (map (sheet_cell hc) r)) rows)"
proof -
  let ?cells = "map (sheet_cell hc)"
  let ?body = "map (\<lambda>r. pad_row (length h) (?cells r)) rows"
  have clean: "list_all clean_cell (?cells h)" "list_all (list_all clean_cell) (map ?cells rows)"
    using assms(2) by (simp_all add: list_all_iff)
  have bodies: "list_all (list_all clean_cell) ?body"
    using clean(2) unfolding list.pred_map comp_def by (rule list.pred_mono_strong) (auto intro!: clean_pad simp: list.pred_map comp_def)
  have rule: "list_all clean_cell (replicate (length h) (asc ''---''))"
    by (simp add: list_all_iff clean_cell_def)
  let ?ls = "md_row (?cells h) # md_rule (length h) # map md_row ?body"
  have "split_at 10 (lines_of ?ls) = ?ls"
    unfolding lines_of_def
  proof (rule split_at_join)
    show "list_all (\<lambda>x. 10 \<notin> set x) ?ls"
      using clean(1) bodies rule by (auto simp: list_all_iff md_rule_def intro!: no_newline_md_row [unfolded list_all_iff])
  qed simp
  moreover have "map read_row (map md_row ?body) = ?body"
  proof -
    have "read_row (md_row c) = c" if "c \<in> set ?body" for c
      using that bodies assms(1) by (intro read_md_row) (auto simp: list_all_iff pad_row_def)
    then have "map (\<lambda>c. read_row (md_row c)) ?body = ?body" by (rule map_idI)
    then show ?thesis by (simp add: comp_def)
  qed
  ultimately show ?thesis
    using assms(1) clean(1) unfolding values_to_markdown_JArr
    by (simp add: read_table_def read_md_row comp_def)
qed

theorem sheet_table_roundtrip_witness:
  "map_sum id read_table (values_to_markdown (demo_http (\<lambda>n rq. Inl HTTPTransportError))
       (JArr (map JArr [[JStr (asc ''a''), JStr (asc ''b'')], [JStr (asc ''x'')], [JInt 0, JStr (asc ''y''), JStr (asc ''z'')]])))
   = Inr [[asc ''a'', asc ''b''], [asc ''x'', []], [[], asc ''y'']]"
  by (subst sheet_table_roundtrip)
     (simp_all add: sheet_cell_def str_of_def clean_cell_def pad_row_def numeral_eq_Suc)

end
