(* ===== verification/DeepSeek.thy ===== *)
theory DeepSeek imports Http begin

text \<open>
  llm/deepseek.py: \<open>chat\<close>, one completion with its retry loop. The prompt is the pair of texts
  the caller passes; the answer is decoded field by field, with the exception each malformed
  answer raises.
\<close>

section \<open>The client\<close>

record deepseek =
  ds_api_key :: ustr
  ds_base_url :: ustr
  ds_max_retries :: nat

text \<open>The temperature is the JSON number the caller passes.\<close>

record chat_args =
  ca_system :: "ustr option"
  ca_user :: ustr
  ca_model :: ustr
  ca_max_tokens :: int
  ca_temperature :: json

definition chat_message :: "string \<Rightarrow> ustr \<Rightarrow> json" where
  "chat_message r t = JObj [(asc ''role'', JStr (asc r)), (asc ''content'', JStr t)]"

definition chat_messages :: "chat_args \<Rightarrow> json list" where
  "chat_messages a =
     (case ca_system a of None \<Rightarrow> [] | Some t \<Rightarrow> if t \<noteq> [] then [chat_message ''system'' t] else [])
     @ [chat_message ''user'' (ca_user a)]"

definition chat_request :: "deepseek \<Rightarrow> chat_args \<Rightarrow> http_request" where
  "chat_request ds a =
     \<lparr>hq_method = ''POST'', hq_path = ds_base_url ds @ asc ''/chat/completions'',
      hq_auth = asc ''Bearer '' @ ds_api_key ds,
      hq_json = Some (JObj
        [(asc ''model'', JStr (ca_model a)), (asc ''messages'', JArr (chat_messages a)),
         (asc ''max_tokens'', JInt (ca_max_tokens a)), (asc ''temperature'', ca_temperature a),
         (asc ''stream'', JBool False)]),
      hq_params = []\<rparr>"

definition retry_status :: "nat \<Rightarrow> bool" where
  "retry_status c \<longleftrightarrow> c \<in> set [429, 500, 502, 503, 504]"

text \<open>\<open>m.get(k, '') or ''\<close>\<close>

definition str_or_empty :: "obj \<Rightarrow> string \<Rightarrow> exn + ustr" where
  "str_or_empty d k =
     (let v = obj_get_or d k (JStr []) in if truthy v then want_str v else Inr [])"

definition read_completion :: "chat_args \<Rightarrow> int \<Rightarrow> json \<Rightarrow> ('s, llm_response) net_act" where
  "read_completion a latency body =
     bnd (lift_sum (item body ''choices'')) (\<lambda>choices.
     bnd (lift_sum (item0 choices)) (\<lambda>choice.
     bnd (lift_sum (item choice ''message'')) (\<lambda>message.
     bnd (lift_sum (as_obj body)) (\<lambda>top.
     let usage_value = obj_get_or top ''usage'' (JObj []) in
     bnd (lift_sum (as_obj message)) (\<lambda>msg.
     bnd (lift_sum (str_or_empty msg ''content'')) (\<lambda>content.
     bnd (lift_sum (str_or_empty msg ''reasoning_content'')) (\<lambda>reasoning.
     bnd (lift_sum (as_obj choice)) (\<lambda>ch.
     bnd (lift_sum (want_str (obj_get_or ch ''finish_reason'' (JStr [])))) (\<lambda>fin.
     bnd (lift_sum (as_obj usage_value)) (\<lambda>usage.
     bnd (lift_sum (want_int (obj_get_or usage ''prompt_tokens'' (JInt 0)))) (\<lambda>p.
     bnd (lift_sum (want_int (obj_get_or usage ''completion_tokens'' (JInt 0)))) (\<lambda>c.
     bnd (lift_sum (as_obj (obj_get_or usage ''completion_tokens_details'' (JObj [])))) (\<lambda>details.
     bnd (lift_sum (want_int (obj_get_or details ''reasoning_tokens'' (JInt 0)))) (\<lambda>r.
     bnd (lift_sum (want_int (obj_get_or usage ''prompt_cache_hit_tokens'' (JInt 0)))) (\<lambda>h.
     bnd (lift_sum (want_str (obj_get_or top ''model'' (JStr (ca_model a))))) (\<lambda>model.
     ret \<lparr>rs_content = content, rs_reasoning = reasoning, rs_model = model, rs_finish_reason = fin,
          rs_prompt_tokens = p, rs_completion_tokens = c, rs_reasoning_tokens = r,
          rs_cache_hit_tokens = h, rs_latency_ms = latency\<rparr>))))))))))))))))"

text \<open>The body of the \<open>try\<close>.\<close>

definition chat_once :: "http_env \<Rightarrow> deepseek \<Rightarrow> chat_args \<Rightarrow> ('s, llm_response) net_act" where
  "chat_once hc ds a =
     bnd (look (monotonic_ms hc)) (\<lambda>t0.
     bnd (http_call hc (chat_request ds a)) (\<lambda>resp.
     bnd (look (monotonic_ms hc)) (\<lambda>t1.
     if retry_status (hr_status resp) then raise_exn (HTTPStatusError (hr_status resp))
     else
       andthen (lift_sum (raise_for_status resp))
       (bnd (lift_sum (response_json resp)) (read_completion a (t1 - t0))))))"

definition retryable :: "exn \<Rightarrow> bool" where
  "retryable x \<longleftrightarrow> is_http_error x \<or> x = KeyError \<or> x = ValueError"

definition give_up :: "http_env \<Rightarrow> deepseek \<Rightarrow> exn option \<Rightarrow> exn" where
  "give_up hc ds last_err = LLMTerminalFailure (asc ''deepseek after '' @ nat_digits (ds_max_retries ds)
     @ asc '': '' @ (case last_err of None \<Rightarrow> asc ''None'' | Some x \<Rightarrow> error_str hc x))"

text \<open>\<open>for attempt in range(max_retries)\<close>: \<open>n\<close> attempts are left.\<close>

fun chat_loop :: "http_env \<Rightarrow> deepseek \<Rightarrow> chat_args \<Rightarrow> nat \<Rightarrow> exn option \<Rightarrow> nat \<Rightarrow> ('s, llm_response) net_act" where
  "chat_loop hc ds a attempt last_err 0 = raise_exn (give_up hc ds last_err)"
| "chat_loop hc ds a attempt last_err (Suc n) =
     catch (chat_once hc ds a)
       (\<lambda>x. if retryable x then
              andthen (if attempt + 1 < ds_max_retries ds then sleep_ms (2 ^ attempt * 5 * 1000) else ret ())
                (chat_loop hc ds a (attempt + 1) (Some x) n)
            else raise_exn x)"

definition chat :: "http_env \<Rightarrow> deepseek \<Rightarrow> chat_args \<Rightarrow> ('s, llm_response) net_act" where
  "chat hc ds a = chat_loop hc ds a 0 None (ds_max_retries ds)"

section \<open>One attempt\<close>

text \<open>An attempt sends the request once and touches nothing else of the state.\<close>

lemma lift_keeps: "(\<And>x. snd (k x s) = s) \<Longrightarrow> snd (bnd (lift_sum r) k s) = s"
  by (cases r) (auto simp: lift_sum_def bnd_def)

lemma read_completion_keeps: "snd (read_completion a l body s) = s"
  unfolding read_completion_def Let_def by (intro lift_keeps) (simp add: ret_def)

lemma chat_once_state:
  "n_requests (snd (chat_once hc ds a s)) = n_requests s @ [chat_request ds a]"
  "n_slept (snd (chat_once hc ds a s)) = n_slept s"
proof -
  have "snd ((if retry_status (hr_status r) then raise_exn (HTTPStatusError (hr_status r))
      else andthen (lift_sum (raise_for_status r)) (bnd (lift_sum (response_json r)) (read_completion a l))) v) = v"
    for r l and v :: "'a net_scheme"
    by (simp add: raise_exn_def lift_keeps read_completion_keeps)
  note tail = this
  show "n_requests (snd (chat_once hc ds a s)) = n_requests s @ [chat_request ds a]"
    "n_slept (snd (chat_once hc ds a s)) = n_slept s"
    unfolding chat_once_def by (auto simp: run_simps tail simp del: run_if split: sum.splits)
qed

section \<open>The loop\<close>

text \<open>
  A run of the loop from \<open>attempt\<close> with \<open>n\<close> attempts left sends \<open>k\<close> requests, all the same, and
  pauses in between for 5, 10, 20, \<dots> seconds.
\<close>

definition pauses :: "nat \<Rightarrow> nat \<Rightarrow> int list" where
  "pauses from k = map (\<lambda>i. 5000 * 2 ^ i) [from..<from + k]"

lemma pauses_Suc: "pauses i (Suc k) = 5000 * 2 ^ i # pauses (Suc i) k"
  by (simp add: pauses_def upt_conv_Cons)

lemma chat_loop_trace:
  fixes s :: "'s net_scheme"
  assumes "attempt + n = ds_max_retries ds"
  shows "\<exists>k\<le>n. (k = 0 \<longleftrightarrow> n = 0)
     \<and> n_requests (snd (chat_loop hc ds a attempt l n s)) = n_requests s @ replicate k (chat_request ds a)
     \<and> n_slept (snd (chat_loop hc ds a attempt l n s)) = n_slept s @ pauses attempt (k - 1)
     \<and> (\<forall>x. fst (chat_loop hc ds a attempt l n s) = Inl x \<longrightarrow>
          k = n \<and> (\<exists>y. x = give_up hc ds y) \<or> \<not> retryable x \<and> (\<exists>v :: 's net_scheme. fst (chat_once hc ds a v) = Inl x))"
  using assms
proof (induction n arbitrary: attempt l s)
  case 0
  then show ?case by (auto simp: raise_exn_def pauses_def)
next
  case (Suc n)
  obtain r s1 where once: "chat_once hc ds a s = (r, s1)" by fastforce
  have s1: "n_requests s1 = n_requests s @ [chat_request ds a]" "n_slept s1 = n_slept s"
    using chat_once_state [of hc ds a s] once by simp_all
  show ?case
  proof (cases r)
    case (Inr x)
    with once show ?thesis by (intro exI [of _ 1]) (simp add: catch_def s1 pauses_def)
  next
    case (Inl x)
    show ?thesis
    proof (cases "retryable x")
      case False
      then have "chat_loop hc ds a attempt l (Suc n) s = (Inl x, s1)"
        using once Inl by (simp add: catch_def raise_exn_def)
      moreover have "\<not> retryable x \<and> (\<exists>v :: 's net_scheme. fst (chat_once hc ds a v) = Inl x)" using once Inl False by (auto intro: exI [of _ s])
      ultimately show ?thesis by (intro exI [of _ 1]) (simp add: s1 pauses_def del: chat_loop.simps)
    next
      case True
      define s2 where "s2 = (if n = 0 then s1 else s1\<lparr>n_slept := n_slept s1 @ [5000 * 2 ^ attempt]\<rparr>)"
      have n: "Suc attempt < ds_max_retries ds \<longleftrightarrow> n \<noteq> 0" using Suc.prems by auto
      have run: "chat_loop hc ds a attempt l (Suc n) s = chat_loop hc ds a (attempt + 1) (Some x) n s2"
        using once Inl True by (simp add: catch_def n s2_def run_simps)
      obtain k where k: "k \<le> n" "k = 0 \<longleftrightarrow> n = 0"
        "n_requests (snd (chat_loop hc ds a (attempt + 1) (Some x) n s2)) = n_requests s2 @ replicate k (chat_request ds a)"
        "n_slept (snd (chat_loop hc ds a (attempt + 1) (Some x) n s2)) = n_slept s2 @ pauses (attempt + 1) (k - 1)"
        "\<forall>y. fst (chat_loop hc ds a (attempt + 1) (Some x) n s2) = Inl y \<longrightarrow>
          k = n \<and> (\<exists>z. y = give_up hc ds z) \<or> \<not> retryable y \<and> (\<exists>v :: 's net_scheme. fst (chat_once hc ds a v) = Inl y)"
        using Suc.IH [of "attempt + 1" "Some x" s2] Suc.prems by auto
      have reqs: "n_requests s2 = n_requests s @ [chat_request ds a]" by (simp add: s2_def s1)
      have pause: "n_slept s2 @ pauses (attempt + 1) (k - 1) = n_slept s @ pauses attempt k"
        using k(2) by (cases k) (auto simp: s2_def s1 pauses_Suc, simp_all add: pauses_def)
      show ?thesis
        unfolding run using k reqs pause by (intro exI [of _ "Suc k"]) auto
    qed
  qed
qed

section \<open>Properties\<close>

text \<open>A completion costs at most \<open>max_retries\<close> requests, all the same one, and waits 5, 10, 20, \<open>\<dots>\<close>
  seconds between them, never after the last.\<close>

theorem chat_bounded:
  "\<exists>k\<le>ds_max_retries ds.
      n_requests (snd (chat hc ds a s)) = n_requests s @ replicate k (chat_request ds a)
    \<and> n_slept (snd (chat hc ds a s)) = n_slept s @ pauses 0 (k - 1)"
  using chat_loop_trace [of 0 "ds_max_retries ds" ds hc a None s] by (auto simp: chat_def)

text \<open>The HTTP library reports a failed exchange and a refused status by its own exceptions.\<close>

definition http_ok :: "http_env \<Rightarrow> bool" where
  "http_ok hc \<longleftrightarrow> (\<forall>n rq. case http_send hc n rq of
     Inl x \<Rightarrow> is_http_error x
   | Inr r \<Rightarrow> (case hr_refusal r of None \<Rightarrow> True | Some x \<Rightarrow> is_http_error x))"

definition shape_errors :: "exn list" where
  "shape_errors = [IndexError, TypeError, AttributeError, OtherError (asc ''outside the model'')]"

lemma read_errors:
  "fst (read_completion a l body s) = Inl x \<Longrightarrow> x = KeyError \<or> x \<in> set shape_errors"
proof -
  have step: "fst (bnd (lift_sum r) k s) = Inl x \<Longrightarrow>
      (\<And>e. r = Inl e \<Longrightarrow> e = KeyError \<or> e \<in> set shape_errors) \<Longrightarrow>
      (\<And>v. fst (k v s) = Inl x \<Longrightarrow> x = KeyError \<or> x \<in> set shape_errors) \<Longrightarrow>
      x = KeyError \<or> x \<in> set shape_errors" for r :: "exn + 'b" and k :: "'b \<Rightarrow> ('s, llm_response) net_act" and s
    by (cases r) (auto simp: lift_sum_def bnd_def)
  have "item j k = Inl e \<Longrightarrow> e = KeyError \<or> e \<in> set shape_errors" for j k e
    by (auto simp: item_def shape_errors_def split: json.splits option.splits)
  moreover have "item0 j = Inl e \<Longrightarrow> e = KeyError \<or> e \<in> set shape_errors" for j e
    by (auto simp: item0_def shape_errors_def split: json.splits list.splits)
  moreover have "as_obj j = Inl e \<Longrightarrow> e = KeyError \<or> e \<in> set shape_errors" for j e
    by (auto simp: as_obj_def shape_errors_def split: json.splits)
  moreover have want: "want_str j = Inl e \<Longrightarrow> e = KeyError \<or> e \<in> set shape_errors" for j e
    by (auto simp: want_str_def shape_errors_def split: json.splits)
  moreover have "want_int j = Inl e \<Longrightarrow> e = KeyError \<or> e \<in> set shape_errors" for j e
    by (auto simp: want_int_def shape_errors_def split: json.splits)
  moreover have "str_or_empty d k = Inl e \<Longrightarrow> e = KeyError \<or> e \<in> set shape_errors" for d k e
    using want by (auto simp: str_or_empty_def Let_def split: if_splits)
  ultimately have errs: "item j k = Inl e \<or> item0 j = Inl e \<or> as_obj j = Inl e \<or> want_str j = Inl e
      \<or> want_int j = Inl e \<or> str_or_empty d k = Inl e \<Longrightarrow> e = KeyError \<or> e \<in> set shape_errors" for j k e d
    by blast
  assume "fst (read_completion a l body s) = Inl x"
  then show ?thesis unfolding read_completion_def Let_def
    by (elim step) (use errs in \<open>auto simp: ret_def\<close>)
qed

lemma chat_once_errors:
  assumes "http_ok hc" and "fst (chat_once hc ds a s) = Inl x"
  shows "retryable x \<or> x \<in> set shape_errors"
proof -
  have "case http_send hc (Suc (n_tick s)) (chat_request ds a) of Inl y \<Rightarrow> is_http_error y
    | Inr r \<Rightarrow> (case hr_refusal r of None \<Rightarrow> True | Some y \<Rightarrow> is_http_error y)"
    using assms(1) unfolding http_ok_def by blast
  then show ?thesis
    using assms(2) read_errors [of a _ _ _ x]
    by (auto simp: chat_once_def run_simps raise_exn_def retryable_def raise_for_status_def
        response_json_def split: sum.splits if_splits option.splits)
qed

text \<open>C34: A failed completion is a terminal failure only after all \<open>max_retries\<close> requests were made;
  the one other way to fail is an answer of an unexpected shape, which escapes as it is.\<close>

theorem chat_errors:
  assumes "http_ok hc" and "chat hc ds a s = (Inl x, s')"
  shows "(is_terminal_failure x \<and> n_requests s' = n_requests s @ replicate (ds_max_retries ds) (chat_request ds a))
       \<or> x \<in> set shape_errors"
  using chat_loop_trace [of 0 "ds_max_retries ds" ds hc a None s] assms(2)
    chat_once_errors [OF assms(1), of ds a _ x]
  by (auto simp: chat_def give_up_def)

text \<open>An answer without choices ends the call at once with \<open>IndexError\<close>: no retry, and not one
  of the failures the dispatcher handles.\<close>

theorem empty_choices_escape:
  assumes "http_send hc (Suc (n_tick s)) (chat_request ds a) = Inr resp"
    and "hr_status resp = 200" "hr_refusal resp = None" and "hr_json resp = Some (JObj d)"
    and "map_of d (asc ''choices'') = Some (JArr [])" and "0 < ds_max_retries ds"
  shows "fst (chat hc ds a s) = Inl IndexError
    \<and> n_requests (snd (chat hc ds a s)) = n_requests s @ [chat_request ds a]
    \<and> \<not> is_terminal_failure IndexError"
proof -
  have "fst (chat_once hc ds a s) = Inl IndexError"
    using assms by (simp add: chat_once_def run_simps retry_status_def raise_for_status_def
        response_json_def read_completion_def item_def item0_def del: asc_Cons)
  then obtain s1 where once: "chat_once hc ds a s = (Inl IndexError, s1)" by (metis prod.collapse)
  moreover obtain n where "ds_max_retries ds = Suc n" using assms(6) gr0_implies_Suc by blast
  ultimately have "chat hc ds a s = (Inl IndexError, s1)"
    by (simp add: chat_def catch_def retryable_def raise_exn_def)
  moreover have "n_requests s1 = n_requests s @ [chat_request ds a]"
    using chat_once_state(1) [of hc ds a s] once by simp
  ultimately show ?thesis by simp
qed

section \<open>Concrete runs\<close>

definition demo_net :: net where
  "demo_net = \<lparr>n_tick = 0, n_requests = [], n_slept = []\<rparr>"

definition demo_deepseek :: deepseek where
  "demo_deepseek = \<lparr>ds_api_key = asc ''k'', ds_base_url = asc ''https://api.deepseek.com/v1'', ds_max_retries = 3\<rparr>"

definition demo_chat :: chat_args where
  "demo_chat = \<lparr>ca_system = Some (asc ''sys''), ca_user = asc ''hi'', ca_model = asc ''m'', ca_max_tokens = 8192,
     ca_temperature = JInt 0\<rparr>"

theorem chat_errors_witness:
  "\<exists>x s'. chat (demo_http (\<lambda>n rq. Inl HTTPTransportError)) demo_deepseek demo_chat demo_net = (Inl x, s')
    \<and> is_terminal_failure x \<and> length (n_requests s') = 3"
proof -
  let ?hc = "demo_http (\<lambda>n rq. Inl HTTPTransportError)"
  have fail: "is_terminal_failure (case fst (chat ?hc demo_deepseek demo_chat demo_net) of Inl x \<Rightarrow> x | Inr r \<Rightarrow> KeyError)"
    by code_simp
  then obtain x s' where run: "chat ?hc demo_deepseek demo_chat demo_net = (Inl x, s')"
    by (cases "chat ?hc demo_deepseek demo_chat demo_net") (auto split: sum.splits)
  have ok: "http_ok ?hc" by (simp add: http_ok_def demo_http_def)
  have "is_terminal_failure x" using fail run by simp
  then have "x \<notin> set shape_errors" by (auto simp: shape_errors_def)
  with chat_errors [OF ok run] have "n_requests s' = n_requests demo_net @ replicate 3 (chat_request demo_deepseek demo_chat)"
    by (simp add: demo_deepseek_def)
  with run \<open>is_terminal_failure x\<close> show ?thesis by (auto simp: demo_net_def)
qed

theorem empty_choices_escape_witness:
  "fst (chat (demo_http (\<lambda>n rq. Inr (ok_response (JObj [(asc ''choices'', JArr [])])))) demo_deepseek demo_chat demo_net)
     = Inl IndexError"
  by (rule conjunct1 [OF empty_choices_escape [where d = "[(asc ''choices'', JArr [])]"
      and resp = "ok_response (JObj [(asc ''choices'', JArr [])])"]])
     (simp_all add: demo_http_def ok_response_def demo_net_def demo_deepseek_def)

end
