(* ===== verification/Media.thy ===== *)
theory Media imports Http Ingest EnvFile begin

text \<open>
  pipeline/ingest\_backends/image.py, audio.py, pdf.py, youtube.py and the page reader of
  web\_scrape.py: which tool or service reads a file, what is sent to it and what becomes of its
  answer. The tools, optional Python packages and services are in \<open>media_env\<close>; requests go through
  the network of Http. Request headers other than the authorization are left out.
\<close>

record media_env =
  me_which :: "string \<Rightarrow> bool"
  me_environ :: "string \<Rightarrow> ustr option"
  me_exec :: "nat \<Rightarrow> ustr list \<Rightarrow> exn + int \<times> int list"
  me_module :: "string \<Rightarrow> bool"
  me_whisper :: "nat \<Rightarrow> ustr \<Rightarrow> exn + json"
  me_pdfminer :: "nat \<Rightarrow> ustr \<Rightarrow> exn + ustr"
  me_transcript :: "nat \<Rightarrow> ustr \<Rightarrow> exn + ustr list"
  me_readability :: "ustr \<Rightarrow> exn + ustr \<times> ustr"
  me_markdownify :: "ustr \<Rightarrow> ustr"
  me_soup :: "ustr \<Rightarrow> exn + ustr option \<times> ustr option"
  me_captions :: "int list \<Rightarrow> exn + ustr option list \<times> ustr option list"
  me_loads :: "ustr \<Rightarrow> json option"
  me_decode :: "int list \<Rightarrow> ustr"
  me_page_text :: "http_response \<Rightarrow> ustr"
  me_b64 :: "int list \<Rightarrow> ustr"
  me_exists :: "ustr \<Rightarrow> bool"
  me_home :: ustr

record input_file =
  if_path :: ustr
  if_name :: ustr
  if_bytes :: "int list"

record ingest_result =
  ir_backend :: string
  ir_normalized :: ustr
  ir_note :: ustr

section \<open>Shared steps\<close>

definition check_size :: "backend \<Rightarrow> input_file \<Rightarrow> ('s, unit) net_act" where
  "check_size b f =
     (let n = int (length (if_bytes f)) in
      if size_cap b < n then raise_exn (IngestRejected (too_big_message n (size_cap b))) else ret ())"

definition exec_tool :: "media_env \<Rightarrow> ustr list \<Rightarrow> ('s, int \<times> int list) net_act" where
  "exec_tool me args = bnd (look (\<lambda>n. me_exec me n args)) lift_sum"

text \<open>A variable that is set and not empty.\<close>

definition api_key :: "media_env \<Rightarrow> string \<Rightarrow> ustr option" where
  "api_key me k = (case me_environ me k of None \<Rightarrow> None | Some v \<Rightarrow> if v = [] then None else Some v)"

definition path_stem :: "ustr \<Rightarrow> ustr" where
  "path_stem n = take (length n - length (path_suffix n)) n"

definition by_suffix :: "(string \<times> string) list \<Rightarrow> string \<Rightarrow> ustr \<Rightarrow> string" where
  "by_suffix table other name =
     (case map_of (map (\<lambda>(k, v). (asc k, v)) table) (lower (path_suffix name)) of None \<Rightarrow> other | Some m \<Rightarrow> m)"

text \<open>Subscripts into a decoded answer.\<close>

datatype json_step = AtKey string | AtFirst

fun follow :: "json_step list \<Rightarrow> json \<Rightarrow> exn + json" where
  "follow [] j = Inr j"
| "follow (AtKey k # ps) j = (case item j k of Inl x \<Rightarrow> Inl x | Inr v \<Rightarrow> follow ps v)"
| "follow (AtFirst # ps) j = (case item0 j of Inl x \<Rightarrow> Inl x | Inr v \<Rightarrow> follow ps v)"

definition post_json :: "http_env \<Rightarrow> http_request \<Rightarrow> ('s, json) net_act" where
  "post_json hc rq =
     bnd (http_call hc rq) (\<lambda>resp.
     andthen (lift_sum (raise_for_status resp)) (lift_sum (response_json resp)))"

definition gemini_model :: "media_env \<Rightarrow> ustr" where
  "gemini_model me =
     (case me_environ me ''REVIEW_AGENT_GEMINI_MODEL'' of None \<Rightarrow> asc ''gemini-2.5-flash'' | Some m \<Rightarrow> m)"

definition gemini_request :: "media_env \<Rightarrow> ustr \<Rightarrow> ustr \<Rightarrow> string \<Rightarrow> input_file \<Rightarrow> http_request" where
  "gemini_request me key prompt mime f =
     \<lparr>hq_method = ''POST'',
      hq_path = asc ''https://generativelanguage.googleapis.com/v1beta/models/'' @ gemini_model me
                @ asc '':generateContent?key='' @ key,
      hq_auth = [],
      hq_json = Some (JObj
        [(asc ''contents'', JArr [JObj [(asc ''parts'', JArr
            [JObj [(asc ''text'', JStr prompt)],
             JObj [(asc ''inline_data'', JObj
               [(asc ''mime_type'', JStr (asc mime)), (asc ''data'', JStr (me_b64 me (if_bytes f)))])]])]]),
         (asc ''generationConfig'', JObj [(asc ''maxOutputTokens'', JInt 4096)])]),
      hq_params = []\<rparr>"

definition gemini_path :: "json_step list" where
  "gemini_path = [AtKey ''candidates'', AtFirst, AtKey ''content'', AtKey ''parts'', AtFirst, AtKey ''text'']"

text \<open>\<open>except (KeyError, IndexError): pass\<close> leaves the empty text.\<close>

definition gemini_content :: "json \<Rightarrow> exn + json" where
  "gemini_content body =
     (case follow gemini_path body of
        Inl x \<Rightarrow> if x = KeyError \<or> x = IndexError then Inr (JStr []) else Inl x
      | Inr v \<Rightarrow> Inr v)"

definition chars_note :: "ustr \<Rightarrow> ustr \<Rightarrow> ustr" where
  "chars_note what t = what @ asc '': '' @ nat_digits (length t) @ asc '' chars''"

section \<open>Pictures\<close>

definition guess_image_mime :: "ustr \<Rightarrow> string" where
  "guess_image_mime = by_suffix
     [(''.png'', ''image/png''), (''.jpg'', ''image/jpeg''), (''.jpeg'', ''image/jpeg''), (''.webp'', ''image/webp''),
      (''.bmp'', ''image/bmp''), (''.tiff'', ''image/tiff''), (''.tif'', ''image/tiff''), (''.gif'', ''image/gif'')] ''image/png''"

definition vision_prompt :: ustr where
  "vision_prompt = asc (''Extract all visible text from this image verbatim. ''
     @ ''If it's a slide/screenshot/document, preserve structure (headers, ''
     @ ''bullets, tables) as markdown. If it's a diagram or figure, describe it ''
     @ ''briefly. Return ONLY the extracted content, no conversational wrapper.'')"

definition image_header :: "ustr \<Rightarrow> ustr" where
  "image_header name = (asc ''['' @ [128206] @ asc '' '' @ [22270, 29255, 24050, 36890, 36807] @ asc '' OCR '' @ [25552, 21462] @ asc '': *'') @ path_stem name @ asc ''*]'' @ [10, 10]"

definition image_result :: "string \<Rightarrow> ustr \<Rightarrow> input_file \<Rightarrow> ustr \<Rightarrow> ingest_result" where
  "image_result backend what f t =
     \<lparr>ir_backend = backend, ir_normalized = image_header (if_name f) @ t, ir_note = chars_note what t\<rparr>"

text \<open>\<open>if not text or not text.strip()\<close> on whatever the answer holds.\<close>

definition vision_text :: "ustr \<Rightarrow> json \<Rightarrow> exn + ustr" where
  "vision_text refusal v =
     (if \<not> truthy v then Inl (IngestRejected refusal)
      else case v of JStr t \<Rightarrow> if strip t = [] then Inl (IngestRejected refusal) else Inr t
           | _ \<Rightarrow> Inl AttributeError)"

definition run_tesseract :: "media_env \<Rightarrow> input_file \<Rightarrow> ('s, ustr) net_act" where
  "run_tesseract me f =
     bnd (exec_tool me [asc ''tesseract'', if_path f, asc ''stdout'', asc ''-l'', asc ''eng+chi_sim'', asc ''--psm'', asc ''6''])
       (\<lambda>(code, out). ret (strip (me_decode me out)))"

definition gemini_image :: "media_env \<Rightarrow> http_env \<Rightarrow> input_file \<Rightarrow> ustr \<Rightarrow> ('s, ingest_result) net_act" where
  "gemini_image me hc f key =
     bnd (post_json hc (gemini_request me key vision_prompt (guess_image_mime (if_name f)) f)) (\<lambda>body.
     bnd (lift_sum (gemini_content body)) (\<lambda>v.
     bnd (lift_sum (vision_text (asc ''Gemini Vision '' @ [27809, 35782, 21035, 21040, 20869, 23481, 12290, 21487, 33021, 26159, 31354, 30333, 22270, 25110, 32431, 35013, 39280, 22270, 12290]) v)) (\<lambda>t.
     ret (image_result ''gemini-vision'' (asc ''vision '' @ gemini_model me) f t))))"

definition openai_image_request :: "media_env \<Rightarrow> input_file \<Rightarrow> ustr \<Rightarrow> http_request" where
  "openai_image_request me f key =
     \<lparr>hq_method = ''POST'', hq_path = asc ''https://api.openai.com/v1/chat/completions'',
      hq_auth = asc ''Bearer '' @ key,
      hq_json = Some (JObj
        [(asc ''model'', JStr (asc ''gpt-4o-mini'')),
         (asc ''messages'', JArr [JObj
            [(asc ''role'', JStr (asc ''user'')),
             (asc ''content'', JArr
               [JObj [(asc ''type'', JStr (asc ''text'')), (asc ''text'', JStr vision_prompt)],
                JObj [(asc ''type'', JStr (asc ''image_url'')),
                      (asc ''image_url'', JObj [(asc ''url'', JStr (asc ''data:'' @ asc (guess_image_mime (if_name f))
                         @ asc '';base64,'' @ me_b64 me (if_bytes f)))])]])]]),
         (asc ''max_tokens'', JInt 4096)]),
      hq_params = []\<rparr>"

definition openai_image :: "media_env \<Rightarrow> http_env \<Rightarrow> input_file \<Rightarrow> ustr \<Rightarrow> ('s, ingest_result) net_act" where
  "openai_image me hc f key =
     bnd (post_json hc (openai_image_request me f key)) (\<lambda>body.
     bnd (lift_sum (follow [AtKey ''choices'', AtFirst, AtKey ''message'', AtKey ''content''] body)) (\<lambda>v.
     bnd (lift_sum (vision_text (asc ''OpenAI Vision '' @ [27809, 35782, 21035, 21040, 20869, 23481, 12290, 21487, 33021, 26159, 31354, 30333, 22270, 25110, 32431, 35013, 39280, 22270, 12290]) v)) (\<lambda>t.
     ret (image_result ''openai-vision'' (asc ''vision gpt-4o-mini'') f t))))"

definition no_ocr_message :: ustr where
  "no_ocr_message = (asc ''OCR '' @ [27809, 35013] @ asc '' tesseract'' @ [65292, 20063, 27809, 26377] @ asc '' GEMINI_API_KEY / OPENAI_API_KEY '' @ [20570] @ asc '' vision '' @ [20828, 24213, 12290, 35753] @ asc '' admin '' @ [36305] @ asc '' '' @ [96] @ asc ''review-agent install-multimodal'' @ [96] @ asc '' '' @ [19968, 38190, 35013, 26412, 22320] @ asc '' OCR'' @ [65292, 25110, 22312] @ asc '' secrets.env '' @ [37324, 22635] @ asc '' GEMINI_API_KEY '' @ [25110] @ asc '' OPENAI_API_KEY'' @ [12290, 24403, 21069, 20320, 30452, 25509, 36148, 27491, 25991, 32473, 25105, 20063, 34892, 12290])"

definition image_ingest :: "media_env \<Rightarrow> http_env \<Rightarrow> input_file \<Rightarrow> ('s, ingest_result) net_act" where
  "image_ingest me hc f =
     andthen (check_size ImageBackend f)
     (bnd (if me_which me ''tesseract'' then run_tesseract me f else ret []) (\<lambda>t.
      if t \<noteq> [] then ret (image_result ''tesseract'' (asc ''tesseract eng+chi_sim psm6'') f t)
      else (case api_key me ''GEMINI_API_KEY'' of
          Some key \<Rightarrow> gemini_image me hc f key
        | None \<Rightarrow>
       (case api_key me ''OPENAI_API_KEY'' of
          Some key \<Rightarrow> openai_image me hc f key
        | None \<Rightarrow> raise_exn (IngestRejected no_ocr_message)))))"

section \<open>Voice messages\<close>

definition guess_audio_mime :: "ustr \<Rightarrow> string" where
  "guess_audio_mime = by_suffix
     [(''.mp3'', ''audio/mpeg''), (''.wav'', ''audio/wav''), (''.ogg'', ''audio/ogg''), (''.opus'', ''audio/ogg''),
      (''.m4a'', ''audio/x-m4a''), (''.aac'', ''audio/aac''), (''.flac'', ''audio/flac''), (''.webm'', ''audio/webm'')] ''audio/mpeg''"

definition audio_header :: "ustr \<Rightarrow> ustr" where
  "audio_header name = (asc ''['' @ [127908] @ asc '' '' @ [35821, 38899, 28040, 24687, 24050, 36716, 25991, 23383] @ asc '': *'') @ path_stem name @ asc ''*]'' @ [10, 10]"

definition audio_result :: "string \<Rightarrow> ustr \<Rightarrow> input_file \<Rightarrow> ustr \<Rightarrow> ingest_result" where
  "audio_result backend what f t =
     \<lparr>ir_backend = backend, ir_normalized = audio_header (if_name f) @ t, ir_note = chars_note what t\<rparr>"

definition whisper_models :: "media_env \<Rightarrow> ustr list" where
  "whisper_models me =
     [me_home me @ asc ''/.whisper/models/ggml-base.bin'', me_home me @ asc ''/.cache/whisper.cpp/ggml-base.bin'',
      asc ''/usr/local/share/whisper/models/ggml-base.bin'', asc ''/opt/whisper.cpp/models/ggml-base.bin'']"

definition whisper_model_path :: "media_env \<Rightarrow> ustr" where
  "whisper_model_path me =
     (case find (me_exists me) (whisper_models me) of None \<Rightarrow> asc ''ggml-base.bin'' | Some c \<Rightarrow> c)"

text \<open>The lines of the tool's output, without blank ones and those in brackets.\<close>

definition whisper_lines :: "ustr \<Rightarrow> ustr" where
  "whisper_lines out =
     strip (join [10] (map strip (filter (\<lambda>l. strip l \<noteq> [] \<and> \<not> startswith (strip l) (asc ''[''))
       (cut_lines (universal_newlines out)))))"

definition run_whisper_cpp :: "media_env \<Rightarrow> input_file \<Rightarrow> ('s, ustr) net_act" where
  "run_whisper_cpp me f =
     bnd (exec_tool me [asc (if me_which me ''whisper-cpp'' then ''whisper-cpp'' else ''whisper.cpp''),
            asc ''-m'', whisper_model_path me, asc ''-f'', if_path f, asc ''--language'', asc ''auto'', asc ''-nt''])
       (\<lambda>(code, out). ret (if code \<noteq> 0 then [] else whisper_lines (me_decode me out)))"

text \<open>\<open>(v or "").strip()\<close>\<close>

definition stripped_or_empty :: "json \<Rightarrow> exn + ustr" where
  "stripped_or_empty v =
     (if \<not> truthy v then Inr [] else case v of JStr t \<Rightarrow> Inr (strip t) | _ \<Rightarrow> Inl AttributeError)"

definition stripped_str :: "json \<Rightarrow> exn + ustr" where
  "stripped_str v = (case v of JStr t \<Rightarrow> Inr (strip t) | _ \<Rightarrow> Inl AttributeError)"

definition reject_if :: "bool \<Rightarrow> ustr \<Rightarrow> ('s, unit) net_act" where
  "reject_if b m = (if b then raise_exn (IngestRejected m) else ret ())"

definition local_whisper :: "media_env \<Rightarrow> input_file \<Rightarrow> ('s, ingest_result) net_act" where
  "local_whisper me f =
     bnd (bnd (look (\<lambda>n. me_whisper me n (if_path f))) lift_sum) (\<lambda>v.
     bnd (lift_sum (stripped_or_empty v)) (\<lambda>t.
     andthen (reject_if (t = []) ([35821, 38899, 36716, 25991, 23383, 36820, 22238, 31354, 12290, 35797, 35797, 37325, 21457, 25110, 25442, 26684, 24335, 65288] @ asc ''OGG/M4A/MP3'' @ [65289, 12290]))
     (ret (audio_result ''whisper-local'' (asc ''whisper-local base'') f t))))"

definition audio_prompt :: ustr where
  "audio_prompt = asc (''Transcribe this audio verbatim. Return ONLY the transcribed text ''
     @ ''(no preamble, no labels, no language note). If the audio is silent ''
     @ ''or contains no speech, reply with exactly: [no speech detected]'')"

definition gemini_audio :: "media_env \<Rightarrow> http_env \<Rightarrow> input_file \<Rightarrow> ustr \<Rightarrow> ('s, ingest_result) net_act" where
  "gemini_audio me hc f key =
     bnd (post_json hc (gemini_request me key audio_prompt (guess_audio_mime (if_name f)) f)) (\<lambda>body.
     bnd (lift_sum (gemini_content body)) (\<lambda>v.
     bnd (lift_sum (stripped_str v)) (\<lambda>t.
     andthen (reject_if (t = [] \<or> t = asc ''[no speech detected]'') (asc ''Gemini '' @ [27809, 35782, 21035, 21040, 35821, 38899, 20869, 23481, 12290, 21487, 33021, 22826, 30701, 25110, 20840, 38745, 38899, 12290]))
     (ret (audio_result ''gemini-audio'' (asc ''audio '' @ gemini_model me) f t)))))"

text \<open>The multipart upload: the form fields are in \<open>hq_params\<close>.\<close>

definition whisper_api_request :: "media_env \<Rightarrow> input_file \<Rightarrow> ustr \<Rightarrow> http_request" where
  "whisper_api_request me f key =
     \<lparr>hq_method = ''POST'', hq_path = asc ''https://api.openai.com/v1/audio/transcriptions'',
      hq_auth = asc ''Bearer '' @ key, hq_json = None,
      hq_params = [(asc ''model'', JStr (asc ''whisper-1'')),
                   (asc ''file'', JArr [JStr (if_name f), JArr (map JInt (if_bytes f)),
                                        JStr (asc (guess_audio_mime (if_name f)))])]\<rparr>"

definition whisper_api :: "media_env \<Rightarrow> http_env \<Rightarrow> input_file \<Rightarrow> ustr \<Rightarrow> ('s, ingest_result) net_act" where
  "whisper_api me hc f key =
     bnd (post_json hc (whisper_api_request me f key)) (\<lambda>body.
     bnd (lift_sum (as_obj body)) (\<lambda>d.
     bnd (lift_sum (stripped_or_empty (obj_get d ''text''))) (\<lambda>t.
     andthen (reject_if (t = []) (asc ''Whisper API '' @ [36820, 22238, 31354, 12290, 35821, 38899, 21487, 33021, 22826, 30701, 25110, 20840, 38745, 38899, 12290]))
     (ret (audio_result ''whisper-api'' (asc ''whisper-1 API'') f t)))))"

definition no_whisper_message :: ustr where
  "no_whisper_message = ([35821, 38899, 36716, 25991, 23383, 27809, 35013, 65288] @ asc ''whisper-cpp / openai-whisper / GEMINI_API_KEY / OPENAI_API_KEY '' @ [37117, 27809, 26377, 65289, 12290, 35753] @ asc '' admin '' @ [36305] @ asc '' '' @ [96] @ asc ''review-agent install-multimodal'' @ [96] @ asc '' '' @ [19968, 38190, 35013, 26412, 22320] @ asc '' whisper'' @ [65292, 25110, 22312] @ asc '' secrets.env '' @ [37324, 22635] @ asc '' GEMINI_API_KEY '' @ [25110] @ asc '' OPENAI_API_KEY'' @ [12290, 24403, 21069, 20320, 30452, 25509, 36148, 25991, 23383, 32473, 25105, 20063, 34892, 12290])"

definition audio_ingest :: "media_env \<Rightarrow> http_env \<Rightarrow> input_file \<Rightarrow> ('s, ingest_result) net_act" where
  "audio_ingest me hc f =
     andthen (check_size AudioBackend f)
     (bnd (if me_which me ''whisper-cpp'' \<or> me_which me ''whisper.cpp'' then run_whisper_cpp me f else ret []) (\<lambda>t.
      if t \<noteq> [] then ret (audio_result ''whisper-cpp'' (asc ''whisper.cpp'') f t)
      else if me_module me ''whisper'' then local_whisper me f
      else (case api_key me ''GEMINI_API_KEY'' of
          Some key \<Rightarrow> gemini_audio me hc f key
        | None \<Rightarrow>
       (case api_key me ''OPENAI_API_KEY'' of
          Some key \<Rightarrow> whisper_api me hc f key
        | None \<Rightarrow> raise_exn (IngestRejected no_whisper_message)))))"

section \<open>PDF and text files\<close>

definition no_pdf_message :: ustr where
  "no_pdf_message = (asc ''PDF '' @ [35299, 26512, 27809, 35013, 65288] @ asc ''pdftotext / pdfminer.six '' @ [37117, 27809, 25214, 21040, 65289, 12290, 20320, 30452, 25509, 36148, 27491, 25991, 32473, 25105, 20063, 34892, 12290])"

text \<open>\<open>bytes.strip()\<close> removes ASCII white space.\<close>

definition blank_bytes :: "int list \<Rightarrow> bool" where
  "blank_bytes bs \<longleftrightarrow> list_all (\<lambda>b. b \<in> {9, 10, 11, 12, 13, 32}) bs"

definition plain_result :: "string \<Rightarrow> ustr \<Rightarrow> ingest_result" where
  "plain_result backend t = \<lparr>ir_backend = backend, ir_normalized = t, ir_note = []\<rparr>"

definition pdfminer_ingest :: "media_env \<Rightarrow> input_file \<Rightarrow> ('s, ingest_result) net_act" where
  "pdfminer_ingest me f =
     bnd (if me_module me ''pdfminer'' then bnd (look (\<lambda>n. me_pdfminer me n (if_path f))) lift_sum else ret []) (\<lambda>t.
     if strip t \<noteq> [] then ret (plain_result ''pdfminer'' t) else raise_exn (IngestRejected no_pdf_message))"

definition pdf_ingest :: "media_env \<Rightarrow> input_file \<Rightarrow> ('s, ingest_result) net_act" where
  "pdf_ingest me f =
     andthen (check_size PdfBackend f)
     (if me_which me ''pdftotext''
      then bnd (exec_tool me [asc ''pdftotext'', asc ''-layout'', if_path f, asc ''-'']) (\<lambda>(code, out).
        if code = 0 \<and> \<not> blank_bytes out then ret (plain_result ''pdftotext'' (me_decode me out))
        else pdfminer_ingest me f)
      else pdfminer_ingest me f)"

definition text_ingest :: "media_env \<Rightarrow> input_file \<Rightarrow> ('s, ingest_result) net_act" where
  "text_ingest me f =
     andthen (check_size TextBackend f) (ret (plain_result ''text'' (universal_newlines (me_decode me (if_bytes f)))))"

section \<open>Video transcripts\<close>

definition get_request :: "ustr \<Rightarrow> http_request" where
  "get_request url = \<lparr>hq_method = ''GET'', hq_path = url, hq_auth = [], hq_json = None, hq_params = []\<rparr>"

definition transcript_service :: "media_env \<Rightarrow> http_env \<Rightarrow> ustr \<Rightarrow> ('s, ustr option) net_act" where
  "transcript_service me hc vid =
     catch
       (bnd (http_call hc (get_request (asc ''https://youtubetranscript.com/?v='' @ vid @ asc ''&format=txt''))) (\<lambda>resp.
        let t = strip (me_page_text me resp) in
        ret (if hr_status resp = 200 \<and> t \<noteq> [] then Some t else None)))
       (\<lambda>x. ret None)"

definition transcript_package :: "media_env \<Rightarrow> ustr \<Rightarrow> ('s, ustr option) net_act" where
  "transcript_package me vid =
     (if \<not> me_module me ''youtube_transcript_api'' then ret None
      else catch
        (bnd (bnd (look (\<lambda>n. me_transcript me n vid)) lift_sum) (\<lambda>segs.
         ret (if segs = [] then None else Some (join (asc '' '') segs))))
        (\<lambda>x. ret None))"

definition player_rx :: rx where
  "player_rx = cats [Lit (asc ''ytInitialPlayerResponse''), Maybe (Many is_space), Lit (asc ''=''), Maybe (Many is_space),
     Group ''p'' (cats [Lit (asc ''{''), Lazy (\<lambda>c. True), Lit (asc ''}'')]), Lit (asc '';'')]"

text \<open>The address of the first caption track; whatever has another shape ends in the same \<open>except\<close> as
  a missing one.\<close>

definition caption_url :: "media_env \<Rightarrow> ustr \<Rightarrow> ustr option" where
  "caption_url me html =
     (case rx_iter 0 player_rx html of
        [] \<Rightarrow> None
      | (u, g) # _ \<Rightarrow>
          (case me_loads me (group ''p'' g) of
             Some (JObj player) \<Rightarrow>
               (case obj_get_or player ''captions'' (JObj []) of
                  JObj captions \<Rightarrow>
                    (case obj_get_or captions ''playerCaptionsTracklistRenderer'' (JObj []) of
                       JObj renderer \<Rightarrow>
                         (case obj_get renderer ''captionTracks'' of
                            JArr (JObj track # _) \<Rightarrow>
                              (case obj_get track ''baseUrl'' of JStr (c # url) \<Rightarrow> Some (c # url) | _ \<Rightarrow> None)
                          | _ \<Rightarrow> None)
                     | _ \<Rightarrow> None)
                | _ \<Rightarrow> None)
           | _ \<Rightarrow> None))"

text \<open>\<open>me_captions\<close> gives the texts of the elements in the Atom name space and of those without one. The loop
  over the latter reads \<open>text.elem.text\<close>, a name that does not exist.\<close>

definition caption_texts :: "ustr option list \<times> ustr option list \<Rightarrow> exn + ustr list" where
  "caption_texts ts =
     (if snd ts \<noteq> [] then Inl (OtherError (asc ''NameError''))
      else Inr (map strip (filter (\<lambda>t. t \<noteq> []) (map (\<lambda>t. case t of None \<Rightarrow> [] | Some x \<Rightarrow> x) (fst ts)))))"

definition transcript_captions :: "media_env \<Rightarrow> http_env \<Rightarrow> ustr \<Rightarrow> ('s, ustr option) net_act" where
  "transcript_captions me hc vid =
     catch
       (bnd (http_call hc (get_request (asc ''https://www.youtube.com/watch?v='' @ vid))) (\<lambda>resp.
        case caption_url me (me_page_text me resp) of
          None \<Rightarrow> ret None
        | Some url \<Rightarrow>
            bnd (http_call hc (get_request url)) (\<lambda>resp2.
            if hr_status resp2 \<noteq> 200 then ret None
            else
              bnd (lift_sum (me_captions me (hr_content resp2))) (\<lambda>ts.
              bnd (lift_sum (caption_texts ts)) (\<lambda>texts.
              ret (if texts = [] then None else Some (join (asc '' '') texts)))))))
       (\<lambda>x. ret None)"

definition transcribe_one :: "media_env \<Rightarrow> http_env \<Rightarrow> ustr \<Rightarrow> ('s, ustr option) net_act" where
  "transcribe_one me hc vid =
     bnd (transcript_service me hc vid) (\<lambda>a.
     if a \<noteq> None then ret a
     else
       bnd (transcript_package me vid) (\<lambda>b.
       if b \<noteq> None then ret b else transcript_captions me hc vid))"

section \<open>Web pages\<close>

definition tag_rx :: rx where
  "tag_rx = cats [Lit (asc ''<''), Many (\<lambda>c. c \<noteq> 62), Lit (asc ''>'')]"

definition html_to_markdown :: "media_env \<Rightarrow> ustr \<Rightarrow> ustr" where
  "html_to_markdown me html =
     (if me_module me ''markdownify'' then me_markdownify me html else rx_sub 0 tag_rx (\<lambda>g. []) html)"

text \<open>\<open>re.sub(r"\n{3,}", "\n\n", text)\<close>\<close>

definition squeeze_newlines :: "ustr \<Rightarrow> ustr" where
  "squeeze_newlines t = rx_sub 0 (Cat (Exactly 3 (\<lambda>c. c = 10)) (Maybe (Many (\<lambda>c. c = 10)))) (\<lambda>g. [10, 10]) t"

definition page_md :: "ustr option \<Rightarrow> ustr \<Rightarrow> ustr" where
  "page_md title t = asc ''### '' @ (case title of None \<Rightarrow> asc ''None'' | Some x \<Rightarrow> x) @ [10, 10] @ t"

text \<open>The fallback parser: title and text of the body, if the page has one.\<close>

definition soup_page :: "ustr \<Rightarrow> ustr option \<times> ustr option \<Rightarrow> ustr" where
  "soup_page html tb =
     (let t = squeeze_newlines (case snd tb of None \<Rightarrow> html | Some b \<Rightarrow> b);
          title = (if (fst tb = None \<or> fst tb = Some []) \<and> take 80 t \<noteq> []
                   then Some (takeWhile (\<lambda>c. c \<noteq> 10) (take 80 t)) else fst tb)
      in page_md title t)"

definition no_soup_message :: "media_env \<Rightarrow> http_env \<Rightarrow> ustr" where
  "no_soup_message me hc = ([32593, 39029, 25235, 21462, 20381, 36182, 27809, 35013, 65288]) @ error_str hc (OtherError (asc ''ImportError''))
     @ ([65289, 12290, 35753] @ asc '' admin '' @ [36305] @ asc '' '' @ [96] @ asc ''pip install -e '' @ [34] @ asc ''.[multimodal]'' @ [34, 96] @ asc '' '' @ [35013] @ asc '' readability-lxml + beautifulsoup4'' @ [12290])"

definition read_page :: "media_env \<Rightarrow> http_env \<Rightarrow> ustr \<Rightarrow> exn + ustr" where
  "read_page me hc html =
     (let soup = (if \<not> me_module me ''bs4'' then Inl (IngestRejected (no_soup_message me hc))
                  else case me_soup me html of Inl x \<Rightarrow> Inl x | Inr tb \<Rightarrow> Inr (soup_page html tb)) in
      if \<not> me_module me ''readability'' then soup
      else case me_readability me html of
          Inl x \<Rightarrow> Inl x
        | Inr (title, body) \<Rightarrow>
            (let md = html_to_markdown me body in if strip md \<noteq> [] then Inr (page_md (Some title) md) else soup))"

definition scrape_one :: "media_env \<Rightarrow> http_env \<Rightarrow> ustr \<Rightarrow> ('s, ustr) net_act" where
  "scrape_one me hc url =
     bnd (http_call hc (get_request url)) (\<lambda>resp.
     andthen (lift_sum (raise_for_status resp)) (lift_sum (read_page me hc (me_page_text me resp))))"

text \<open>The addresses in a \<open>.url\<close> file.\<close>

definition page_urls :: "ustr \<Rightarrow> ustr list" where
  "page_urls s = first_by id [] (map (\<lambda>(u, g). rstrip_by url_trail u) (rx_iter 0 web_url_rx s))"

section \<open>What leaves the machine\<close>

lemma at_most_check: "at_most P 0 (check_size b f)"
  by (simp add: check_size_def Let_def at_most_pure)

lemma at_most_exec: "at_most P 0 (exec_tool me args)"
  unfolding exec_tool_def by (intro at_most_bnd0 at_most_pure)

lemma at_most_reject: "at_most P n (reject_if b m)"
  by (simp add: reject_if_def at_most_pure)

lemma at_most_bnd1: "at_most P 1 m \<Longrightarrow> (\<And>x. at_most P 0 (f x)) \<Longrightarrow> at_most P 1 (bnd m f)"
  using at_most_bnd [of P 1 m 0 f] by simp

lemmas at_most_local = at_most_bnd0 at_most_pure at_most_exec at_most_reject at_most_check

lemma at_most_post_json: "at_most P 1 (post_json hc rq)"
  unfolding post_json_def by (rule at_most_bnd1 [OF at_most_http(1)], intro at_most_local)

lemma at_most_services:
  "at_most P 1 (gemini_image me hc f key)" "at_most P 1 (openai_image me hc f key)"
  "at_most P 1 (gemini_audio me hc f key)" "at_most P 1 (whisper_api me hc f key)"
  unfolding gemini_image_def openai_image_def gemini_audio_def whisper_api_def
  by (rule at_most_bnd1 [OF at_most_post_json], intro at_most_local)+


text \<open>Reading a picture or a voice message sends at most one request to a service.\<close>

theorem media_one_request:
  "at_most (\<lambda>rq. True) 1 (image_ingest me hc f) \<and> at_most (\<lambda>rq. True) 1 (audio_ingest me hc f)"
proof
  have tess: "at_most (\<lambda>rq. True) 0 (if b then run_tesseract me f else ret [])" for b
    by (cases b) (auto simp: run_tesseract_def split: prod.split intro!: at_most_local)
  show "at_most (\<lambda>rq. True) 1 (image_ingest me hc f)"
    unfolding image_ingest_def
    by (intro at_most_bnd0 [OF at_most_check] at_most_bnd0 [OF tess] at_most_if at_most_option at_most_pure at_most_services)
  have wh: "at_most (\<lambda>rq. True) 0 (if b then run_whisper_cpp me f else ret [])" for b
    by (cases b) (auto simp: run_whisper_cpp_def split: prod.split intro!: at_most_local)
  have lw: "at_most (\<lambda>rq. True) 1 (local_whisper me f)"
    unfolding local_whisper_def by (intro at_most_local)
  show "at_most (\<lambda>rq. True) 1 (audio_ingest me hc f)"
    unfolding audio_ingest_def
    by (intro at_most_bnd0 [OF at_most_check] at_most_bnd0 [OF wh] at_most_if at_most_option at_most_pure at_most_services lw)
qed

text \<open>A picture that the local tool can read is not sent anywhere, whatever keys are configured.\<close>

theorem read_locally_not_sent:
  assumes "me_which me ''tesseract''"
    and "me_exec me (n_tick s) [asc ''tesseract'', if_path f, asc ''stdout'', asc ''-l'', asc ''eng+chi_sim'', asc ''--psm'', asc ''6''] = Inr (code, out)"
    and "strip (me_decode me out) \<noteq> []"
  shows "n_requests (snd (image_ingest me hc f s)) = n_requests s"
  using assms
  by (simp add: image_ingest_def check_size_def Let_def run_tesseract_def exec_tool_def run_simps)

text \<open>The tool's text is stripped, and kept only when something is left.\<close>

lemma image_text:
  assumes "image_ingest me hc f s = (Inr r, s')"
  shows "\<exists>t. ir_normalized r = image_header (if_name f) @ t \<and> strip t \<noteq> []"
  using assms
  by (auto simp: image_ingest_def check_size_def Let_def run_tesseract_def exec_tool_def run_simps image_result_def
    gemini_image_def openai_image_def post_json_def vision_text_def strip_by_idem
    split: if_splits option.splits sum.splits json.splits prod.splits)

lemma whisper_lines_strip: "strip (whisper_lines t) = whisper_lines t"
  by (simp add: whisper_lines_def strip_by_idem)

lemma stripped_strip: "stripped_str v = Inr t \<Longrightarrow> strip t = t" "stripped_or_empty v = Inr t \<Longrightarrow> strip t = t"
  by (auto simp: stripped_str_def stripped_or_empty_def strip_by_idem split: json.splits if_splits)

lemma service_text:
  assumes "m = local_whisper me f \<or> m = gemini_audio me hc f key \<or> m = whisper_api me hc f key"
    and "m s = (Inr r, s')"
  shows "\<exists>t. ir_normalized r = audio_header (if_name f) @ t \<and> strip t \<noteq> []"
  using assms
  by (auto simp: local_whisper_def gemini_audio_def whisper_api_def post_json_def run_simps reject_if_def audio_result_def
    dest!: stripped_strip split: if_splits sum.splits)

lemma audio_text:
  assumes "audio_ingest me hc f s = (Inr r, s')"
  shows "\<exists>t. ir_normalized r = audio_header (if_name f) @ t \<and> strip t \<noteq> []"
proof -
  let ?tool = "if me_which me ''whisper-cpp'' \<or> me_which me ''whisper.cpp'' then run_whisper_cpp me f else ret []"
  have stripped: "strip t = t" if "?tool v = (Inr t, v')" for t v v'
    using that
    by (auto simp: run_whisper_cpp_def exec_tool_def run_simps whisper_lines_strip split: if_splits sum.splits prod.splits)
  let ?k = "\<lambda>t. if t \<noteq> [] then ret (audio_result ''whisper-cpp'' (asc ''whisper.cpp'') f t)
      else if me_module me ''whisper'' then local_whisper me f
      else (case api_key me ''GEMINI_API_KEY'' of Some key \<Rightarrow> gemini_audio me hc f key
        | None \<Rightarrow> (case api_key me ''OPENAI_API_KEY'' of Some key \<Rightarrow> whisper_api me hc f key
            | None \<Rightarrow> raise_exn (IngestRejected no_whisper_message)))"
  obtain t v0 v where t: "?tool v0 = (Inr t, v)"
    and rest: "t \<noteq> [] \<and> r = audio_result ''whisper-cpp'' (asc ''whisper.cpp'') f t
      \<or> (\<exists>m key. (m = local_whisper me f \<or> m = gemini_audio me hc f key \<or> m = whisper_api me hc f key) \<and> m v = (Inr r, s'))"
  proof -
    obtain t v0 v where t: "?tool v0 = (Inr t, v)" "?k t v = (Inr r, s')"
      using assms unfolding audio_ingest_def by (elim bnd_InrE)
    show ?thesis
      by (rule that [OF t(1)]) (use t(2) in \<open>auto simp: ret_def raise_exn_def split: if_splits option.splits\<close>)
  qed
  from rest show ?thesis
  proof
    assume "t \<noteq> [] \<and> r = audio_result ''whisper-cpp'' (asc ''whisper.cpp'') f t"
    with stripped [OF t] show ?thesis by (auto simp: audio_result_def)
  next
    assume "\<exists>m key. (m = local_whisper me f \<or> m = gemini_audio me hc f key \<or> m = whisper_api me hc f key) \<and> m v = (Inr r, s')"
    then show ?thesis using service_text by blast
  qed
qed

text \<open>What is read from a picture or a voice message is its header line followed by text that is not blank:
  an empty reading is always an error.\<close>

theorem media_text_not_blank:
  assumes "image_ingest me hc f s = (Inr r, s')" and "audio_ingest me hc g v = (Inr q, v')"
  shows "(\<exists>t. ir_normalized r = image_header (if_name f) @ t \<and> strip t \<noteq> [])
    \<and> (\<exists>t. ir_normalized q = audio_header (if_name g) @ t \<and> strip t \<noteq> [])"
  using image_text [OF assms(1)] audio_text [OF assms(2)] by blast

section \<open>Transcripts\<close>

lemma transcribe_one_returns: "\<exists>t. fst (transcribe_one me hc vid s) = Inr t"
proof -
  have caught: "\<exists>t v'. catch m (\<lambda>x. ret None) v = (Inr t, v')" for m and v :: "'a net_scheme"
    by (auto simp: catch_def ret_def split: prod.split sum.split)
  obtain a v1 where a: "transcript_service me hc vid s = (Inr a, v1)"
    unfolding transcript_service_def using caught by blast
  obtain b v2 where b: "transcript_package me vid v1 = (Inr b, v2)"
  proof (cases "me_module me ''youtube_transcript_api''")
    case True
    then show ?thesis using that caught unfolding transcript_package_def by (simp only: not_True_eq_False if_False) blast
  next
    case False
    then show ?thesis using that by (simp add: transcript_package_def ret_def)
  qed
  obtain c v3 where c: "transcript_captions me hc vid v2 = (Inr c, v3)"
    unfolding transcript_captions_def using caught by blast
  show ?thesis
    using c by (auto simp: transcribe_one_def bnd_Inr [where m = "transcript_service me hc vid", OF a]
      bnd_Inr [where m = "transcript_package me vid", OF b] ret_def)
qed

text \<open>Captions as YouTube delivers them, without a name space, never arrive: the loop over them raises
  \<open>NameError\<close>, which the \<open>except\<close> turns into no transcript.\<close>

lemma captions_never_arrive:
  assumes "\<And>bs ns plain. me_captions me bs = Inr (ns, plain) \<Longrightarrow> plain \<noteq> []"
  shows "fst (transcript_captions me hc vid s) = Inr None"
  using assms
  by (auto simp: transcript_captions_def catch_def run_simps caption_texts_def ret_def split: sum.splits option.splits prod.splits)

section \<open>A concrete machine\<close>

text \<open>tesseract is installed, no transcription tool is, and there is a Gemini key.\<close>

definition demo_media :: media_env where
  "demo_media = \<lparr>me_which = (\<lambda>b. b = ''tesseract''), me_environ = [''GEMINI_API_KEY'' \<mapsto> asc ''k''],
     me_exec = (\<lambda>n args. Inr (0, asc ''Q3 plan'')), me_module = (\<lambda>m. False), me_whisper = (\<lambda>n p. Inl RuntimeError),
     me_pdfminer = (\<lambda>n p. Inl RuntimeError), me_transcript = (\<lambda>n v. Inr []), me_readability = (\<lambda>h. Inl RuntimeError),
     me_markdownify = (\<lambda>h. h), me_soup = (\<lambda>h. Inl RuntimeError), me_captions = (\<lambda>b. Inl RuntimeError),
     me_loads = (\<lambda>t. None), me_decode = (\<lambda>bs. bs), me_page_text = hr_content, me_b64 = (\<lambda>bs. bs),
     me_exists = (\<lambda>p. False), me_home = asc ''/home''\<rparr>"

definition demo_gemini :: http_env where
  "demo_gemini = demo_http (\<lambda>n rq. Inr (ok_response (JObj [(asc ''candidates'', JArr [JObj [(asc ''content'', JObj
     [(asc ''parts'', JArr [JObj [(asc ''text'', JStr (asc ''hello''))]])])]])])))"

definition demo_file :: input_file where
  "demo_file = \<lparr>if_path = asc ''/in/a.png'', if_name = asc ''a.png'', if_bytes = [1, 2]\<rparr>"

definition demo_start :: net where
  "demo_start = \<lparr>n_tick = 0, n_requests = [], n_slept = []\<rparr>"

theorem read_locally_not_sent_witness:
  "n_requests (snd (image_ingest demo_media demo_gemini demo_file demo_start)) = n_requests demo_start"
  by (rule read_locally_not_sent [where code = 0 and out = "asc ''Q3 plan''"]) code_simp+

theorem media_text_not_blank_witness:
  "\<exists>r q. fst (image_ingest demo_media demo_gemini demo_file demo_start) = Inr r
     \<and> fst (audio_ingest demo_media demo_gemini demo_file demo_start) = Inr q
     \<and> (\<exists>t. ir_normalized r = image_header (if_name demo_file) @ t \<and> strip t \<noteq> [])
     \<and> (\<exists>t. ir_normalized q = audio_header (if_name demo_file) @ t \<and> strip t \<noteq> [])"
proof -
  have "\<not> isl (fst (image_ingest demo_media demo_gemini demo_file demo_start))"
    "\<not> isl (fst (audio_ingest demo_media demo_gemini demo_file demo_start))" by code_simp+
  then obtain r s' q v' where "image_ingest demo_media demo_gemini demo_file demo_start = (Inr r, s')"
    "audio_ingest demo_media demo_gemini demo_file demo_start = (Inr q, v')"
    by (metis isl_def sum.exhaust prod.collapse)
  with media_text_not_blank [OF this] show ?thesis by auto
qed

end
