(* ===== verification/Format.thy ===== *)
theory Format imports World begin

text \<open>
  pipeline/\_format.py: the texts and the rich-text payload of the messages about a finding, and the
  split of the LLM's text into issue and suggestion.
\<close>

section \<open>Issue and suggestion\<close>

text \<open>\<open>label\s*[:\<close> or the full-width colon \<open>]\s*(.+)\<close> at the start of a text; the group is stripped as its
  users do. When only white space follows, the group is a blank part of it, unless that is all line feeds.\<close>

definition match_label :: "ustr \<Rightarrow> ustr \<Rightarrow> ustr option" where
  "match_label lab s =
     (if \<not> startswith s lab then None
      else
        (case dropWhile is_space (drop (length lab) s) of
           [] \<Rightarrow> None
         | c # r \<Rightarrow>
             if c \<noteq> 58 \<and> c \<noteq> 65306 then None
             else if dropWhile is_space r \<noteq> [] then Some (strip (takeWhile (\<lambda>x. x \<noteq> 10) (dropWhile is_space r)))
             else if list_ex (\<lambda>x. x \<noteq> 10) r then Some [] else None))"

fun search_label :: "ustr \<Rightarrow> ustr \<Rightarrow> ustr option" where
  "search_label lab [] = match_label lab []"
| "search_label lab (c # s) =
     (case match_label lab (c # s) of Some g \<Rightarrow> Some g | None \<Rightarrow> search_label lab s)"

definition issue_label :: ustr where
  "issue_label = [38382, 39064]"

definition suggest_label :: ustr where
  "suggest_label = [24314, 35758]"

definition split_body :: "ustr \<Rightarrow> ustr \<times> ustr" where
  "split_body body =
     (let issue = (case search_label issue_label body of None \<Rightarrow> [] | Some g \<Rightarrow> g);
          suggest = (case search_label suggest_label body of None \<Rightarrow> strip body | Some g \<Rightarrow> g);
          (issue, suggest) =
            (if issue = [] \<and> 10 \<in> set body
             then (strip (takeWhile (\<lambda>x. x \<noteq> 10) body), strip (tl (dropWhile (\<lambda>x. x \<noteq> 10) body)))
             else (issue, suggest))
      in if issue = [] then (strip body, []) else (issue, suggest))"

section \<open>Payloads\<close>

definition severity_label :: "ustr \<Rightarrow> ustr \<times> ustr" where
  "severity_label sev =
     (if sev = asc ''BLOCKER'' then ([128308], [24517, 39035, 20462, 19968, 19979])
      else if sev = asc ''IMPROVEMENT'' then ([128993], [24314, 35758, 25913, 19968, 19979])
      else if sev = asc ''NICE-TO-HAVE'' then ([9898], [21487, 36873] @ asc '' '' @ [183] @ asc '' '' @ [25913, 19981, 25913, 37117, 34892])
      else ([8226], sev))"

definition option_line :: ustr where
  "option_line = [22238, 22797, 65306] @ asc ''a '' @ [25913] @ asc '' '' @ [183] @ asc '' b '' @ [19981, 21516, 24847] @ asc '' '' @ [183] @ asc '' c '' @ [25105, 26377, 33258, 24049, 30340, 29256, 26412] @ asc '' '' @ [183] @ asc '' pass '' @ [36339] @ asc '' '' @ [183] @ asc '' done '' @ [22815, 20102]"

definition rule_line :: ustr where
  "rule_line = [9472, 9472, 9472, 9472, 9472, 9472, 9472, 9472, 9472, 9472, 9472, 9472, 9472]"

definition text_node :: "ustr \<Rightarrow> string list \<Rightarrow> json" where
  "text_node t style = JObj ([(asc ''tag'', JStr (asc ''text'')), (asc ''text'', JStr t)]
     @ (if style = [] then [] else [(asc ''style'', JArr (map (\<lambda>s. JStr (asc s)) style))]))"

text \<open>Id, pillar, source, round and the counters are parameters of the code too, and not shown.\<close>

definition build_finding_post ::
  "ustr \<Rightarrow> ustr \<Rightarrow> ustr \<Rightarrow> ustr \<Rightarrow> ustr \<Rightarrow> int \<Rightarrow> int \<Rightarrow> nat \<Rightarrow> nat \<Rightarrow> json list list" where
  "build_finding_post fid pill sev src body round max_rounds remaining later =
     (let (em, label) = severity_label sev; (issue, suggest) = split_body body in
      [[text_node (em @ asc ''  '') [], text_node label [''bold'']]]
      @ (if issue \<noteq> [] then [[text_node [] []], [text_node ([38382, 39064] @ asc ''  '') [''bold''], text_node issue []]] else [])
      @ (if suggest \<noteq> [] then [[text_node ([24314, 35758] @ asc ''  '') [''bold''], text_node suggest [''italic'']]] else [])
      @ [[text_node [] []], [text_node rule_line []], [text_node option_line []]])"

definition build_text_fallback ::
  "ustr \<Rightarrow> ustr \<Rightarrow> ustr \<Rightarrow> ustr \<Rightarrow> ustr \<Rightarrow> int \<Rightarrow> int \<Rightarrow> nat \<Rightarrow> nat \<Rightarrow> ustr" where
  "build_text_fallback fid pill sev src body round max_rounds remaining later =
     (let (em, label) = severity_label sev; (issue, suggest) = split_body body in
      join [10] ([em @ asc ''  '' @ label, []]
        @ (if issue \<noteq> [] then [[38382, 39064] @ asc ''  '' @ issue] else [])
        @ (if suggest \<noteq> [] then [[24314, 35758] @ asc ''  '' @ suggest] else [])
        @ [[], rule_line, option_line]))"

definition admin_notify_message :: "ustr \<Rightarrow> ustr \<Rightarrow> ustr" where
  "admin_notify_message name oid =
     [128236] @ asc '' '' @ [26032] @ asc '' Requester '' @ [33258, 21160, 27880, 20876, 65306] @ name @ asc '' ('' @ [96] @ oid @ [96] @ asc '')'' @ [10, 22914, 19981, 24076, 26395, 27492, 20154, 21457, 36215] @ asc '' review'' @ [65292] @ asc ''VPS '' @ [19978, 36305, 65306, 10, 96] @ asc ''review-agent remove-user '' @ oid @ [96] @ asc '' '' @ [25110, 22312] @ asc '' secrets.env '' @ [35774] @ asc '' '' @ [96] @ asc ''REVIEW_AGENT_AUTO_REGISTER=false'' @ [96]"

definition welcome_message :: "ustr \<Rightarrow> ustr \<Rightarrow> ustr" where
  "welcome_message requester responder =
     [20320, 22909] @ asc '' '' @ requester @ asc '' '' @ [128075, 10, 25105, 26159] @ asc '' '' @ responder @ asc '' '' @ [30340, 20250, 21069] @ asc '' review '' @ [21161, 25163] @ asc '' '' @ [8212, 8212] @ asc '' '' @ [24110, 20320, 25226, 35201, 32473] @ asc '' '' @ responder
     @ asc '' '' @ [30475, 30340, 19996, 35199, 20808, 36807, 19968, 36941, 65292, 25226] @ asc '' ta '' @ [19968, 23450, 20250, 38382, 30340, 38382, 39064, 20808, 35299, 20915, 25481, 65292, 30465, 21452, 26041, 26469, 22238, 25289, 25199, 30340, 26102, 38388, 12290, 10, 10, 128229] @ asc '' '' @ [25105, 33021, 35835, 30340, 26684, 24335, 65306, 10] @ asc ''  '' @ [183] @ asc '' '' @ [25991, 23383, 33609, 31295, 65288, 30452, 25509, 25171, 23383] @ asc '' / '' @ [31896, 36148, 65289, 10] @ asc ''  '' @ [183] @ asc '' PDF '' @ [25991, 20214, 10] @ asc ''  '' @ [183] @ asc '' '' @ [22270, 29255, 65288, 25130, 22270] @ asc '' / '' @ [30333, 26495] @ asc '' / '' @ [24187, 28783, 29255] @ asc '' '' @ [8212] @ asc '' '' @ [25105, 20250] @ asc '' OCR '' @ [25552, 21462, 25991, 23383, 65289, 10] @ asc ''  '' @ [183] @ asc '' '' @ [35821, 38899, 28040, 24687, 65288, 25105, 20250, 36716, 25991, 23383, 65289, 10] @ asc ''  '' @ [183] @ asc '' '' @ [39134, 20070, 25991, 26723] @ asc '' / Wiki '' @ [38142, 25509, 65288, 25105, 20250, 33258, 21160, 35835, 20840, 25991, 65292] @ asc ''**'' @ [35760, 24471, 25226] @ asc '' bot '' @ [21152, 21040, 21327, 20316, 32773] @ asc ''**'' @ [65289, 10] @ asc ''  '' @ [183] @ asc '' '' @ [26222, 36890, 32593, 39029, 38142, 25509, 65288, 25105, 20250, 25235, 27491, 25991, 65289, 10, 10, 128203] @ asc '' '' @ [27969, 31243, 65306, 10] @ asc ''  '' @ [9312] @ asc '' '' @ [20320, 21457, 26448, 26009, 32473, 25105, 10] @ asc ''  '' @ [9313] @ asc '' '' @ [25105, 29992] @ asc '' '' @ responder
     @ asc '' '' @ [30340, 30524, 20809, 25361, 21050, 65288] @ asc ''4 '' @ [26609, 65306, 32972, 26223] @ asc '' / '' @ [25968, 25454] @ asc '' / '' @ [26694, 26550] @ asc '' / '' @ [24847, 22270, 65289, 10] @ asc ''  '' @ [9314] @ asc '' '' @ [25105, 19968, 26465, 26465, 38382, 20320, 65288, 36890, 24120] @ asc '' 5-8 '' @ [26465, 65289, 65292, 20320] @ asc '' a/b/c '' @ [22238, 10] @ asc ''  '' @ [9315] @ asc '' '' @ [36208, 23436, 21518, 25972, 29702, 25104] @ asc '' 6 '' @ [33410] @ asc '' brief '' @ [21516, 26102, 21457, 32473, 20320, 21644] @ asc '' '' @ responder
     @ [10, 10, 9000, 65039] @ asc '' '' @ [24590, 20040, 22238, 25105, 30340, 38382, 39064, 65288, 27599, 26465] @ asc '' finding '' @ [21518, 20250, 21015, 65289, 65306, 10] @ asc ''  '' @ [183] @ asc '' '' @ [96] @ asc ''a'' @ [96] @ asc '' '' @ [8212, 8212] @ asc '' '' @ [25509, 21463, 24314, 35758, 65292, 20250, 25913, 10] @ asc ''  '' @ [183] @ asc '' '' @ [96] @ asc ''b '' @ [29702, 30001, 8230, 96] @ asc '' '' @ [8212, 8212] @ asc '' '' @ [19981, 21516, 24847, 65288, 24102, 21407, 22240, 65292, 36827] @ asc '' dissent log '' @ [32473] @ asc '' '' @ responder
     @ asc '' '' @ [30475, 65289, 10] @ asc ''  '' @ [183] @ asc '' '' @ [96] @ asc ''c '' @ [25105, 30340, 29256, 26412, 8230, 96] @ asc '' '' @ [8212, 8212] @ asc '' '' @ [25105, 26377, 33258, 24049, 30340, 25913, 27861, 10] @ asc ''  '' @ [183] @ asc '' '' @ [96] @ asc ''pass'' @ [96] @ asc '' '' @ [8212, 8212] @ asc '' '' @ [36339, 36807, 20808, 30475, 19979, 19968, 26465, 10] @ asc ''  '' @ [183] @ asc '' '' @ [96] @ asc ''more'' @ [96] @ asc '' '' @ [8212, 8212] @ asc '' '' @ [20877, 22810, 30475, 20960, 26465, 38750] @ asc '' BLOCKER '' @ [24314, 35758, 10] @ asc ''  '' @ [183] @ asc '' '' @ [96] @ asc ''done'' @ [96] @ asc '' '' @ [8212, 8212] @ asc '' '' @ [25105, 35273, 24471, 22815, 20102, 65292, 24320, 22987, 25972, 29702] @ asc '' brief'' @ [10, 10, 128161] @ asc '' '' @ [31532, 19968, 21477] @ asc ''**'' @ [30452, 25509, 21457, 35201] @ asc '' review '' @ [30340, 26448, 26009] @ asc ''**'' @ [23601, 34892, 65288, 19981, 29992, 20808, 25171, 25307, 21628, 65289, 65292, 25105, 31435, 21051, 24320, 22987] @ asc '' '' @ [128071]"

section \<open>Properties\<close>

lemma search_skip: "\<not> startswith (c # s) lab \<Longrightarrow> search_label lab (c # s) = search_label lab s"
  by (simp add: match_label_def)

lemma search_match: "match_label lab (c # s) = Some g \<Longrightarrow> search_label lab (c # s) = Some g"
  by simp

lemma match_line:
  assumes "strip x = x" and "x \<noteq> []" and "10 \<notin> set x" and "r = [] \<or> hd r = 10"
  shows "match_label lab (lab @ asc '': '' @ x @ r) = Some x"
proof -
  have h: "\<not> is_space (hd x)" by (rule strip_by_ends(1) [OF assms(1,2)])
  then have "dropWhile is_space (x @ r) = x @ r" using assms(2) by (cases x) auto
  moreover have "takeWhile (\<lambda>c. c \<noteq> 10) (x @ r) = x"
    using assms(3,4) by (cases r) (auto simp: takeWhile_append)
  moreover have "is_space 32" "\<not> is_space 58" "\<not> Ball (set x \<union> set r) is_space"
    using assms(2) h by (auto simp: is_space_def)
  ultimately show ?thesis
    using assms(1) by (simp add: match_label_def)
qed

lemma search_line:
  assumes "strip x = x" and "x \<noteq> []" and "10 \<notin> set x" and "r = [] \<or> hd r = 10" and "lab \<noteq> []"
  shows "search_label lab (lab @ asc '': '' @ x @ r) = Some x"
  using match_line [OF assms(1-4), of lab] assms(5) by (cases lab) (auto simp del: asc_Cons)

lemma no_label_start: "c \<noteq> 24314 \<Longrightarrow> startswith (c # s) suggest_label = False"
  by (simp add: suggest_label_def startswith_def)

text \<open>No label starts inside a line that does not contain it.\<close>

lemma search_skip_line:
  assumes "\<not> contains suggest_label x"
  shows "search_label suggest_label (x @ 10 # s) = search_label suggest_label s"
  using assms
proof (induction x)
  case Nil
  have "\<not> startswith (10 # s) suggest_label" by (simp add: suggest_label_def startswith_def)
  then show ?case unfolding append_Nil by (rule search_skip)
next
  case (Cons c x)
  have rest: "\<not> contains suggest_label x"
    using Cons.prems contains_right [of suggest_label x "[c]"] by auto
  have "\<not> startswith (c # x @ 10 # s) suggest_label"
  proof
    assume st: "startswith (c # x @ 10 # s) suggest_label"
    then obtain y where "x = 35758 # y" "c = 24314"
      by (cases x) (auto simp: startswith_def suggest_label_def numeral_2_eq_2)
    then have "c # x = [] @ suggest_label @ y" by (simp add: suggest_label_def)
    then show False using Cons.prems unfolding contains_iff by metis
  qed
  with Cons.IH [OF rest] show ?case by (simp only: append_Cons search_skip not_False_eq_True)
qed

text \<open>The text the LLM is asked for, an issue line and a suggestion line, is split into exactly these two.\<close>

theorem split_body_roundtrip:
  assumes "strip issue = issue" "issue \<noteq> []" "10 \<notin> set issue" and "strip suggest = suggest" "suggest \<noteq> []" "10 \<notin> set suggest"
    and "\<not> contains suggest_label issue"
  shows "split_body (issue_label @ asc '': '' @ issue @ [10] @ suggest_label @ asc '': '' @ suggest) = (issue, suggest)"
proof -
  have search_skip3: "search_label suggest_label (a # b # c # d # s) = search_label suggest_label s"
    if "a \<noteq> 24314" "b \<noteq> 24314" "c \<noteq> 24314" "d \<noteq> 24314" for a b c d s
    using that by (simp only: search_skip no_label_start not_False_eq_True)
  let ?rest = "[10] @ suggest_label @ asc '': '' @ suggest"
  let ?body = "issue_label @ asc '': '' @ issue @ ?rest"
  have 1: "search_label issue_label ?body = Some issue"
    by (rule search_line) (use assms in \<open>simp_all add: issue_label_def\<close>)
  have "search_label suggest_label ?body = search_label suggest_label (issue @ 10 # suggest_label @ asc '': '' @ suggest)"
    using search_skip3 [of 38382 39064 58 32] by (simp add: issue_label_def)
  also have "\<dots> = search_label suggest_label (suggest_label @ asc '': '' @ suggest @ [])"
    using search_skip_line [OF assms(7)] by simp
  also have "\<dots> = Some suggest"
    by (rule search_line) (use assms in \<open>simp_all add: suggest_label_def\<close>)
  finally show ?thesis using 1 assms(2) by (simp add: split_body_def)
qed

theorem split_body_roundtrip_witness:
  "split_body (issue_label @ asc '': '' @ asc ''no source'' @ [10] @ suggest_label @ asc '': '' @ asc ''add one'') = (asc ''no source'', asc ''add one'')"
  by (rule split_body_roundtrip) code_simp+

text \<open>Whatever the LLM wrote, a text that is not blank keeps an issue to ask about.\<close>

lemma split_body_issue: "strip body \<noteq> [] \<Longrightarrow> fst (split_body body) \<noteq> []"
  by (auto simp: split_body_def Let_def split: option.splits)

text \<open>With an empty issue the white space after the colon runs over the line break: the suggestion is
  shown as the issue, label included.\<close>

lemma empty_issue_shows_suggestion:
  "split_body (issue_label @ asc '':'' @ [10] @ suggest_label @ asc '': add one'')
     = (suggest_label @ asc '': add one'', asc ''add one'')"
  by code_simp

end
