(* ===== verification/Cli.thy ===== *)
theory Cli imports Dispatcher Config begin

text \<open>
  cli.py: the commands of the command line on the database, the files below the data directory and
  the env file, with what they print and their exit code. Argument parsing, the tools looked up
  with \<open>which\<close> and the installer script are outside. The SQLite handle always works.
\<close>

record cli_env =
  ce_db :: env
  ce_config :: config_env
  ce_os :: os_env
  ce_which :: "string \<Rightarrow> bool"
  ce_call :: "ustr list \<Rightarrow> int"
  ce_here :: ustr

text \<open>\<open>cs_files\<close> maps a path to its text; the files of \<open>ce_os\<close> are not used.\<close>

record cli_state =
  cs_world :: world
  cs_files :: "ustr \<Rightarrow> ustr option"
  cs_out :: "ustr list"

type_synonym 'a cli_act = "(cli_state, 'a) prog"

datatype command =
    Setup ustr ustr "ustr option" ustr
  | AddUser ustr role "ustr option" ustr
  | RemoveUser ustr
  | ListUsers "role option"
  | ListSessions "session_status option"
  | Doctor
  | Migrate
  | SetModel ustr bool
  | ShowConfig
  | InstallMultimodal bool bool
  | SendOnboarding ustr bool

section \<open>Effects\<close>

definition on_db :: "'a act \<Rightarrow> 'a cli_act" where
  "on_db m = (\<lambda>s. case m (cs_world s) of (r, w) \<Rightarrow> (r, s\<lparr>cs_world := w\<rparr>))"

definition say :: "ustr \<Rightarrow> unit cli_act" where
  "say l = modify (\<lambda>s. s\<lparr>cs_out := cs_out s @ [l]\<rparr>)"

definition write_file :: "ustr \<Rightarrow> ustr \<Rightarrow> unit cli_act" where
  "write_file p t = modify (\<lambda>s. s\<lparr>cs_files := (cs_files s)(p \<mapsto> t)\<rparr>)"

fun each :: "('a \<Rightarrow> unit cli_act) \<Rightarrow> 'a list \<Rightarrow> unit cli_act" where
  "each f [] = ret ()"
| "each f (x # xs) = andthen (f x) (each f xs)"

text \<open>The process environment over the current files.\<close>

definition os_now :: "cli_env \<Rightarrow> cli_state \<Rightarrow> os_env" where
  "os_now ce s = (ce_os ce)\<lparr>os_files := cs_files s\<rparr>"

definition cfg_value :: "config \<Rightarrow> string \<Rightarrow> string \<Rightarrow> json" where
  "cfg_value cfg sect k = (case cfg_get cfg sect k of None \<Rightarrow> JNull | Some v \<Rightarrow> v)"

section \<open>Users\<close>

definition cli_user :: "ustr \<Rightarrow> ustr \<Rightarrow> role list \<Rightarrow> ustr option \<Rightarrow> user" where
  "cli_user oid name rs pairing =
     \<lparr>open_id = oid, display_name = name, roles = rs, pairing_responder_oid = pairing,
      u_created_at = [], u_updated_at = []\<rparr>"

definition default_profile :: ustr where
  "default_profile = (asc ''# Responder profile'' @ [10, 10, 25105, 23457, 26448, 26009, 26102, 26368, 22312, 24847, 65306, 10] @ asc ''- '' @ [25968, 25454, 26469, 28304] @ asc '' + '' @ [26085, 26399, 10] @ asc ''- Plan B'' @ [10] @ asc ''- '' @ [24378, 21453, 26041, 35266, 28857, 10, 10, 35752, 21388, 65306, 21547, 31946] @ asc '' ask / '' @ [25226, 20915, 31574, 25512, 22238, 25105] @ asc '' / '' @ [31354, 35805, 12290, 10])"

definition user_profile_path :: "ustr \<Rightarrow> ustr \<Rightarrow> ustr" where
  "user_profile_path fs oid = fs @ asc ''/users/'' @ oid @ asc ''/profile.md''"

definition setup_responder :: "cli_env \<Rightarrow> ustr \<Rightarrow> ustr \<Rightarrow> ustr option \<Rightarrow> ustr \<Rightarrow> unit cli_act" where
  "setup_responder ce fs admin_oid resp name =
     (case resp of
        None \<Rightarrow> ret ()
      | Some r \<Rightarrow>
          if r = [] \<or> r = admin_oid then ret ()
          else
            andthen (on_db (upsert_user (ce_db ce) (cli_user r name [RESPONDER] None)))
              (write_file (user_profile_path fs r) default_profile))"

definition cli_setup :: "cli_env \<Rightarrow> config \<Rightarrow> ustr \<Rightarrow> ustr \<Rightarrow> ustr option \<Rightarrow> ustr \<Rightarrow> int cli_act" where
  "cli_setup ce cfg admin_oid admin_name resp resp_name =
     andthen (on_db (upsert_user (ce_db ce) (cli_user admin_oid admin_name [ADMIN, RESPONDER] None)))
     (bnd (lift_sum (str_or_outside (cfg_value cfg ''paths'' ''fs''))) (\<lambda>fs.
      bnd (gets (\<lambda>s. cs_files s (user_profile_path fs admin_oid))) (\<lambda>prof.
      andthen (if prof = None then write_file (user_profile_path fs admin_oid) default_profile else ret ())
      (andthen (setup_responder ce fs admin_oid resp resp_name)
      (andthen (say (asc ''setup ok: admin='' @ admin_oid)) (ret 0))))))"

definition add_user :: "cli_env \<Rightarrow> ustr \<Rightarrow> role \<Rightarrow> ustr option \<Rightarrow> ustr \<Rightarrow> int cli_act" where
  "add_user ce oid r resp name =
     andthen (on_db (upsert_user (ce_db ce) (cli_user oid name [r] (if r = REQUESTER then resp else None))))
     (andthen (say (asc ''added '' @ oid @ asc '' as '' @ asc (role_value r))) (ret 0))"

definition remove_user :: "cli_env \<Rightarrow> ustr \<Rightarrow> int cli_act" where
  "remove_user ce oid =
     bnd (on_db (delete_user oid)) (\<lambda>ok.
     andthen (say ((if ok then asc ''removed '' else asc ''no such user: '') @ oid)) (ret (if ok then 0 else 1)))"

definition user_line :: "user \<Rightarrow> ustr" where
  "user_line u = open_id u @ [9] @ join (asc '','') (map (\<lambda>r. asc (role_value r)) (roles u)) @ [9] @ display_name u"

definition cli_list_users :: "cli_env \<Rightarrow> role option \<Rightarrow> int cli_act" where
  "cli_list_users ce r =
     bnd (on_db (list_users (ce_db ce) r)) (\<lambda>us. andthen (each (\<lambda>u. say (user_line u)) us) (ret 0))"

definition session_line :: "session \<Rightarrow> ustr" where
  "session_line s =
     s_id s @ [9] @ asc (stage_value (s_stage s)) @ [9] @ requester_oid s @ [9]
       @ (case subject s of None \<Rightarrow> asc ''-'' | Some t \<Rightarrow> if t = [] then asc ''-'' else t)"

definition cli_list_sessions :: "cli_env \<Rightarrow> session_status option \<Rightarrow> int cli_act" where
  "cli_list_sessions ce st =
     bnd (on_db (list_sessions (ce_db ce) None None st)) (\<lambda>ss. andthen (each (\<lambda>s. say (session_line s)) ss) (ret 0))"

section \<open>Checks and settings\<close>

text \<open>\<open>str\<close> of a list of plain names.\<close>

definition names_repr :: "string list \<Rightarrow> ustr" where
  "names_repr ks = asc ''['' @ join (asc '', '') (map (\<lambda>k. [39] @ asc k @ [39]) ks) @ asc '']''"

definition required_keys :: "string list" where
  "required_keys = [''DEEPSEEK_API_KEY'', ''LARK_APP_ID'', ''LARK_APP_SECRET'', ''LARK_ENCRYPT_KEY'', ''LARK_VERIFICATION_TOKEN'']"

definition provider_key_map :: "(string \<times> string) list" where
  "provider_key_map = [(''deepseek'', ''DEEPSEEK_API_KEY''), (''openai'', ''OPENAI_API_KEY''), (''anthropic'', ''ANTHROPIC_API_KEY'')]"

definition has_secret :: "(ustr \<times> ustr) list \<Rightarrow> string \<Rightarrow> bool" where
  "has_secret sec k \<longleftrightarrow> asc k \<in> set (map fst sec)"

text \<open>The line on the provider, and the keys it adds to the missing ones.\<close>

definition provider_check :: "(ustr \<times> ustr) list \<Rightarrow> ustr \<Rightarrow> ustr \<times> string list" where
  "provider_check sec provider =
     (case find (\<lambda>kv. asc (fst kv) = provider) provider_key_map of
        None \<Rightarrow> (asc ''llm provider='' @ provider @ (asc '' (unknown '' @ [8212] @ asc '' only deepseek implemented in v0)''), [])
      | Some (p, k) \<Rightarrow>
          if has_secret sec k then (asc ''llm provider='' @ provider @ asc '' key='' @ asc k @ (asc '' '' @ [10003]), [])
          else (asc ''llm provider='' @ provider @ asc '' but '' @ asc k @ (asc '' missing '' @ [10007]), [k]))"

definition dots :: ustr where
  "dots = (asc '' '' @ [183] @ asc '' '')"

definition doctor :: "cli_env \<Rightarrow> config \<Rightarrow> int cli_act" where
  "doctor ce cfg =
     bnd (gets (\<lambda>s. load_secrets (os_now ce s))) (\<lambda>loaded.
     bnd (lift_sum loaded) (\<lambda>sec.
     let miss = filter (\<lambda>k. \<not> has_secret sec k) required_keys in
     andthen (say (asc ''required ok: '' @ names_repr (filter (has_secret sec) required_keys)))
     (andthen (say (asc ''required missing: '' @ names_repr miss))
     (andthen (say (asc ''multimodal fallback: '' @ join dots
        (map (\<lambda>k. asc k @ (if has_secret sec k then asc ''=set'' else asc ''=not set'')) [''GEMINI_API_KEY'', ''OPENAI_API_KEY''])))
     (andthen (say (asc ''multimodal local bins: '' @ join dots
        (map (\<lambda>b. asc b @ (if ce_which ce b then (asc ''='' @ [10003]) else asc ''=missing'')) [''tesseract'', ''whisper-cpp''])))
     (bnd (case cfg_value cfg ''llm'' ''provider'' of JStr p \<Rightarrow> ret (lower p) | _ \<Rightarrow> raise_exn AttributeError) (\<lambda>provider.
      case provider_check sec provider of (line, extra) \<Rightarrow>
      andthen (say line)
      (andthen (say (asc ''llm default_model='' @ fmt (ce_db ce) (cfg_value cfg ''llm'' ''default_model'')))
      (andthen (say (asc ''llm fast_model='' @ fmt (ce_db ce) (cfg_value cfg ''llm'' ''fast_model'')))
      (andthen (say (asc ''db: ok''))
      (ret (if miss @ extra = [] then 0 else 1))))))))))))"

definition config_lines :: "cli_env \<Rightarrow> config \<Rightarrow> ustr \<Rightarrow> ustr list" where
  "config_lines ce cfg secrets_path =
     (let v = (\<lambda>sect k. fmt (ce_db ce) (cfg_value cfg sect k)) in
      [asc ''config_file: review_agent.config'', asc ''secrets_file: '' @ secrets_path,
       asc ''db: '' @ v ''paths'' ''db'', asc ''fs: '' @ v ''paths'' ''fs'', asc ''log: '' @ v ''paths'' ''log'',
       asc ''server: '' @ v ''server'' ''bind'' @ asc '':'' @ v ''server'' ''port'',
       asc ''llm.provider: '' @ v ''llm'' ''provider'', asc ''llm.default_model: '' @ v ''llm'' ''default_model'',
       asc ''llm.fast_model: '' @ v ''llm'' ''fast_model'', asc ''llm.base_url: '' @ v ''llm'' ''base_url'',
       asc ''review.max_rounds: '' @ v ''review'' ''max_rounds'',
       asc ''review.top_n_findings: '' @ v ''review'' ''top_n_findings''])"

definition show_config :: "cli_env \<Rightarrow> config \<Rightarrow> int cli_act" where
  "show_config ce cfg =
     bnd (gets (\<lambda>s. secrets_file_path (os_now ce s))) (\<lambda>p. andthen (each say (config_lines ce cfg p)) (ret 0))"

definition model_key :: "bool \<Rightarrow> ustr" where
  "model_key fast = (if fast then asc ''REVIEW_AGENT_FAST_MODEL'' else asc ''REVIEW_AGENT_MODEL'')"

definition set_model :: "cli_env \<Rightarrow> ustr \<Rightarrow> bool \<Rightarrow> int cli_act" where
  "set_model ce m fast =
     bnd (gets (\<lambda>s. secrets_file_path (os_now ce s))) (\<lambda>p.
     bnd (gets (\<lambda>s. cs_files s p)) (\<lambda>old.
     andthen (write_file p (upsert_env_value (model_key fast) m old))
     (andthen (each say
        [asc ''[ok] '' @ model_key fast @ asc ''='' @ m @ asc '' written to '' @ p,
         asc ''[next] restart service so the change takes effect:'',
         asc ''       systemctl --user restart review-agent'',
         asc ''       (or: sudo systemctl restart review-agent)''])
     (ret 0))))"

text \<open>The installer script: the first one that exists.\<close>

definition installer_scripts :: "cli_env \<Rightarrow> ustr list" where
  "installer_scripts ce =
     [ce_here ce @ asc ''/deploy/install-multimodal.sh'', asc ''/opt/review-agent/deploy/install-multimodal.sh'',
      os_home (ce_os ce) @ asc ''/code/review-agent/deploy/install-multimodal.sh'']"

definition install_multimodal :: "cli_env \<Rightarrow> bool \<Rightarrow> bool \<Rightarrow> int cli_act" where
  "install_multimodal ce tess dry =
     bnd (gets (\<lambda>s. find (\<lambda>p. cs_files s p \<noteq> None) (installer_scripts ce))) (\<lambda>script.
     case script of
       None \<Rightarrow>
         andthen (say (join ([10] @ asc ''  '')
           (asc ''error: install-multimodal.sh not found in any of:'' # installer_scripts ce))) (ret 2)
     | Some p \<Rightarrow>
         (let cmd = [asc ''bash'', p] @ (if tess then [asc ''--tesseract-only''] else []) @ (if dry then [asc ''--dry-run''] else []) in
          andthen (say (asc ''running: '' @ join (asc '' '') cmd)) (ret (ce_call ce cmd))))"

section \<open>Onboarding messages\<close>

definition onboard :: "cli_env \<Rightarrow> ustr \<Rightarrow> user list \<Rightarrow> user \<Rightarrow> unit cli_act" where
  "onboard ce admin_name responders t =
     bnd (case pairing_responder_oid t of
            None \<Rightarrow> ret None
          | Some p \<Rightarrow> if p = [] then ret None else on_db (get_user p)) (\<lambda>resp.
     let name = (case resp of Some r \<Rightarrow> display_name r
                 | None \<Rightarrow> (case responders of r # _ \<Rightarrow> display_name r | [] \<Rightarrow> admin_name)) in
     catch
       (andthen (on_db (send_dm_text (ce_db ce) (open_id t) (DmWelcome (display_name t) name)))
          (say (asc ''[ok] sent onboarding to '' @ display_name t @ asc '' ('' @ open_id t @ asc '')'')))
       (\<lambda>x. say (asc ''[fail] '' @ open_id t @ asc '': '' @ exn_text (ce_db ce) x)))"

definition send_onboarding :: "cli_env \<Rightarrow> ustr \<Rightarrow> bool \<Rightarrow> int cli_act" where
  "send_onboarding ce oid to_all =
     bnd (if to_all then bnd (on_db (list_users (ce_db ce) (Some REQUESTER))) (\<lambda>us. ret (Some us))
          else bnd (on_db (get_user oid)) (\<lambda>u. ret (case u of None \<Rightarrow> None | Some x \<Rightarrow> Some [x]))) (\<lambda>targets.
     case targets of
       None \<Rightarrow> andthen (say (asc ''error: user '' @ oid @ asc '' not in db'')) (ret 2)
     | Some ts \<Rightarrow>
         bnd (on_db (list_users (ce_db ce) (Some ADMIN))) (\<lambda>admins.
         bnd (on_db (list_users (ce_db ce) (Some RESPONDER))) (\<lambda>responders.
         let admin_name = (case admins of a # _ \<Rightarrow> display_name a | [] \<Rightarrow> asc ''Admin'') in
         andthen (each (onboard ce admin_name responders) ts) (ret 0))))"

section \<open>The program\<close>

fun run_command :: "cli_env \<Rightarrow> config \<Rightarrow> command \<Rightarrow> int cli_act" where
  "run_command ce cfg (Setup a an r rn) = cli_setup ce cfg a an r rn"
| "run_command ce cfg (AddUser oid r resp n) = add_user ce oid r resp n"
| "run_command ce cfg (RemoveUser oid) = remove_user ce oid"
| "run_command ce cfg (ListUsers r) = cli_list_users ce r"
| "run_command ce cfg (ListSessions st) = cli_list_sessions ce st"
| "run_command ce cfg Doctor = doctor ce cfg"
| "run_command ce cfg Migrate = andthen (say (asc ''schema applied'')) (ret 0)"
| "run_command ce cfg (SetModel m fast) = set_model ce m fast"
| "run_command ce cfg ShowConfig = show_config ce cfg"
| "run_command ce cfg (InstallMultimodal t d) = install_multimodal ce t d"
| "run_command ce cfg (SendOnboarding oid al) = send_onboarding ce oid al"

text \<open>The secrets file is read into the environment, then the configuration is loaded.\<close>

definition with_secrets :: "os_env \<Rightarrow> os_env" where
  "with_secrets os = os\<lparr>os_environ := load_secrets_into_env (os_files os (secrets_file_path os)) (os_environ os)\<rparr>"

definition cli_main :: "cli_env \<Rightarrow> command \<Rightarrow> int cli_act" where
  "cli_main ce cmd =
     bnd (gets (\<lambda>s. with_secrets (os_now ce s))) (\<lambda>os.
     bnd (lift_sum (load_config (ce_config ce) os None)) (\<lambda>cfg.
     run_command (ce\<lparr>ce_os := os\<rparr>) cfg cmd))"

section \<open>The responder's profile\<close>

lemma profile_paths_differ:
  "user_profile_path fs a \<noteq> responder_profile_path fs b" "responder_profile_path fs b \<noteq> user_profile_path fs a"
proof -
  show "user_profile_path fs a \<noteq> responder_profile_path fs b"
    by (simp add: user_profile_path_def responder_profile_path_def)
  then show "responder_profile_path fs b \<noteq> user_profile_path fs a" by (rule not_sym)
qed

lemma write_file_run: "bnd (write_file p t) k s = k () (s\<lparr>cs_files := (cs_files s)(p \<mapsto> t)\<rparr>)"
  by (simp add: write_file_def bnd_def modify_def)

lemma on_db_files: "on_db m s = (r, s') \<Longrightarrow> cs_files s' = cs_files s"
  by (auto simp: on_db_def split: prod.splits)

lemma setup_responder_files:
  assumes "setup_responder ce fs a r rn s = (Inr (), s')"
  shows "cs_files s' (responder_profile_path fs b) = cs_files s (responder_profile_path fs b)"
    and "cs_files s p \<noteq> None \<longrightarrow> cs_files s' p \<noteq> None"
  using assms
  by (auto simp: profile_paths_differ setup_responder_def ret_def write_file_def modify_def elim!: bnd_InrE dest!: on_db_files
    split: option.splits if_splits)

text \<open>C40: \<open>setup\<close> writes the review profile where nothing reads it: the file from which the dispatcher takes a
  responder's profile stays as it was, whoever the responder is, so that the dispatcher, run on the
  files setup leaves, reads the profile it would have read before.\<close>

theorem setup_profile_not_read:
  assumes "cli_setup ce cfg a an r rn s = (Inr n, s')" and "cfg_value cfg ''paths'' ''fs'' = JStr fs"
  shows "cs_files s' (user_profile_path fs a) \<noteq> None
    \<and> cs_files s' (responder_profile_path fs b) = cs_files s (responder_profile_path fs b)
    \<and> responder_md (e\<lparr>fs_root := fs, fs_file := \<lambda>k. cs_files s'\<rparr>) k b
        = responder_md (e\<lparr>fs_root := fs, fs_file := \<lambda>k. cs_files s\<rparr>) k b"
proof -
  from assms(1) [unfolded cli_setup_def] obtain x s1 where s1: "on_db (upsert_user (ce_db ce) (cli_user a an [ADMIN, RESPONDER] None)) s = (Inr x, s1)"
    and rest: "bnd (lift_sum (str_or_outside (cfg_value cfg ''paths'' ''fs''))) (\<lambda>fs.
      bnd (gets (\<lambda>s. cs_files s (user_profile_path fs a))) (\<lambda>prof.
      andthen (if prof = None then write_file (user_profile_path fs a) default_profile else ret ())
      (andthen (setup_responder ce fs a r rn) (andthen (say (asc ''setup ok: admin='' @ a)) (ret 0))))) s1 = (Inr n, s')"
    by (rule bnd_InrE)
  let ?s2 = "if cs_files s1 (user_profile_path fs a) = None
    then s1\<lparr>cs_files := (cs_files s1)(user_profile_path fs a \<mapsto> default_profile)\<rparr> else s1"
  have "andthen (setup_responder ce fs a r rn) (andthen (say (asc ''setup ok: admin='' @ a)) (ret 0)) ?s2 = (Inr n, s')"
    using rest assms(2) by (auto simp: str_or_outside_def run_simps write_file_run split: if_splits)
  then obtain s3 where s3: "setup_responder ce fs a r rn ?s2 = (Inr (), s3)" "cs_files s' = cs_files s3"
    by (auto elim!: bnd_InrE simp: say_def modify_def ret_def)
  have "cs_files ?s2 (user_profile_path fs a) \<noteq> None"
    "cs_files ?s2 (responder_profile_path fs b) = cs_files s (responder_profile_path fs b)"
    using on_db_files [OF s1] by (auto simp: profile_paths_differ)
  with setup_responder_files [OF s3(1)] s3(2) show ?thesis by (auto simp: responder_md_def)
qed

section \<open>Removed responders\<close>

text \<open>When a responder has been removed, the first message of a requester paired with them opens no
  session: the requester is told to get paired.\<close>

theorem removed_responder_orphans:
  assumes "remove_user ce r s = (Inr n, s')" and "pairing_responder_oid u = Some r"
  shows "handle_requester_no_session e u m (cs_world s') = safe_dm e (open_id u) DmNotPaired (cs_world s')"
proof -
  have "r \<notin> set (user_ids (cs_world s'))"
    using assms(1)
    by (auto simp: remove_user_def on_db_def delete_user_def run_simps say_def modify_def user_ids_def w_users_def ret_def
      elim!: bnd_InrE split: prod.splits)
  then have "find_user (cs_world s') r = None"
    by (auto simp: find_user_def user_ids_def find_None_iff)
  then show ?thesis
    using assms(2) by (simp add: handle_requester_no_session_def get_user_def run_simps ret_def bnd_def gets_def)
qed

section \<open>Changing the model\<close>

text \<open>The environment takes the first entry of the file for a variable it does not have.\<close>

lemma fold_first_entry:
  "k \<noteq> [] \<Longrightarrow> foldl (\<lambda>m (k, v). if k \<noteq> [] \<and> m k = None then m(k \<mapsto> v) else m) envv kvs k
     = (case envv k of None \<Rightarrow> map_of kvs k | Some v \<Rightarrow> Some v)"
proof (induction kvs arbitrary: envv)
  case Nil
  then show ?case by (simp split: option.splits)
next
  case (Cons kv kvs)
  then show ?case by (cases kv) (auto split: option.splits)
qed

lemma first_entry_upserted:
  "env_entry new = Some (k, v) \<Longrightarrow> map_of (env_entries (upsert_lines k new ls)) k = Some v"
proof (induction ls)
  case (Cons l ls)
  then show ?case using entry_line [of l k] by (auto split: option.splits)
qed simp

lemma environment_after_upsert:
  assumes "clean_key k" and "clean_value v" and "envv k = None"
  shows "load_secrets_into_env (Some (upsert_env_value k v file)) envv k = Some v"
proof -
  let ?ls = "case file of None \<Rightarrow> [] | Some t \<Rightarrow> cut_lines t"
  let ?new = "k @ asc ''='' @ v"
  have new: "list_all (\<lambda>c. \<not> is_break c) ?new"
    using assms(1,2) by (simp add: clean_key_def clean_value_def is_break_def)
  have "list_all (list_all (\<lambda>c. \<not> is_break c)) ?ls" by (auto simp: cut_lines_breakfree split: option.splits)
  then have "env_entries (cut_lines (upsert_env_value k v file)) = env_entries (upsert_lines k ?new ?ls)"
    using upsert_breakfree [OF new, of ?ls k]
    by (simp add: upsert_env_value_def entries_rstrip cut_lines_join del: asc_Cons)
  moreover have "k \<noteq> []" using assms(1) by (simp add: clean_key_def)
  ultimately show ?thesis
    using assms(3) first_entry_upserted [OF env_entry_written(1) [OF assms(1,2)]]
    by (simp add: load_secrets_into_env_def fold_first_entry del: asc_Cons)
qed

text \<open>Writing the secrets file does not change which file that is.\<close>

lemma user_secrets_elsewhere: "home @ asc ''/.config/review-agent/secrets.env'' \<noteq> ENV_FILE_DEFAULT"
proof
  assume "home @ asc ''/.config/review-agent/secrets.env'' = ENV_FILE_DEFAULT"
  then have "length (home @ asc ''/.config/review-agent/secrets.env'') = length ENV_FILE_DEFAULT" by simp
  then show False by (simp add: ENV_FILE_DEFAULT_def)
qed

lemma secrets_path_stable:
  "secrets_file_path (os\<lparr>os_files := (os_files os)(secrets_file_path os \<mapsto> t)\<rparr>) = secrets_file_path os"
  using user_secrets_elsewhere [of "os_home os"] by (auto simp: secrets_file_path_def split: option.splits)

lemma model_key_clean: "clean_key (model_key fast)"
proof (cases fast)
  case True
  then show ?thesis unfolding model_key_def by (simp del: asc_Cons) code_simp
next
  case False
  then show ?thesis unfolding model_key_def by (simp del: asc_Cons) code_simp
qed

lemma each_say_files: "each say ls s = (Inr (), s') \<Longrightarrow> cs_files s' = cs_files s"
  by (induction ls arbitrary: s) (auto simp: ret_def say_def modify_def elim!: bnd_InrE)

lemma set_model_file:
  assumes "set_model ce m fast s = (Inr n, s')"
  shows "cs_files s' = (cs_files s)(secrets_file_path (os_now ce s) \<mapsto>
    upsert_env_value (model_key fast) m (cs_files s (secrets_file_path (os_now ce s))))"
  using assms unfolding set_model_def
  by (auto simp: run_simps write_file_run ret_def elim!: bnd_InrE dest!: each_say_files simp del: each.simps)

text \<open>C39: After \<open>set-model\<close> every later start of a command loads a configuration with the new model, whatever
  the TOML file says, unless the shell sets the variable itself.\<close>

theorem set_model_takes_effect:
  assumes "set_model ce m False s = (Inr n, s')" and "clean_value m" and "m \<noteq> []"
    and "os_environ (ce_os ce) (asc ''REVIEW_AGENT_MODEL'') = None"
    and "load_config (ce_config ce) (with_secrets (os_now ce s')) path = Inr cfg"
  shows "cfg_get cfg ''llm'' ''default_model'' = Some (JStr m)"
proof -
  let ?p = "secrets_file_path (os_now ce s)"
  let ?t = "upsert_env_value (model_key False) m (cs_files s ?p)"
  have now: "os_now ce s' = (os_now ce s)\<lparr>os_files := (os_files (os_now ce s))(?p \<mapsto> ?t)\<rparr>"
    using set_model_file [OF assms(1)] by (simp add: os_now_def)
  have "secrets_file_path (os_now ce s') = ?p" unfolding now by (rule secrets_path_stable)
  then have "os_environ (with_secrets (os_now ce s')) = load_secrets_into_env (Some ?t) (os_environ (ce_os ce))"
    using now by (simp add: with_secrets_def os_now_def)
  moreover have "load_secrets_into_env (Some ?t) (os_environ (ce_os ce)) (model_key False) = Some m"
    using environment_after_upsert [OF model_key_clean [of False] assms(2), of "os_environ (ce_os ce)"] assms(4) by (simp add: model_key_def del: asc_Cons)
  ultimately have "set_var (os_environ (with_secrets (os_now ce s'))) (asc ''REVIEW_AGENT_MODEL'') = Some m"
    using assms(3) by (simp add: set_var_def model_key_def del: asc_Cons)
  from env_overrides [OF assms(5) _ this, of "''llm''" "''default_model''" AsString]
  show ?thesis by (simp add: overrides_def convert_def del: asc_Cons)
qed

section \<open>A concrete installation\<close>

definition demo_cli :: cli_env where
  "demo_cli = \<lparr>ce_db = demo_env, ce_config = demo_ce, ce_os = demo_os\<lparr>os_environ := (\<lambda>_. None)\<rparr>,
     ce_which = (\<lambda>b. False), ce_call = (\<lambda>args. 0), ce_here = asc ''/app''\<rparr>"

definition demo_cli_state :: cli_state where
  "demo_cli_state = \<lparr>cs_world = demo_world, cs_files = [DEFAULT_PATH \<mapsto> asc ''toml''], cs_out = []\<rparr>"

definition demo_cli_config :: config where
  "demo_cli_config = default_config demo_ce"

theorem setup_profile_not_read_witness:
  "\<exists>fs s'. cli_setup demo_cli demo_cli_config (asc ''ou_boss'') (asc ''Boss'') None [] demo_cli_state = (Inr 0, s')
     \<and> cs_files s' (user_profile_path fs (asc ''ou_boss'')) \<noteq> None
     \<and> cs_files s' (responder_profile_path fs (asc ''ou_boss'')) = cs_files demo_cli_state (responder_profile_path fs (asc ''ou_boss''))"
proof -
  have "fst (cli_setup demo_cli demo_cli_config (asc ''ou_boss'') (asc ''Boss'') None [] demo_cli_state) = Inr 0" by code_simp
  then obtain s' where run: "cli_setup demo_cli demo_cli_config (asc ''ou_boss'') (asc ''Boss'') None [] demo_cli_state = (Inr 0, s')"
    by (metis prod.collapse)
  have "cfg_value demo_cli_config ''paths'' ''fs'' = JStr (asc ''/home/.review-agent/fs'')" by code_simp
  from setup_profile_not_read [OF run this] run show ?thesis by blast
qed

theorem removed_responder_orphans_witness:
  "\<exists>s'. remove_user demo_cli (asc ''ou_boss'') demo_cli_state = (Inr 0, s')
     \<and> (\<forall>m. handle_requester_no_session demo_env demo_requester m (cs_world s') = safe_dm demo_env (asc ''ou_ann'') DmNotPaired (cs_world s'))"
proof -
  have "fst (remove_user demo_cli (asc ''ou_boss'') demo_cli_state) = Inr 0" by code_simp
  then obtain s' where run: "remove_user demo_cli (asc ''ou_boss'') demo_cli_state = (Inr 0, s')" by (metis prod.collapse)
  have "pairing_responder_oid demo_requester = Some (asc ''ou_boss'')" "open_id demo_requester = asc ''ou_ann''"
    by (simp_all add: demo_requester_def)
  with removed_responder_orphans [OF run] run show ?thesis by metis
qed

theorem set_model_takes_effect_witness:
  "\<exists>s' cfg. set_model demo_cli (asc ''v5'') False demo_cli_state = (Inr 0, s')
     \<and> load_config demo_ce (with_secrets (os_now demo_cli s')) None = Inr cfg
     \<and> cfg_get cfg ''llm'' ''default_model'' = Some (JStr (asc ''v5''))"
proof -
  let ?run = "set_model demo_cli (asc ''v5'') False demo_cli_state"
  have ok: "fst ?run = Inr 0"
    "\<not> isl (load_config (ce_config demo_cli) (with_secrets (os_now demo_cli (snd ?run))) None)"
    "clean_value (asc ''v5'')" "asc ''v5'' \<noteq> []" "os_environ (ce_os demo_cli) (asc ''REVIEW_AGENT_MODEL'') = None"
    by code_simp+
  then obtain s' cfg where run: "?run = (Inr 0, s')"
    and cfg: "load_config (ce_config demo_cli) (with_secrets (os_now demo_cli s')) None = Inr cfg"
    by (metis isl_def sum.exhaust prod.collapse snd_conv)
  from set_model_takes_effect [OF run ok(3-5) cfg] run cfg show ?thesis
    by (intro exI [of _ s'] exI [of _ cfg]) (simp add: demo_cli_def)
qed

end
