(* ===== verification/Spec2Isabelle.thy ===== *)
theory Spec2Isabelle imports Repeats FileOps StageMachine PostParser LarkDocs DeepSeek Media Format Cli begin

text \<open>
  \<^bold>\<open>Verification of review-agent.\<close>

  review-agent is a chat bot that reviews the briefing material a \<^emph>\<open>requester\<close> sends before a
  meeting with their \<^emph>\<open>responder\<close>. Messages arrive from Lark (an HTTP webhook) or Slack (a socket),
  are de-duplicated, stored as tasks in SQLite and put in a queue per requester. One worker takes
  the tasks and runs the dispatcher, which opens a session for the requester, ingests the material
  (text, files, links), confirms the topic, lets a language model scan it for findings, asks the
  findings one by one, and, when the requester is through or closes the session, merges the draft,
  runs a final gate, builds a summary and delivers it to both sides. A command line and a status
  page administer it.

  \<^bold>\<open>How the model is built.\<close> Text is a list of code points (\<open>ustr\<close>), since Python's strings are; a
  dictionary is an association list in insertion order or a map. The state of a run is the record
  \<open>world\<close> (theory World): the tables of the database, the files of the session directories, and the
  trace of what has left the process (messages, model requests). An operation is a program
  \<open>('s, 'a) prog\<close> of Prelude, a function from the state to a result and the state: the result is
  \<open>Inl\<close> of the raised exception or \<open>Inr\<close> of the value, and the state is kept when an exception
  leaves, since the code commits every statement by itself. \<open>bnd\<close>, \<open>andthen\<close>, \<open>catching\<close> and
  \<open>for_each\<close> are the sequencing, the \<open>try\<close> and the loops of the source. What is not under src/ is a
  field of the record \<open>env\<close> or an argument: the clock, random ids, the operator's files (\<open>fs_file\<close>: the delivery
  targets, the review style and rules, the responders' profiles), the language model, HTTP, SHA-256
  and AES, tesseract, whisper, the PDF reader, the search for captions, the Slack client. No
  definition assumes anything of them; a property that relies on one says so in a hypothesis.

  \<^bold>\<open>Theories and sources\<close> (paths under src/review_agent):

  \<^item> Prelude, UnicodeLower, PyStr, Json: programs and relations between the state before and after
    (\<open>steps\<close>), Python's string methods, \<open>str.lower\<close>, integers, \<open>json.dumps\<close> and \<open>json.loads\<close>.
  \<^item> Models, Intents: core/enums.py, core/models.py (the cursor with its queues of findings),
    lark/types.py, pipeline/\<open>_intents\<close>.py.
  \<^item> World, Storage: core/schema.sql, core/storage.py, util/md.py. The invariants \<open>db_wf\<close> (keys,
    references between the tables) and the frame of every method.
  \<^item> Effects: the relations a caller of the model or of the store keeps, as locales, with their
    interpretations on the dispatcher's operations.
  \<^item> Llm, JsonExtract, Scan, ConfirmTopic, FinalGate, Summary, QaLoop: pipeline/\<open>_json\<close>.py, scan.py,
    confirm\<open>_\<close>topic.py, merge\<open>_\<close>draft.py, final\<open>_\<close>gate.py, build\<open>_\<close>summary.py, qa\<open>_\<close>loop.py.
  \<^item> Deliver: pipeline/deliver.py and delivery\<open>_\<close>backends/.
  \<^item> Util, Urls, Ingest, LarkDocs, Media: util/, pipeline/ingest.py and ingest\<open>_\<close>backends/ (URL
    patterns, size guards, batch fetchers, Lark documents, Bitable and sheets; images, audio, PDF,
    text files, web pages, YouTube).
  \<^item> Stages, Material, Dispatcher, CloseChain, Safety, StageMachine: core/dispatcher.py. Stages has the
    steps around the pipeline (failing a session, showing a finding, the chain from merge to delivery),
    Material the first messages and the supplements, Dispatcher the handlers, \<open>dispatch\<close> and the diagram of
    the stages; StageMachine shows that sessions follow the diagram and how an intake ends.
  \<^item> TaskQueue: tasks/queue.py, tasks/worker.py.
  \<^item> Writes, System, Repeats: the process as a whole, its start-up from app.py included, as a step relation over
    requests, Slack events, the two halves of a worker turn, crashes and restarts. A crash inside a
    handler leaves what some sequence of the writes of a handler leads to (Writes); its task is handled
    again after the restart (Repeats).
  \<^item> Http, LarkClient, DeepSeek, Webhook, PostParser: lark/client.py, lark/token.py,
    llm/deepseek.py, lark/webhook.py, routers/lark\<open>_\<close>webhook.py, lark/parser.py.
  \<^item> Mrkdwn, Slack, Socket, Format: slack/mrkdwn.py, slack/adapter.py, pipeline/\<open>_format\<close>.py. Socket has
    the events, the reconnecting loop and the shutdown.
  \<^item> FileOps: \<open>atomic_write\<close> of util/path.py step by step; it justifies that a file of a session is
    written in one step elsewhere.
  \<^item> EnvFile, Config, Cli, App: secrets.py, config.py, cli.py, app.py, routers/dashboard.py.
  \<^item> Demo: a concrete environment and store on which witnesses are evaluated.

  \<^bold>\<open>What the lemmas show.\<close> \<^emph>\<open>Isolation and integrity:\<close> every operation is shown, once, to keep a
  family of relations (\<open>X.steps_...\<close> of the locales of Effects): it touches only the sessions of
  the requester it serves, never opens a second active session, and keeps the keys of the database.
  The dispatcher's theorems on other requesters, on one active session and on \<open>db_wf\<close> are instances.
  The same relations, restricted to the stages a handler may write (\<open>staged_effects\<close>), give the stage diagram:
  which stages a message can take a session to, on every path and with every exception.
  \<^emph>\<open>Function:\<close> the result of the reply handler, the scan, the final gate, the close chain and the
  delivery on each branch, errors included. \<^emph>\<open>Refinement:\<close> the worker implements an abstract queue;
  a restart loses no task. \<^emph>\<open>The process:\<close> in every reachable state the tables are sound, the pending
  tasks are those in the queues and the running one is the worker's, so that every accepted task is
  finished whatever crashes came before, and a finished one is never taken again. \<^emph>\<open>Input:\<close> what is
  found in a model's answer, which URLs and blocks make material and what a supplement does to it, that a resolved path stays inside
  the session directory, that the two rich-text parsers agree, that a signed body is authentic and a
  redelivered event is dropped. \<^emph>\<open>Clients:\<close> the number of requests of a retry loop is bounded, and its
  errors are those the callers handle. \<^emph>\<open>Files:\<close> what reading the env file gives after a write (the new value, unless a later line for the key hides it),
  the table of a sheet read back as its displayed cells, the Slack thread file read back as written. Several theorems state a defect, because the code has it.

  \<^bold>\<open>Bounds.\<close> Retry loops recurse on the number of attempts left, which the source fixes; the
  process's liveness counts the queued tasks as turns, which suffices because a turn removes one id; the loops over strings recurse on the text or carry its length as fuel, which every
  iteration reduces. No result of the model stands for fuel that ran out in a theorem that claims
  termination.

  \<^bold>\<open>Not modelled.\<close> The prompt templates of pipeline/\<open>_prompts\<close>.py are Jinja texts; the model keeps the
  template's name and the values it is rendered with. Replies of the dispatcher with a fixed wording
  are constructors with the values that are filled in. Slack's socket and web clients, FastAPI, argument parsing and
  logging are calls of libraries. SQLite's own faults do not occur, and those of the file system only in
  FileOps. llm/fake.py is test
  support. The asyncio event and the lock of the queue are not there: one worker takes the turns one
  after the other, and a turn that finds every queue empty waits. A handler that is not
  cut off is one step of the process: requests that arrive while it waits for the model only write
  events and tasks, which it does not touch.
\<close>

end
